(* ===== verification/Prelude.thy ===== *)
theory Prelude
  imports Main "HOL-Library.Sublist"
begin

text \<open>
  Shared base of the development: Go computations as state transformers with three ways to
  end (a value, a panic, or blocking), Go's \<open>error\<close> values, frame reasoning for such
  computations, and invariants of step relations.

  A Go function that returns \<open>(T, error)\<close> is a computation whose value is of the sum
  type \<open>goerr + 'a\<close>: an error is an ordinary value of the program. A panic is not: it ends
  the computation and keeps the state reached so far, as the Go runtime does. \<open>Hang\<close> is a
  call that cannot return in the state reached (a lock that is held, a channel that is full).
\<close>

named_theorems go_ops \<open>definitions of the modelled system calls, unfolded to compute a step\<close>
named_theorems keeps_intros \<open>computations that keep a given relation between states\<close>

subsection \<open>Errors and outcomes\<close>

datatype oserr = ENOENT | EEXIST | ENOTDIR | EISDIR | EINVAL | EACCES | ESRCH | EBUSY
  | EBADF | ENODEV | EPERM | EIO | ENOEXEC

text \<open>
  Go errors: an operating system error, a formatted message with its string arguments, or a
  message that also wraps another error, given last. The format string is the source's.
\<close>

datatype goerr = EOs oserr | EFmt string "string list" | EWrap string "string list" goerr

datatype 'a outcome = Ret 'a | Panic string | Hang

type_synonym ('s, 'a) go = "'s \<Rightarrow> 'a outcome \<times> 's"

definition ret :: "'a \<Rightarrow> ('s, 'a) go" where
  "ret x = (\<lambda>s. (Ret x, s))"

definition go_panic :: "string \<Rightarrow> ('s, 'a) go" where
  "go_panic msg = (\<lambda>s. (Panic msg, s))"

definition hang :: "('s, 'a) go" where
  "hang = (\<lambda>s. (Hang, s))"

definition bnd :: "('s, 'a) go \<Rightarrow> ('a \<Rightarrow> ('s, 'b) go) \<Rightarrow> ('s, 'b) go" where
  "bnd m f = (\<lambda>s. case m s of
      (Ret x, s') \<Rightarrow> f x s'
    | (Panic p, s') \<Rightarrow> (Panic p, s')
    | (Hang, s') \<Rightarrow> (Hang, s'))"

definition thn :: "('s, 'a) go \<Rightarrow> ('s, 'b) go \<Rightarrow> ('s, 'b) go" where
  "thn m k = bnd m (\<lambda>_. k)"

definition gets :: "('s \<Rightarrow> 'a) \<Rightarrow> ('s, 'a) go" where
  "gets f = (\<lambda>s. (Ret (f s), s))"

definition modify :: "('s \<Rightarrow> 's) \<Rightarrow> ('s, unit) go" where
  "modify f = (\<lambda>s. (Ret (), f s))"

text \<open>Dereferencing a pointer that may be \<open>nil\<close>.\<close>

definition deref :: "'a option \<Rightarrow> ('s, 'a) go" where
  "deref p = (case p of Some x \<Rightarrow> ret x | None \<Rightarrow> go_panic ''nil pointer dereference'')"

subsection \<open>Computing with outcomes\<close>

lemma ret_apply [simp]: "ret x s = (Ret x, s)"
  by (simp add: ret_def)

lemma go_panic_apply [simp]: "go_panic p s = (Panic p, s)"
  by (simp add: go_panic_def)

lemma hang_apply [simp]: "hang s = (Hang, s)"
  by (simp add: hang_def)

lemma gets_apply [simp]: "gets f s = (Ret (f s), s)"
  by (simp add: gets_def)

lemma modify_apply [simp]: "modify f s = (Ret (), f s)"
  by (simp add: modify_def)

lemma deref_Some [simp]: "deref (Some x) = ret x"
  by (simp add: deref_def)

lemma deref_None [simp]: "deref None = go_panic ''nil pointer dereference''"
  by (simp add: deref_def)

lemma bnd_RetI: "m s = (Ret x, t) \<Longrightarrow> bnd m f s = f x t"
  by (simp add: bnd_def)

lemma bnd_PanicI: "m s = (Panic p, t) \<Longrightarrow> bnd m f s = (Panic p, t)"
  by (simp add: bnd_def)

lemma bnd_HangI: "m s = (Hang, t) \<Longrightarrow> bnd m f s = (Hang, t)"
  by (simp add: bnd_def)

lemmas bnd_eval = bnd_RetI bnd_PanicI bnd_HangI

lemma thn_RetI: "m s = (Ret x, t) \<Longrightarrow> thn m k s = k t"
  by (simp add: thn_def bnd_RetI)

lemma thn_PanicI: "m s = (Panic p, t) \<Longrightarrow> thn m k s = (Panic p, t)"
  by (simp add: thn_def bnd_PanicI)

lemma thn_HangI: "m s = (Hang, t) \<Longrightarrow> thn m k s = (Hang, t)"
  by (simp add: thn_def bnd_HangI)

lemmas thn_eval = thn_RetI thn_PanicI thn_HangI

lemma bnd_ret [simp]: "bnd (ret x) f = f x"
  by (simp add: bnd_def fun_eq_iff)

lemma bnd_panic [simp]: "bnd (go_panic p) f = go_panic p"
  by (simp add: bnd_def fun_eq_iff)

lemma bnd_hang [simp]: "bnd hang f = hang"
  by (simp add: bnd_def fun_eq_iff)

lemma bnd_ret_right [simp]: "bnd m ret = m"
  by (auto simp: bnd_def fun_eq_iff split: prod.splits outcome.splits)

lemma bnd_assoc: "bnd (bnd m f) g = bnd m (\<lambda>x. bnd (f x) g)"
  by (auto simp: bnd_def fun_eq_iff split: prod.splits outcome.splits)

text \<open>What a finished sequence did: each part finished, in order.\<close>

lemma bnd_Ret_iff:
  "bnd m f s = (Ret y, t) \<longleftrightarrow> (\<exists>x u. m s = (Ret x, u) \<and> f x u = (Ret y, t))"
  by (auto simp: bnd_def split: prod.splits outcome.splits)

lemma thn_Ret_iff:
  "thn m k s = (Ret y, t) \<longleftrightarrow> (\<exists>x u. m s = (Ret x, u) \<and> k u = (Ret y, t))"
  by (simp add: thn_def bnd_Ret_iff)

lemmas bnd_iffs = bnd_Ret_iff thn_Ret_iff split_sum_ex split_option_ex

lemma bnd_cases:
  "bnd m f s = (case m s of
      (Ret x, t) \<Rightarrow> f x t | (Panic p, t) \<Rightarrow> (Panic p, t) | (Hang, t) \<Rightarrow> (Hang, t))"
  by (simp add: bnd_def)

subsection \<open>Frames: what a computation leaves alone\<close>

text \<open>
  \<open>keeps R m\<close> says that whatever way \<open>m\<close> ends, the state it leaves is related by \<open>R\<close> to
  the state it started from. For a preorder \<open>R\<close> this composes; the locale states the rules
  once, and a component interprets it for each frame it relies on.
\<close>

definition keeps :: "('s \<Rightarrow> 's \<Rightarrow> bool) \<Rightarrow> ('s, 'a) go \<Rightarrow> bool" where
  "keeps R m \<longleftrightarrow> (\<forall>s. R s (snd (m s)))"

lemma keepsI: "(\<And>s. R s (snd (m s))) \<Longrightarrow> keeps R m"
  by (simp add: keeps_def)

lemma keepsD: "keeps R m \<Longrightarrow> R s (snd (m s))"
  by (simp add: keeps_def)

lemma keepsE: "keeps R m \<Longrightarrow> m s = (r, t) \<Longrightarrow> R s t"
  using keepsD [of R m s] by simp

text \<open>The same for runs that return: a call may be followed that is only known to succeed.\<close>

definition returns_keep :: "('s \<Rightarrow> 's \<Rightarrow> bool) \<Rightarrow> ('s, 'a) go \<Rightarrow> bool" where
  "returns_keep R m \<longleftrightarrow> (\<forall>s x t. m s = (Ret x, t) \<longrightarrow> R s t)"

lemma returns_keepI: "(\<And>s x t. m s = (Ret x, t) \<Longrightarrow> R s t) \<Longrightarrow> returns_keep R m"
  by (simp add: returns_keep_def)

lemma returns_keepE: "returns_keep R m \<Longrightarrow> m s = (Ret x, t) \<Longrightarrow> R s t"
  by (simp add: returns_keep_def)

lemma returns_keep_keeps: "keeps R m \<Longrightarrow> returns_keep R m"
  by (auto simp: returns_keep_def dest: keepsE)

locale frame_rel =
  fixes R :: "'s \<Rightarrow> 's \<Rightarrow> bool"
  assumes frame_refl: "R s s"
    and frame_trans: "R s t \<Longrightarrow> R t u \<Longrightarrow> R s u"
begin

lemma kp_ret: "keeps R (ret x)"
  by (simp add: keeps_def frame_refl)

lemma kp_panic: "keeps R (go_panic p)"
  by (simp add: keeps_def frame_refl)

lemma kp_hang: "keeps R hang"
  by (simp add: keeps_def frame_refl)

lemma kp_gets: "keeps R (gets f)"
  by (simp add: keeps_def frame_refl)

lemma kp_deref: "keeps R (deref p)"
  by (cases p) (simp_all add: keeps_def frame_refl)

lemma kp_bnd: "keeps R m \<Longrightarrow> (\<And>x. keeps R (f x)) \<Longrightarrow> keeps R (bnd m f)"
  unfolding keeps_def bnd_def
  by (auto split: prod.splits outcome.splits) (metis frame_trans snd_conv)+

lemma kp_thn: "keeps R m \<Longrightarrow> keeps R k \<Longrightarrow> keeps R (thn m k)"
  unfolding thn_def by (rule kp_bnd)

lemma kp_if: "keeps R m \<Longrightarrow> keeps R k \<Longrightarrow> keeps R (if b then m else k)"
  by simp

lemma kp_option:
  "keeps R m \<Longrightarrow> (\<And>x. keeps R (f x)) \<Longrightarrow> keeps R (case opt of None \<Rightarrow> m | Some x \<Rightarrow> f x)"
  by (cases opt) simp_all

lemma kp_sum:
  "(\<And>e. keeps R (f e)) \<Longrightarrow> (\<And>x. keeps R (g x)) \<Longrightarrow>
     keeps R (case r of Inl e \<Rightarrow> f e | Inr x \<Rightarrow> g x)"
  by (cases r) simp_all

lemma kp_prod: "(\<And>a b. keeps R (f a b)) \<Longrightarrow> keeps R (case p of (a, b) \<Rightarrow> f a b)"
  by (cases p) simp

lemma kp_let: "(\<And>x. keeps R (f x)) \<Longrightarrow> keeps R (let x = v in f x)"
  by simp

text \<open>Panics and blocked calls return nothing.\<close>

lemma rk_panic: "returns_keep R (go_panic p)"
  by (simp add: returns_keep_def)

lemma rk_hang: "returns_keep R hang"
  by (simp add: returns_keep_def)

lemma rk_bnd: "returns_keep R m \<Longrightarrow> (\<And>x. returns_keep R (f x)) \<Longrightarrow> returns_keep R (bnd m f)"
  unfolding returns_keep_def bnd_Ret_iff by (blast intro: frame_trans)

lemma rk_thn: "returns_keep R m \<Longrightarrow> returns_keep R k \<Longrightarrow> returns_keep R (thn m k)"
  unfolding thn_def by (rule rk_bnd)

lemma rk_if: "returns_keep R m \<Longrightarrow> returns_keep R k \<Longrightarrow> returns_keep R (if b then m else k)"
  by simp

lemma rk_option:
  "returns_keep R m \<Longrightarrow> (\<And>x. returns_keep R (f x)) \<Longrightarrow>
     returns_keep R (case opt of None \<Rightarrow> m | Some x \<Rightarrow> f x)"
  by (cases opt) simp_all

lemma rk_sum:
  "(\<And>e. returns_keep R (f e)) \<Longrightarrow> (\<And>x. returns_keep R (g x)) \<Longrightarrow>
     returns_keep R (case r of Inl e \<Rightarrow> f e | Inr x \<Rightarrow> g x)"
  by (cases r) simp_all

lemma rk_prod: "(\<And>a b. returns_keep R (f a b)) \<Longrightarrow> returns_keep R (case p of (a, b) \<Rightarrow> f a b)"
  by (cases p) simp

lemmas rk_basic = returns_keep_keeps [OF kp_ret] returns_keep_keeps [OF kp_gets]
  returns_keep_keeps [OF kp_deref]

lemmas rk_rules = rk_panic rk_hang rk_bnd rk_thn rk_if rk_option rk_sum rk_prod rk_basic

lemmas kp_rules = kp_ret kp_panic kp_hang kp_gets kp_deref kp_bnd kp_thn kp_if kp_option
  kp_sum kp_prod kp_let

end

subsection \<open>Invariants of step relations\<close>

locale step_invariant =
  fixes init :: "'s \<Rightarrow> bool"
    and step :: "'s \<Rightarrow> 's \<Rightarrow> bool"
    and inv :: "'s \<Rightarrow> bool"
  assumes inv_init: "init s \<Longrightarrow> inv s"
    and inv_step: "inv s \<Longrightarrow> step s t \<Longrightarrow> inv t"
begin

lemma inv_run: "step\<^sup>*\<^sup>* s t \<Longrightarrow> inv s \<Longrightarrow> inv t"
  by (induction rule: rtranclp_induct) (auto intro: inv_step)

lemma inv_reach: "init s \<Longrightarrow> step\<^sup>*\<^sup>* s t \<Longrightarrow> inv t"
  by (blast intro: inv_run inv_init)

end

subsection \<open>Lists\<close>

lemma prefix_take_iff: "prefix p s \<longleftrightarrow> take (length p) s = p"
  by (auto simp: prefix_def) (metis append_take_drop_id)

lemma dropWhile_id_iff: "dropWhile P xs = xs \<longleftrightarrow> xs = [] \<or> \<not> P (hd xs)"
proof (cases xs)
  case (Cons a list)
  have "length (dropWhile P list) \<le> length list"
    by (rule length_dropWhile_le)
  then have "dropWhile P list \<noteq> a # list"
    by (metis impossible_Cons)
  with Cons show ?thesis by simp
qed simp

lemma last_snoc_butlast: "xs \<noteq> [] \<Longrightarrow> butlast xs @ [last xs] = xs"
  by simp

end
