(* ===== verification/Go_Strings.thy ===== *)
theory Go_Strings
  imports Prelude
begin

text \<open>
  What the program uses of Go's \<open>strings\<close> and \<open>strconv\<close> packages, on byte strings
  (Isabelle's \<open>char\<close> is a byte): \<open>HasPrefix\<close>, \<open>TrimLeft\<close>, \<open>Index\<close>, \<open>Contains\<close>,
  \<open>Replace\<close> with count 1, \<open>Split\<close>, \<open>Itoa\<close> and \<open>Atoi\<close>. The lemmas say
  when \<open>TrimLeft\<close> does what cutting a prefix would do, and that \<open>Atoi\<close> inverts \<open>Itoa\<close>.
\<close>

subsection \<open>strings\<close>

definition hasPrefix :: "string \<Rightarrow> string \<Rightarrow> bool" where
  "hasPrefix s p \<longleftrightarrow> take (length p) s = p"

text \<open>The second argument of \<open>strings.TrimLeft\<close> is a set of characters, not a prefix.\<close>

definition trimLeft :: "string \<Rightarrow> string \<Rightarrow> string" where
  "trimLeft s cutset = dropWhile (\<lambda>c. List.member cutset c) s"

fun find_sub :: "string \<Rightarrow> string \<Rightarrow> nat option" where
  "find_sub sep [] = (if sep = [] then Some 0 else None)"
| "find_sub sep (c # cs) =
     (if hasPrefix (c # cs) sep then Some 0 else map_option Suc (find_sub sep cs))"

definition strings_Contains :: "string \<Rightarrow> string \<Rightarrow> bool" where
  "strings_Contains s sub \<longleftrightarrow> find_sub sub s \<noteq> None"

definition strings_Replace1 :: "string \<Rightarrow> string \<Rightarrow> string \<Rightarrow> string" where
  "strings_Replace1 s old new =
     (case find_sub old s of None \<Rightarrow> s | Some i \<Rightarrow> take i s @ new @ drop (i + length old) s)"

lemma find_sub_bound: "find_sub sep s = Some i \<Longrightarrow> i + length sep \<le> length s"
  by (induction sep s arbitrary: i rule: find_sub.induct)
     (auto simp: hasPrefix_def split: if_splits dest: arg_cong [where f = length])

function strings_Split :: "string \<Rightarrow> string \<Rightarrow> string list" where
  "strings_Split s sep =
     (if sep = [] then map (\<lambda>c. [c]) s
      else case find_sub sep s of
          None \<Rightarrow> [s]
        | Some i \<Rightarrow> take i s # strings_Split (drop (i + length sep) s) sep)"
  by pat_completeness auto
termination
proof (relation "measure (\<lambda>(s, sep). length s)", goal_cases)
  case (2 s sep i)
  then have "i + length sep \<le> length s" by (simp add: find_sub_bound)
  with \<open>sep \<noteq> []\<close> show ?case by (cases sep) auto
qed simp

declare strings_Split.simps [simp del]

lemma hasPrefix_append [simp]: "hasPrefix (p @ v) p"
  by (simp add: hasPrefix_def)

lemma hasPrefix_iff: "hasPrefix s p \<longleftrightarrow> (\<exists>v. s = p @ v)"
  by (metis append_eq_conv_conj append_take_drop_id hasPrefix_def)

lemma hasPrefixE: "hasPrefix s p \<Longrightarrow> (\<And>v. s = p @ v \<Longrightarrow> thesis) \<Longrightarrow> thesis"
  by (auto simp: hasPrefix_iff)

text \<open>On \<open>name=value\<close> with the text \<open>name=\<close> as cutset, the whole name goes, and with it
  every leading character of the value that occurs in the name.\<close>

lemma trimLeft_own_prefix: "trimLeft (p @ v) p = dropWhile (\<lambda>c. c \<in> set p) v"
  by (simp add: trimLeft_def dropWhile_append2)

lemma trimLeft_own_prefix_id_iff:
  "trimLeft (p @ v) p = v \<longleftrightarrow> v = [] \<or> hd v \<notin> set p"
  by (simp add: trimLeft_own_prefix dropWhile_id_iff)

lemma find_sub_None_iff: "find_sub sep s = None \<longleftrightarrow> (\<nexists>a b. s = a @ sep @ b)"
proof (induction sep s rule: find_sub.induct)
  case (1 sep)
  then show ?case by simp
next
  case (2 sep c cs)
  have "(\<exists>a b. c # cs = a @ sep @ b) \<longleftrightarrow>
      hasPrefix (c # cs) sep \<or> (\<exists>a b. cs = a @ sep @ b)"
    by (auto simp: hasPrefix_iff Cons_eq_append_conv)
  with 2 show ?case by auto
qed

lemma find_sub_split: "find_sub sep s = Some i \<Longrightarrow> s = take i s @ sep @ drop (i + length sep) s"
proof (induction sep s arbitrary: i rule: find_sub.induct)
  case (2 sep c cs)
  show ?case
  proof (cases "hasPrefix (c # cs) sep")
    case True
    with 2 show ?thesis by (auto simp: hasPrefix_def) (metis append_take_drop_id)
  next
    case False
    with 2 show ?thesis by auto
  qed
qed (simp split: if_splits)

lemma strings_Contains_iff: "strings_Contains s sub \<longleftrightarrow> (\<exists>a b. s = a @ sub @ b)"
  by (simp add: strings_Contains_def find_sub_None_iff)

text \<open>The element of \<open>Split\<close> after a leading separator: everything up to the next one.\<close>

lemma find_sub_prefix: "find_sub sep (sep @ v) = Some 0"
proof (cases "sep @ v")
  case (Cons c cs)
  then have "hasPrefix (c # cs) sep" by (metis hasPrefix_append)
  with Cons show ?thesis by simp
qed simp

lemma strings_Split_after_prefix:
  assumes "sep \<noteq> []"
  shows "strings_Split (sep @ v) sep ! 1 =
    (case find_sub sep v of None \<Rightarrow> v | Some i \<Rightarrow> take i v)"
  using assms
  by (simp add: strings_Split.simps [of "sep @ v"] find_sub_prefix strings_Split.simps [of v]
      split: option.splits)

subsection \<open>strconv\<close>

definition digit_char :: "nat \<Rightarrow> char" where
  "digit_char d = char_of (48 + d)"

fun nat_digits :: "nat \<Rightarrow> string" where
  "nat_digits n =
     (if n < 10 then [digit_char n] else nat_digits (n div 10) @ [digit_char (n mod 10)])"

declare nat_digits.simps [simp del]

definition itoa :: "int \<Rightarrow> string" where
  "itoa i = (if i < 0 then CHR ''-'' # nat_digits (nat (- i)) else nat_digits (nat i))"

definition is_digit :: "char \<Rightarrow> bool" where
  "is_digit c \<longleftrightarrow> 48 \<le> (of_char c :: nat) \<and> (of_char c :: nat) \<le> 57"

definition digits_value :: "string \<Rightarrow> nat" where
  "digits_value s = foldl (\<lambda>n c. 10 * n + (of_char c - 48)) 0 s"

definition int64_max :: int where
  "int64_max = 9223372036854775807"

definition int64_min :: int where
  "int64_min = - 9223372036854775808"

text \<open>
  \<open>strconv.Atoi\<close> on a 64-bit platform: the value and the error. A syntax error gives 0, a
  range error the nearest bound, and both come with an error.
\<close>

definition atoi :: "string \<Rightarrow> int \<times> goerr option" where
  "atoi s =
     (let neg = (s \<noteq> [] \<and> hd s = CHR ''-'');
          body = (if s \<noteq> [] \<and> (hd s = CHR ''-'' \<or> hd s = CHR ''+'') then tl s else s)
      in if body = [] \<or> \<not> list_all is_digit body
         then (0, Some (EFmt ''invalid syntax'' [s]))
         else let v = (if neg then - int (digits_value body) else int (digits_value body))
              in if v < int64_min then (int64_min, Some (EFmt ''value out of range'' [s]))
                 else if int64_max < v then (int64_max, Some (EFmt ''value out of range'' [s]))
                 else (v, None))"

lemma of_char_digit_char [simp]: "d < 10 \<Longrightarrow> of_char (digit_char d) = 48 + d"
  by (simp add: digit_char_def)

lemma is_digit_digit_char [simp]: "d < 10 \<Longrightarrow> is_digit (digit_char d)"
  by (simp add: is_digit_def)

lemma digits_value_snoc: "digits_value (s @ [c]) = 10 * digits_value s + (of_char c - 48)"
  by (simp add: digits_value_def)

lemma nat_digits_nonempty [simp]: "nat_digits n \<noteq> []"
  by (subst nat_digits.simps) simp

lemma nat_digits_are_digits: "list_all is_digit (nat_digits n)"
proof (induction n rule: nat_digits.induct)
  case (1 n)
  then show ?case by (cases "n < 10") (simp_all add: nat_digits.simps [of n])
qed

lemma digits_value_nat_digits: "digits_value (nat_digits n) = n"
proof (induction n rule: nat_digits.induct)
  case (1 n)
  show ?case
  proof (cases "n < 10")
    case True
    then show ?thesis by (simp add: nat_digits.simps [of n] digits_value_def)
  next
    case False
    with "1.IH" show ?thesis
      by (simp add: nat_digits.simps [of n] digits_value_snoc)
  qed
qed

lemma nat_digits_head_not_sign: "hd (nat_digits n) \<noteq> CHR ''-'' \<and> hd (nat_digits n) \<noteq> CHR ''+''"
proof -
  have "is_digit (hd (nat_digits n))"
    using nat_digits_are_digits [of n] nat_digits_nonempty [of n]
    by (cases "nat_digits n") auto
  moreover have "\<not> is_digit CHR ''-''" and "\<not> is_digit CHR ''+''"
    by (simp_all add: is_digit_def)
  ultimately show ?thesis by metis
qed

lemma atoi_itoa:
  assumes "int64_min \<le> i" and "i \<le> int64_max"
  shows "atoi (itoa i) = (i, None)"
proof (cases "i < 0")
  case True
  with assms show ?thesis
    by (simp add: itoa_def atoi_def Let_def nat_digits_are_digits digits_value_nat_digits)
next
  case False
  with assms nat_digits_head_not_sign [of "nat i"] show ?thesis
    by (simp add: itoa_def atoi_def Let_def nat_digits_are_digits digits_value_nat_digits)
qed

lemma itoa_inject: "itoa i = itoa j \<Longrightarrow> int64_min \<le> i \<Longrightarrow> i \<le> int64_max \<Longrightarrow>
    int64_min \<le> j \<Longrightarrow> j \<le> int64_max \<Longrightarrow> i = j"
  by (metis atoi_itoa prod.inject)

end
