(* ===== verification/Go_Path.thy ===== *)
theory Go_Path
  imports Go_Strings
begin

text \<open>
  Go's \<open>path/filepath\<close> on Unix: \<open>Clean\<close>, \<open>Join\<close>, \<open>Dir\<close>, \<open>Base\<close>, \<open>Abs\<close>, and the
  resolution of a path string to the list of names the file system model is keyed by.
  Paths are resolved lexically (no symbolic links). The lemmas say that cleaning does not
  change what a path names, and what joining a state root with a container id names.
\<close>

type_synonym path = "string list"

fun slash_split :: "string \<Rightarrow> string list" where
  "slash_split [] = [[]]"
| "slash_split (c # cs) =
     (if c = CHR ''/'' then [] # slash_split cs
      else (case slash_split cs of [] \<Rightarrow> [[c]] | x # xs \<Rightarrow> (c # x) # xs))"

text \<open>One path element on the stack of the elements seen so far (innermost first).\<close>

fun push :: "bool \<Rightarrow> string \<Rightarrow> path \<Rightarrow> path" where
  "push rooted c acc =
     (if c = [] \<or> c = ''.'' then acc
      else if c = ''..'' then
        (case acc of
           [] \<Rightarrow> (if rooted then [] else [''..''])
         | a # as \<Rightarrow> (if a = ''..'' then ''..'' # acc else as))
      else c # acc)"

declare push.simps [simp del]

definition clean_comps :: "bool \<Rightarrow> path \<Rightarrow> path" where
  "clean_comps rooted cs = rev (fold (push rooted) cs [])"

definition isAbs :: "string \<Rightarrow> bool" where
  "isAbs p \<longleftrightarrow> hasPrefix p ''/''"

fun join_slash :: "path \<Rightarrow> string" where
  "join_slash [] = []"
| "join_slash [c] = c"
| "join_slash (c # cs) = c @ ''/'' @ join_slash cs"

definition filepath_Clean :: "string \<Rightarrow> string" where
  "filepath_Clean p =
     (let cs = clean_comps (isAbs p) (slash_split p)
      in if isAbs p then ''/'' @ join_slash cs else if cs = [] then ''.'' else join_slash cs)"

definition filepath_Join :: "string list \<Rightarrow> string" where
  "filepath_Join elems =
     (let es = dropWhile (\<lambda>e. e = []) elems
      in if es = [] then [] else filepath_Clean (join_slash es))"

definition filepath_Base :: "string \<Rightarrow> string" where
  "filepath_Base p =
     (if p = [] then ''.''
      else let q = rev (dropWhile (\<lambda>c. c = CHR ''/'') (rev p))
           in if q = [] then ''/'' else last (slash_split q))"

definition filepath_Dir :: "string \<Rightarrow> string" where
  "filepath_Dir p = filepath_Clean (rev (dropWhile (\<lambda>c. c \<noteq> CHR ''/'') (rev p)))"

text \<open>What a path string names, seen from a working directory.\<close>

definition resolve :: "path \<Rightarrow> string \<Rightarrow> path" where
  "resolve cwd p = rev (fold (push True) (slash_split p) (if isAbs p then [] else rev cwd))"

definition path_string :: "path \<Rightarrow> string" where
  "path_string p = ''/'' @ join_slash p"

definition filepath_Abs :: "path \<Rightarrow> string \<Rightarrow> string" where
  "filepath_Abs cwd p = (if isAbs p then filepath_Clean p else filepath_Join [path_string cwd, p])"

text \<open>A name that is one element of a path and names an entry of its directory.\<close>

definition plain_name :: "string \<Rightarrow> bool" where
  "plain_name c \<longleftrightarrow> c \<noteq> [] \<and> c \<noteq> ''.'' \<and> c \<noteq> ''..'' \<and> CHR ''/'' \<notin> set c"

definition plain_path :: "path \<Rightarrow> bool" where
  "plain_path p \<longleftrightarrow> list_all plain_name p"

subsection \<open>Splitting and pushing\<close>

lemma slash_split_nonempty [simp]: "slash_split s \<noteq> []"
  by (cases s) (auto split: list.splits)

lemma slash_split_append: "slash_split (a @ CHR ''/'' # b) = slash_split a @ slash_split b"
  by (induction a) (auto split: list.splits)

lemma slash_split_no_slash: "CHR ''/'' \<notin> set c \<Longrightarrow> slash_split c = [c]"
  by (induction c) auto

lemma slash_split_elem: "c \<in> set (slash_split s) \<Longrightarrow> CHR ''/'' \<notin> set c"
  by (induction s arbitrary: c) (auto split: list.splits if_splits)

lemma slash_split_join:
  "cs \<noteq> [] \<Longrightarrow> \<forall>c \<in> set cs. CHR ''/'' \<notin> set c \<Longrightarrow> slash_split (join_slash cs) = cs"
  by (induction cs rule: join_slash.induct) (auto simp: slash_split_no_slash slash_split_append)

lemma push_empty [simp]: "push r [] acc = acc"
  by (simp add: push.simps)

lemma push_dot [simp]: "push r ''.'' acc = acc"
  by (simp add: push.simps)

lemma push_plain [simp]: "plain_name c \<Longrightarrow> push r c acc = c # acc"
  by (simp add: push.simps plain_name_def)

lemma fold_push_plain: "plain_path p \<Longrightarrow> fold (push r) p acc = rev p @ acc"
  by (induction p arbitrary: acc) (auto simp: plain_path_def)

lemma push_rooted_plain:
  "CHR ''/'' \<notin> set c \<Longrightarrow> plain_path acc \<Longrightarrow> plain_path (push True c acc)"
  by (auto simp: push.simps plain_path_def plain_name_def split: list.splits)

lemma fold_push_rooted_plain:
  "\<forall>c \<in> set cs. CHR ''/'' \<notin> set c \<Longrightarrow> plain_path acc \<Longrightarrow> plain_path (fold (push True) cs acc)"
  by (induction cs arbitrary: acc) (auto simp: push_rooted_plain)

lemma plain_path_rev [simp]: "plain_path (rev p) = plain_path p"
  by (auto simp: plain_path_def list_all_iff)

lemma plain_path_Nil [simp]: "plain_path []"
  by (simp add: plain_path_def)

lemma plain_path_append [simp]: "plain_path (p @ q) \<longleftrightarrow> plain_path p \<and> plain_path q"
  by (simp add: plain_path_def)

lemma plain_path_Cons [simp]: "plain_path (c # p) \<longleftrightarrow> plain_name c \<and> plain_path p"
  by (simp add: plain_path_def)

lemma resolve_plain: "plain_path cwd \<Longrightarrow> plain_path (resolve cwd p)"
  unfolding resolve_def plain_path_rev
  by (rule fold_push_rooted_plain) (auto dest: slash_split_elem)

subsection \<open>Cleaning does not change what a path names\<close>

text \<open>Running the cleaned elements on a rooted stack is the same as running the originals.\<close>

lemma push_replay:
  "plain_path S \<Longrightarrow> CHR ''/'' \<notin> set c \<Longrightarrow> \<forall>a \<in> set acc. a = ''..'' \<or> plain_name a \<Longrightarrow>
     fold (push True) (rev (push False c acc)) S = push True c (fold (push True) (rev acc) S)"
  by (cases acc) (auto simp: push.simps plain_name_def split: list.splits)

lemma push_unrooted_elems:
  "\<forall>a \<in> set acc. a = ''..'' \<or> plain_name a \<Longrightarrow> CHR ''/'' \<notin> set c \<Longrightarrow>
     \<forall>a \<in> set (push False c acc). a = ''..'' \<or> plain_name a"
  by (auto simp: push.simps plain_name_def split: list.splits if_splits)

lemma fold_push_replay:
  assumes "plain_path S" and "\<forall>c \<in> set cs. CHR ''/'' \<notin> set c"
    and "\<forall>a \<in> set acc. a = ''..'' \<or> plain_name a"
  shows "fold (push True) (rev (fold (push False) cs acc)) S =
    fold (push True) cs (fold (push True) (rev acc) S)"
  using assms
proof (induction cs arbitrary: acc)
  case (Cons c cs)
  then have "\<forall>a \<in> set (push False c acc). a = ''..'' \<or> plain_name a"
    by (intro push_unrooted_elems) auto
  with Cons show ?case by (simp add: push_replay)
qed simp

lemma clean_comps_elems:
  assumes "\<forall>c \<in> set cs. CHR ''/'' \<notin> set c"
  shows "\<forall>a \<in> set (clean_comps r cs). a = ''..'' \<or> plain_name a"
proof (cases r)
  case True
  have "plain_path (fold (push True) cs [])"
    using assms by (intro fold_push_rooted_plain) auto
  with True show ?thesis by (simp add: clean_comps_def plain_path_def list_all_iff)
next
  case False
  have "\<forall>a \<in> set (fold (push False) cs acc). a = ''..'' \<or> plain_name a"
    if "\<forall>a \<in> set acc. a = ''..'' \<or> plain_name a" for acc
    using assms that
  proof (induction cs arbitrary: acc)
    case (Cons c cs)
    then have "\<forall>a \<in> set (push False c acc). a = ''..'' \<or> plain_name a"
      by (intro push_unrooted_elems) auto
    with Cons show ?case by simp
  qed simp
  from this [of "[]"] False show ?thesis by (simp add: clean_comps_def)
qed

lemma clean_comps_no_slash:
  assumes "c \<in> set (clean_comps r (slash_split p))"
  shows "CHR ''/'' \<notin> set c" and "c \<noteq> []"
proof -
  have "\<forall>a \<in> set (clean_comps r (slash_split p)). a = ''..'' \<or> plain_name a"
    by (rule clean_comps_elems) (blast dest: slash_split_elem)
  with assms have "c = ''..'' \<or> plain_name c" by blast
  then show "CHR ''/'' \<notin> set c" and "c \<noteq> []"
    by (auto simp: plain_name_def)
qed

lemma isAbs_slash [simp]: "isAbs (CHR ''/'' # s)"
  by (simp add: isAbs_def hasPrefix_def)

lemma isAbs_Nil [simp]: "\<not> isAbs []"
  by (simp add: isAbs_def hasPrefix_def)

lemma isAbs_append: "a \<noteq> [] \<Longrightarrow> isAbs (a @ b) = isAbs a"
  by (cases a) (auto simp: isAbs_def hasPrefix_def)

lemma isAbs_join: "cs \<noteq> [] \<Longrightarrow> hd cs \<noteq> [] \<Longrightarrow> isAbs (join_slash cs) = isAbs (hd cs)"
  by (cases cs rule: join_slash.cases) (auto simp: isAbs_append)

lemma no_slash_not_isAbs: "CHR ''/'' \<notin> set c \<Longrightarrow> \<not> isAbs c"
  by (cases c) (auto simp: isAbs_def hasPrefix_def)

lemma isAbs_Clean [simp]: "isAbs (filepath_Clean p) = isAbs p"
proof (cases "isAbs p")
  case True
  then show ?thesis by (simp add: filepath_Clean_def Let_def)
next
  case False
  let ?cs = "clean_comps False (slash_split p)"
  show ?thesis
  proof (cases "?cs = []")
    case True
    with False show ?thesis
      by (simp add: filepath_Clean_def Let_def isAbs_def hasPrefix_def)
  next
    case ne: False
    then have "hd ?cs \<in> set ?cs" by simp
    then have "hd ?cs \<noteq> []" and "\<not> isAbs (hd ?cs)"
      by (simp_all add: clean_comps_no_slash no_slash_not_isAbs)
    with False ne show ?thesis by (simp add: filepath_Clean_def Let_def isAbs_join)
  qed
qed

lemma slash_split_Clean:
  "slash_split (filepath_Clean p) =
    (let cs = clean_comps (isAbs p) (slash_split p)
     in if isAbs p then [] # (if cs = [] then [[]] else cs)
        else if cs = [] then [''.''] else cs)"
proof -
  let ?cs = "clean_comps (isAbs p) (slash_split p)"
  have "\<forall>c \<in> set ?cs. CHR ''/'' \<notin> set c"
    by (blast dest: clean_comps_no_slash(1))
  then have "?cs \<noteq> [] \<Longrightarrow> slash_split (join_slash ?cs) = ?cs"
    by (simp add: slash_split_join)
  then show ?thesis
    by (cases "isAbs p") (simp_all add: filepath_Clean_def Let_def)
qed

theorem resolve_Clean: "plain_path cwd \<Longrightarrow> resolve cwd (filepath_Clean p) = resolve cwd p"
proof (cases "isAbs p")
  case True
  have "plain_path (clean_comps True (slash_split p))"
    by (auto simp: clean_comps_def intro!: fold_push_rooted_plain dest: slash_split_elem)
  then have "fold (push True) (clean_comps True (slash_split p)) [] =
      fold (push True) (slash_split p) []"
    by (simp add: fold_push_plain clean_comps_def)
  with True show ?thesis
    by (auto simp: resolve_def slash_split_Clean Let_def)
next
  case False
  assume "plain_path cwd"
  then have "fold (push True) (clean_comps False (slash_split p)) (rev cwd) =
      fold (push True) (slash_split p) (rev cwd)"
    using fold_push_replay [of "rev cwd" "slash_split p" "[]"]
    by (auto simp: clean_comps_def dest: slash_split_elem)
  with False show ?thesis
    by (auto simp: resolve_def slash_split_Clean Let_def)
qed

subsection \<open>Joined paths\<close>

lemma resolve_concat:
  assumes "a \<noteq> []"
  shows "resolve cwd (a @ CHR ''/'' # b) = rev (fold (push True) (slash_split b) (rev (resolve cwd a)))"
  using assms by (simp add: resolve_def slash_split_append isAbs_append)

lemma resolve_Join2:
  assumes "plain_path cwd" and "a \<noteq> []"
  shows "resolve cwd (filepath_Join [a, b]) =
    rev (fold (push True) (slash_split b) (rev (resolve cwd a)))"
proof -
  have "resolve cwd (filepath_Join [a, b]) = resolve cwd (a @ ''/'' @ b)"
    using assms by (simp add: filepath_Join_def resolve_Clean)
  with assms show ?thesis by (simp add: resolve_concat)
qed

lemma resolve_Join_name:
  assumes "plain_path cwd" and "a \<noteq> []" and "plain_name c"
  shows "resolve cwd (filepath_Join [a, c]) = resolve cwd a @ [c]"
proof -
  from \<open>plain_name c\<close> have "slash_split c = [c]"
    by (simp add: plain_name_def slash_split_no_slash)
  with assms show ?thesis by (simp add: resolve_Join2)
qed

lemma resolve_Join_names:
  assumes "plain_path cwd" and "a \<noteq> []" and "plain_name c" and "plain_name d"
  shows "resolve cwd (filepath_Join [a, c, d]) = resolve cwd a @ [c, d]"
proof -
  from assms have cd: "slash_split c = [c]" "slash_split d = [d]"
    by (simp_all add: plain_name_def slash_split_no_slash)
  have "filepath_Join [a, c, d] = filepath_Clean (a @ ''/'' @ (c @ ''/'' @ d))"
    using assms by (simp add: filepath_Join_def)
  then have "resolve cwd (filepath_Join [a, c, d]) = resolve cwd (a @ ''/'' @ (c @ ''/'' @ d))"
    using assms by (simp add: resolve_Clean)
  with assms cd show ?thesis
    by (simp add: resolve_concat slash_split_append)
qed

lemma resolve_path_string [simp]: "plain_path p \<Longrightarrow> resolve cwd (path_string p) = p"
proof (cases "p = []")
  case False
  assume "plain_path p"
  then have "slash_split (join_slash p) = p"
    using False by (intro slash_split_join) (auto simp: plain_path_def list_all_iff plain_name_def)
  with \<open>plain_path p\<close> show ?thesis
    by (simp add: path_string_def resolve_def fold_push_plain)
qed (simp add: path_string_def resolve_def)

lemma path_string_nonempty [simp]: "path_string p \<noteq> []"
  by (simp add: path_string_def)

lemma isAbs_path_string [simp]: "isAbs (path_string p)"
  by (simp add: path_string_def)

lemma Join2_abs_isAbs: "isAbs a \<Longrightarrow> isAbs (filepath_Join [a, b])"
  by (cases "a = []") (auto simp: filepath_Join_def isAbs_append)

lemma isAbs_Abs [simp]: "isAbs (filepath_Abs cwd p)"
  by (simp add: filepath_Abs_def Join2_abs_isAbs)

lemma resolve_isAbs: "isAbs p \<Longrightarrow> resolve cwd p = resolve cwd' p"
  by (simp add: resolve_def)

theorem resolve_Abs:
  assumes "plain_path cwd" and "plain_path cwd'"
  shows "resolve cwd' (filepath_Abs cwd p) = resolve cwd p"
proof (cases "isAbs p")
  case True
  with assms show ?thesis
    by (simp add: filepath_Abs_def resolve_Clean resolve_isAbs [of p cwd' cwd])
next
  case False
  with assms show ?thesis
    by (simp add: filepath_Abs_def resolve_Join2) (simp add: resolve_def)
qed

text \<open>Joining never leaves the directory when the second part has no \<open>..\<close> element.\<close>

lemma fold_push_extends:
  "''..'' \<notin> set cs \<Longrightarrow> \<exists>ds. fold (push True) cs acc = ds @ acc"
proof (induction cs arbitrary: acc)
  case (Cons c cs)
  then have "c \<noteq> ''..''" by auto
  then have "\<exists>es. push True c acc = es @ acc"
    by (simp add: push.simps)
  then obtain es where es: "push True c acc = es @ acc" ..
  from Cons obtain ds where "fold (push True) cs (es @ acc) = ds @ (es @ acc)" by fastforce
  with es show ?case by simp
qed simp

lemma resolve_Join_prefix:
  assumes "plain_path cwd" and "a \<noteq> []" and "''..'' \<notin> set (slash_split b)"
  shows "prefix (resolve cwd a) (resolve cwd (filepath_Join [a, b]))"
  using assms fold_push_extends [of "slash_split b" "rev (resolve cwd a)"]
  by (auto simp: resolve_Join2 prefix_def)

end
