(* ===== verification/Oci_Spec.thy ===== *)
theory Oci_Spec
  imports Go_Path
begin

text \<open>
  The data the program reads and writes: the part of the OCI runtime specification structs
  (package \<open>specs-go\<close>) that runu uses, the container states with their life-cycle order,
  JSON values, and the documents a file can hold. Pointer fields of the Go structs are
  \<open>option\<close>, so that a \<open>config.json\<close> that leaves a section out is a \<open>nil\<close> pointer here too.
\<close>

subsection \<open>The runtime specification\<close>

datatype ns_type = PIDNamespace | NetworkNamespace | MountNamespace | IPCNamespace
  | UTSNamespace | UserNamespace | CgroupNamespace

record oci_namespace =
  ns_Type :: ns_type
  ns_Path :: string

record oci_device_cgroup =
  dc_Allow :: bool
  dc_Access :: string

record oci_linux =
  l_MaskedPaths :: "string list"
  l_ReadonlyPaths :: "string list"
  l_Devices :: "oci_device_cgroup list"
  l_Namespaces :: "oci_namespace list"

record oci_process =
  pr_Terminal :: bool
  pr_Args :: "string list"
  pr_Env :: "string list"
  pr_Cwd :: string
  pr_NoNewPrivileges :: bool

record oci_root =
  rt_Path :: string
  rt_Readonly :: bool

record oci_mount =
  m_Destination :: string
  m_Type :: string
  m_Source :: string
  m_Options :: "string list"

record oci_spec =
  sp_Version :: string
  sp_Process :: "oci_process option"
  sp_Root :: "oci_root option"
  sp_Hostname :: string
  sp_Mounts :: "oci_mount list"
  sp_Linux :: "oci_linux option"

subsection \<open>Container states\<close>

datatype container_status = StateCreating | StateCreated | StateRunning | StateStopped

text \<open>The order in which a container goes through its states.\<close>

fun status_rank :: "container_status \<Rightarrow> nat" where
  "status_rank StateCreating = 0"
| "status_rank StateCreated = 1"
| "status_rank StateRunning = 2"
| "status_rank StateStopped = 3"

lemma status_rank_inject: "status_rank a = status_rank b \<longleftrightarrow> a = b"
  by (cases a; cases b) simp_all

instantiation container_status :: linorder
begin

definition less_eq_container_status :: "container_status \<Rightarrow> container_status \<Rightarrow> bool" where
  "less_eq_container_status a b \<longleftrightarrow> status_rank a \<le> status_rank b"

definition less_container_status :: "container_status \<Rightarrow> container_status \<Rightarrow> bool" where
  "less_container_status a b \<longleftrightarrow> status_rank a < status_rank b"

instance
  by standard (auto simp: less_eq_container_status_def less_container_status_def
      status_rank_inject [symmetric])

end

record oci_state =
  st_Version :: string
  st_ID :: string
  st_Status :: container_status
  st_Bundle :: string

subsection \<open>Documents\<close>

text \<open>
  A file's contents: plain text, or a JSON text, represented by the value that decoding it
  gives. \<open>SpecDoc\<close> and \<open>StateDoc\<close> are the JSON texts of a specification and of a state,
  \<open>JsonDoc\<close> any other JSON text. What \<open>encoding/json\<close> writes for a value decodes to it.
\<close>

datatype json = JNull | JBool bool | JNum int | JStr string | JArr "json list"
  | JObj "(string \<times> json) list"

datatype doc = Text string | JsonDoc json | SpecDoc oci_spec | StateDoc oci_state

text \<open>The text of a document, as far as code that expects plain text looks at it: every JSON
  document the program meets is an object.\<close>

fun doc_text :: "doc \<Rightarrow> string" where
  "doc_text (Text s) = s"
| "doc_text _ = ''{''"

end
