(* ===== verification/Go_OS.thy ===== *)
theory Go_OS
  imports Oci_Spec "HOL-Library.Word"
begin

text \<open>
  What the program uses of Go's \<open>os\<close>, \<open>io/ioutil\<close> and \<open>os/exec\<close> packages and of the
  system calls under them, as operations on an explicit state of the machine: a file system
  keyed by resolved paths, a working directory, an environment, a table of open file
  descriptors that hands out the lowest free number, processes, and the trace of the system
  calls that act outside these.

  Failures that do not follow from the modelled state (permissions, I/O errors, missing
  kernel support) come from \<open>w_fault\<close>: any operation may be made to fail there, so every
  error branch of the program can be taken. Symbolic links and the umask are not modelled,
  and a descriptor that is opened and closed again before the next one is opened does not
  enter the table.
\<close>

unbundle bit_operations_syntax

subsection \<open>State of the machine\<close>

datatype goos = Linux | Darwin

type_synonym filemode = "32 word"

datatype node = Dir | File doc filemode | DevNode filemode int

text \<open>What an open descriptor refers to.\<close>

datatype fdobj = FFile path | FTap string | FPacket string | FTcp string | FPipe nat
  | FStd string | FNetns string

record fdinfo =
  fd_obj :: fdobj
  fd_nonblock :: bool

text \<open>A Go \<open>*os.File\<close>: \<open>nil\<close> or an open file with its descriptor.\<close>

type_synonym gofile = "nat option"

datatype run_state = PRunning | PStopped | PExited

record proc =
  p_Path :: string
  p_Args :: "string list"
  p_Env :: "string list"
  p_Dir :: string
  p_Chroot :: "string option"
  p_Files :: "fdobj option list"
  p_State :: run_state

text \<open>Operations that may fail for a reason outside the modelled state.\<close>

datatype sysop = OpStat path | OpMkdir path | OpOpen path | OpWrite path
  | OpRemove path | OpChdir path | OpMknod path | OpChown path
  | OpMount string string "64 word" | OpSpawn string | OpKill int
  | OpSocket | OpBind string | OpSockopt string | OpIoctl string | OpNonblock nat
  | OpDial string | OpListen string | OpPipe | OpExecutable | OpIfByName string

text \<open>System calls that act outside the tables above, in the order they succeed.\<close>

datatype sysev = EvKill int int
  | EvMount string string string "64 word"
  | EvChown path int int
  | EvIoctl string string int
  | EvSockopt string int
  | EvSetns string
  | EvAddrDel string string

record world =
  w_fs :: "path \<Rightarrow> node option"
  w_cwd :: path
  w_env :: "string \<Rightarrow> string option"
  w_fds :: "fdinfo option list"
  w_procs :: "int \<Rightarrow> proc option"
  w_next_pid :: int
  w_pid :: int
  w_stdout :: "doc list"
  w_trace :: "sysev list"
  w_ns :: string
  w_goos :: goos
  w_goarch :: string
  w_fault :: "sysop \<Rightarrow> oserr option"

type_synonym 'a io = "(world, 'a) go"

abbreviation emit :: "sysev \<Rightarrow> world \<Rightarrow> world" where
  "emit ev w \<equiv> w\<lparr>w_trace := w_trace w @ [ev]\<rparr>"

definition at :: "world \<Rightarrow> string \<Rightarrow> path" where
  "at w p = resolve (w_cwd w) p"

text \<open>The file system is a tree: the root is a directory, and so is every parent.\<close>

definition wf_fs :: "(path \<Rightarrow> node option) \<Rightarrow> bool" where
  "wf_fs f \<longleftrightarrow> f [] = Some Dir \<and> (\<forall>p. p \<noteq> [] \<longrightarrow> f p \<noteq> None \<longrightarrow> f (butlast p) = Some Dir)"

definition wf_world :: "world \<Rightarrow> bool" where
  "wf_world w \<longleftrightarrow> wf_fs (w_fs w) \<and> plain_path (w_cwd w)"

subsection \<open>Looking up\<close>

fun non_dir :: "node option \<Rightarrow> bool" where
  "non_dir (Some Dir) = False"
| "non_dir (Some _) = True"
| "non_dir None = False"

definition walk :: "world \<Rightarrow> path \<Rightarrow> oserr + node" where
  "walk w p =
     (if list_ex (\<lambda>i. non_dir (w_fs w (take i p))) [0..<length p] then Inl ENOTDIR
      else case w_fs w p of None \<Rightarrow> Inl ENOENT | Some n \<Rightarrow> Inr n)"

definition os_IsNotExist :: "oserr \<Rightarrow> bool" where
  "os_IsNotExist e \<longleftrightarrow> e = ENOENT"

definition os_IsExist :: "oserr \<Rightarrow> bool" where
  "os_IsExist e \<longleftrightarrow> e = EEXIST"

definition fault_at :: "(path \<Rightarrow> sysop) \<Rightarrow> world \<Rightarrow> string \<Rightarrow> oserr option" where
  "fault_at opk w p = (if p = [] then Some ENOENT else w_fault w (opk (at w p)))"

definition os_Stat :: "string \<Rightarrow> (oserr + node) io" where
  "os_Stat p = (\<lambda>w. case fault_at OpStat w p of
      Some e \<Rightarrow> (Ret (Inl e), w)
    | None \<Rightarrow> (Ret (walk w (at w p)), w))"

definition ioutil_ReadFile :: "string \<Rightarrow> (oserr + doc) io" where
  "ioutil_ReadFile p = (\<lambda>w. case fault_at OpOpen w p of
      Some e \<Rightarrow> (Ret (Inl e), w)
    | None \<Rightarrow> (case walk w (at w p) of
          Inl e \<Rightarrow> (Ret (Inl e), w)
        | Inr Dir \<Rightarrow> (Ret (Inl EISDIR), w)
        | Inr (DevNode m d) \<Rightarrow> (Ret (Inl EINVAL), w)
        | Inr (File c m) \<Rightarrow> (Ret (Inr c), w)))"

subsection \<open>Changing the file system\<close>

definition fs_put :: "path \<Rightarrow> node \<Rightarrow> world \<Rightarrow> world" where
  "fs_put p n w = w\<lparr>w_fs := (w_fs w)(p := Some n)\<rparr>"

text \<open>Opening for writing with \<open>O_CREATE|O_TRUNC\<close>, then one write.\<close>

definition ioutil_WriteFile :: "string \<Rightarrow> doc \<Rightarrow> filemode \<Rightarrow> (oserr option) io" where
  "ioutil_WriteFile p c mode = (\<lambda>w. case fault_at OpOpen w p of
      Some e \<Rightarrow> (Ret (Some e), w)
    | None \<Rightarrow>
        (let q = at w p;
             werr = w_fault w (OpWrite q);
             c' = (if werr = None then c else Text [])
         in case walk w q of
              Inr Dir \<Rightarrow> (Ret (Some EISDIR), w)
            | Inr (DevNode m d) \<Rightarrow> (Ret werr, w)
            | Inr (File old m) \<Rightarrow> (Ret werr, fs_put q (File c' m) w)
            | Inl ENOENT \<Rightarrow>
                (if w_fs w (butlast q) = Some Dir then (Ret werr, fs_put q (File c' mode) w)
                 else (Ret (Some ENOENT), w))
            | Inl e \<Rightarrow> (Ret (Some e), w)))"

text \<open>\<open>os.OpenFile\<close> with \<open>O_CREATE|O_EXCL\<close> (\<open>excl\<close>) or \<open>O_CREATE\<close>: a handle on the file.\<close>

definition os_OpenCreate :: "bool \<Rightarrow> string \<Rightarrow> filemode \<Rightarrow> (oserr + path) io" where
  "os_OpenCreate excl p mode = (\<lambda>w. case fault_at OpOpen w p of
      Some e \<Rightarrow> (Ret (Inl e), w)
    | None \<Rightarrow>
        (let q = at w p
         in case walk w q of
              Inr n \<Rightarrow> (if excl then (Ret (Inl EEXIST), w)
                        else if n = Dir then (Ret (Inl EISDIR), w)
                        else (Ret (Inr q), w))
            | Inl ENOENT \<Rightarrow>
                (if w_fs w (butlast q) = Some Dir then (Ret (Inr q), fs_put q (File (Text []) mode) w)
                 else (Ret (Inl ENOENT), w))
            | Inl e \<Rightarrow> (Ret (Inl e), w)))"

text \<open>Writing the whole contents of a file just created; on a \<open>nil\<close> handle it is an error.\<close>

definition f_Write :: "oserr + path \<Rightarrow> string \<Rightarrow> (oserr option) io" where
  "f_Write h s = (\<lambda>w. case h of
      Inl e \<Rightarrow> (Ret (Some EINVAL), w)
    | Inr q \<Rightarrow> (case w_fault w (OpWrite q) of
          Some e \<Rightarrow> (Ret (Some e), w)
        | None \<Rightarrow> (case w_fs w q of
              Some (File c m) \<Rightarrow> (Ret None, fs_put q (File (Text s) m) w)
            | _ \<Rightarrow> (Ret None, w))))"

text \<open>\<open>os.MkdirAll\<close>: every missing directory on the way, unless a file is in the way.\<close>

definition os_MkdirAll :: "string \<Rightarrow> filemode \<Rightarrow> (oserr option) io" where
  "os_MkdirAll p mode = (\<lambda>w.
     let q = at w p in
     case (if p = [] then Some ENOENT else w_fault w (OpMkdir q)) of
       Some e \<Rightarrow> (Ret (Some e), w)
     | None \<Rightarrow>
         (if list_ex (\<lambda>i. non_dir (w_fs w (take i q))) [0..<Suc (length q)]
          then (Ret (Some ENOTDIR), w)
          else (Ret None, w\<lparr>w_fs := (\<lambda>r. if prefix r q then Some Dir else w_fs w r)\<rparr>)))"

definition os_Mkdir :: "string \<Rightarrow> filemode \<Rightarrow> (oserr option) io" where
  "os_Mkdir p mode = (\<lambda>w. case fault_at OpMkdir w p of
      Some e \<Rightarrow> (Ret (Some e), w)
    | None \<Rightarrow>
        (let q = at w p
         in case walk w q of
              Inr n \<Rightarrow> (Ret (Some EEXIST), w)
            | Inl ENOENT \<Rightarrow>
                (if w_fs w (butlast q) = Some Dir then (Ret None, fs_put q Dir w)
                 else (Ret (Some ENOENT), w))
            | Inl e \<Rightarrow> (Ret (Some e), w)))"

text \<open>
  \<open>os.RemoveAll\<close>: the whole subtree. The empty path is nothing to do, a path that ends in
  \<open>.\<close> is refused, and the root directory itself stays.
\<close>

definition os_RemoveAll :: "string \<Rightarrow> (oserr option) io" where
  "os_RemoveAll p = (\<lambda>w.
     if p = [] then (Ret None, w)
     else if last (slash_split p) = ''.'' then (Ret (Some EINVAL), w)
     else let q = at w p in
       case w_fault w (OpRemove q) of
         Some e \<Rightarrow> (Ret (Some e), w)
       | None \<Rightarrow>
           (Ret (if q = [] then Some EBUSY else None),
            w\<lparr>w_fs := (\<lambda>r. if prefix q r \<and> r \<noteq> [] then None else w_fs w r)\<rparr>))"

definition os_Chdir :: "string \<Rightarrow> (oserr option) io" where
  "os_Chdir p = (\<lambda>w. case fault_at OpChdir w p of
      Some e \<Rightarrow> (Ret (Some e), w)
    | None \<Rightarrow> (case walk w (at w p) of
          Inl e \<Rightarrow> (Ret (Some e), w)
        | Inr Dir \<Rightarrow> (Ret None, w\<lparr>w_cwd := at w p\<rparr>)
        | Inr n \<Rightarrow> (Ret (Some ENOTDIR), w)))"

definition unix_Mknod :: "string \<Rightarrow> filemode \<Rightarrow> int \<Rightarrow> (oserr option) io" where
  "unix_Mknod p mode dev = (\<lambda>w. case fault_at OpMknod w p of
      Some e \<Rightarrow> (Ret (Some e), w)
    | None \<Rightarrow>
        (let q = at w p
         in case walk w q of
              Inr n \<Rightarrow> (Ret (Some EEXIST), w)
            | Inl ENOENT \<Rightarrow>
                (if w_fs w (butlast q) = Some Dir then (Ret None, fs_put q (DevNode mode dev) w)
                 else (Ret (Some ENOENT), w))
            | Inl e \<Rightarrow> (Ret (Some e), w)))"

definition unix_Chown :: "string \<Rightarrow> int \<Rightarrow> int \<Rightarrow> (oserr option) io" where
  "unix_Chown p uid gid = (\<lambda>w. case fault_at OpChown w p of
      Some e \<Rightarrow> (Ret (Some e), w)
    | None \<Rightarrow> (case walk w (at w p) of
          Inl e \<Rightarrow> (Ret (Some e), w)
        | Inr n \<Rightarrow> (Ret None, emit (EvChown (at w p) uid gid) w)))"

definition unix_Mount :: "string \<Rightarrow> string \<Rightarrow> string \<Rightarrow> 64 word \<Rightarrow> (oserr option) io" where
  "unix_Mount src dest fstype flags = (\<lambda>w. case w_fault w (OpMount src dest flags) of
      Some e \<Rightarrow> (Ret (Some e), w)
    | None \<Rightarrow> (Ret None, emit (EvMount src dest fstype flags) w))"

subsection \<open>File descriptors\<close>

fun lowest_free :: "'a option list \<Rightarrow> nat" where
  "lowest_free [] = 0"
| "lowest_free (None # xs) = 0"
| "lowest_free (Some x # xs) = Suc (lowest_free xs)"

definition fd_set :: "'a option list \<Rightarrow> nat \<Rightarrow> 'a \<Rightarrow> 'a option list" where
  "fd_set t n x = (if n < length t then t[n := Some x] else t @ [Some x])"

definition fd_get :: "'a option list \<Rightarrow> nat \<Rightarrow> 'a option" where
  "fd_get t n = (if n < length t then t ! n else None)"

definition open_fd :: "fdobj \<Rightarrow> bool \<Rightarrow> nat io" where
  "open_fd ob nb = (\<lambda>w.
     let n = lowest_free (w_fds w)
     in (Ret n, w\<lparr>w_fds := fd_set (w_fds w) n \<lparr>fd_obj = ob, fd_nonblock = nb\<rparr>\<rparr>))"

definition close_fd :: "nat \<Rightarrow> unit io" where
  "close_fd n = modify (\<lambda>w. w\<lparr>w_fds := (w_fds w)[n := None]\<rparr>)"

text \<open>\<open>(*os.File).Fd\<close>: the number of the descriptor; on \<open>nil\<close> it is \<open>^uintptr(0)\<close>.\<close>

definition file_Fd :: "gofile \<Rightarrow> nat" where
  "file_Fd f = (case f of Some n \<Rightarrow> n | None \<Rightarrow> 2 ^ 64 - 1)"

text \<open>\<open>os.OpenFile\<close> without \<open>O_CREATE\<close>, keeping the descriptor open: for reading or for
  reading and writing (\<open>rw\<close>), blocking or not (\<open>nb\<close>).\<close>

definition os_OpenFd :: "string \<Rightarrow> bool \<Rightarrow> bool \<Rightarrow> (oserr + nat) io" where
  "os_OpenFd p rw nb = (\<lambda>w. case fault_at OpOpen w p of
      Some e \<Rightarrow> (Ret (Inl e), w)
    | None \<Rightarrow> (case walk w (at w p) of
          Inl e \<Rightarrow> (Ret (Inl e), w)
        | Inr n \<Rightarrow> (if rw \<and> n = Dir then (Ret (Inl EISDIR), w)
            else bnd (open_fd (FFile (at w p)) nb) (\<lambda>fd. ret (Inr fd)) w)))"

definition syscall_SetNonblock :: "nat \<Rightarrow> bool \<Rightarrow> (oserr option) io" where
  "syscall_SetNonblock n nb = (\<lambda>w. case fd_get (w_fds w) n of
      None \<Rightarrow> (Ret (Some EBADF), w)
    | Some i \<Rightarrow> (case w_fault w (OpNonblock n) of
          Some e \<Rightarrow> (Ret (Some e), w)
        | None \<Rightarrow> (Ret None, w\<lparr>w_fds := fd_set (w_fds w) n (i\<lparr>fd_nonblock := nb\<rparr>)\<rparr>)))"

subsection \<open>Environment\<close>

definition os_LookupEnv :: "string \<Rightarrow> (string \<times> bool) io" where
  "os_LookupEnv k = gets (\<lambda>w. case w_env w k of None \<Rightarrow> ([], False) | Some v \<Rightarrow> (v, True))"

definition os_Getenv :: "string \<Rightarrow> string io" where
  "os_Getenv k = gets (\<lambda>w. case w_env w k of None \<Rightarrow> [] | Some v \<Rightarrow> v)"

definition os_Setenv :: "string \<Rightarrow> string \<Rightarrow> unit io" where
  "os_Setenv k v = modify (\<lambda>w. w\<lparr>w_env := (w_env w)(k := Some v)\<rparr>)"

definition abs_path :: "string \<Rightarrow> string io" where
  "abs_path p = gets (\<lambda>w. filepath_Abs (w_cwd w) p)"

definition os_Executable :: "(oserr + string) io" where
  "os_Executable = (\<lambda>w. case w_fault w OpExecutable of
      Some e \<Rightarrow> (Ret (Inl e), w)
    | None \<Rightarrow> (Ret (Inr ''/proc/self/exe''), w))"

definition stdout_Write :: "doc \<Rightarrow> unit io" where
  "stdout_Write d = modify (\<lambda>w. w\<lparr>w_stdout := w_stdout w @ [d]\<rparr>)"

subsection \<open>Processes and signals\<close>

definition SIGKILL :: int where
  "SIGKILL = 9"

fun sigstop :: "goos \<Rightarrow> int" where
  "sigstop Linux = 19"
| "sigstop Darwin = 17"

fun sigcont :: "goos \<Rightarrow> int" where
  "sigcont Linux = 18"
| "sigcont Darwin = 19"

fun sigchld :: "goos \<Rightarrow> int" where
  "sigchld Linux = 17"
| "sigchld Darwin = 20"

text \<open>What the kernel does to a process: only the signals no handler can change.\<close>

definition signal_effect :: "goos \<Rightarrow> int \<Rightarrow> run_state \<Rightarrow> run_state" where
  "signal_effect os sig st =
     (if st = PExited then PExited
      else if sig = SIGKILL then PExited
      else if sig = sigstop os then PStopped
      else if sig = sigcont os then PRunning
      else st)"

text \<open>\<open>kill(2)\<close>: a positive pid is one process, 0 and below are process groups.\<close>

definition unix_Kill :: "int \<Rightarrow> int \<Rightarrow> (oserr option) io" where
  "unix_Kill pid sig = (\<lambda>w.
     if sig < 0 \<or> 64 < sig then (Ret (Some EINVAL), w)
     else case w_fault w (OpKill pid) of
       Some e \<Rightarrow> (Ret (Some e), w)
     | None \<Rightarrow>
         (if 0 < pid then
            (case w_procs w pid of
               None \<Rightarrow> (Ret (Some ESRCH), w)
             | Some pr \<Rightarrow>
                 (Ret None,
                  emit (EvKill pid sig)
                    (w\<lparr>w_procs := (w_procs w)(pid \<mapsto>
                        pr\<lparr>p_State := signal_effect (w_goos w) sig (p_State pr)\<rparr>)\<rparr>)))
          else (Ret None, emit (EvKill pid sig) w)))"

text \<open>\<open>os.FindProcess\<close> always succeeds on Unix; \<open>Signal\<close> refuses the pids 0 and -1.\<close>

definition os_FindProcess :: "int \<Rightarrow> (goerr + int) io" where
  "os_FindProcess pid = ret (Inr pid)"

definition proc_Signal :: "int \<Rightarrow> int \<Rightarrow> (goerr option) io" where
  "proc_Signal pid sig =
     (if pid = -1 then ret (Some (EFmt ''os: process already released'' []))
      else if pid = 0 then ret (Some (EFmt ''os: process not initialized'' []))
      else bnd (unix_Kill pid sig) (\<lambda>r. ret (case r of
          None \<Rightarrow> None
        | Some e \<Rightarrow> if e = ESRCH then Some (EFmt ''os: process already finished'' [])
                    else Some (EOs e))))"

subsection \<open>Starting commands\<close>

record cmd =
  c_Path :: string
  c_LookErr :: "goerr option"
  c_Args :: "string list"
  c_Env :: "string list"
  c_Dir :: string
  c_Chroot :: "string option"
  c_ExtraFiles :: "gofile list"

text \<open>A regular file with one of the execute bits, octal 111.\<close>

definition executable :: "node \<Rightarrow> bool" where
  "executable n = (case n of File c m \<Rightarrow> m AND 73 \<noteq> 0 | _ \<Rightarrow> False)"

definition findExecutable :: "world \<Rightarrow> string \<Rightarrow> bool" where
  "findExecutable w p =
     (fault_at OpStat w p = None \<and>
      (case walk w (at w p) of Inr n \<Rightarrow> executable n | Inl e \<Rightarrow> False))"

text \<open>\<open>filepath.SplitList\<close>: the elements of a search path; the empty string has none.\<close>

definition filepath_SplitList :: "string \<Rightarrow> string list" where
  "filepath_SplitList s = (if s = [] then [] else strings_Split s '':'')"

fun look_in :: "world \<Rightarrow> string \<Rightarrow> string list \<Rightarrow> string option" where
  "look_in w file [] = None"
| "look_in w file (d # ds) =
     (let p = filepath_Join [if d = [] then ''.'' else d, file]
      in if findExecutable w p then Some p else look_in w file ds)"

definition exec_LookPath :: "string \<Rightarrow> (goerr + string) io" where
  "exec_LookPath file = gets (\<lambda>w.
     if strings_Contains file ''/'' then
       (if findExecutable w file then Inr file
        else Inl (EFmt ''exec: %q: not found'' [file]))
     else case look_in w file (filepath_SplitList (case w_env w ''PATH'' of None \<Rightarrow> [] | Some v \<Rightarrow> v)) of
         Some p \<Rightarrow> Inr p
       | None \<Rightarrow> Inl (EFmt ''exec: %q: executable file not found in $PATH'' [file]))"

definition exec_Command :: "string \<Rightarrow> string list \<Rightarrow> cmd io" where
  "exec_Command name args =
     (let c = \<lparr>c_Path = name, c_LookErr = None, c_Args = name # args, c_Env = [], c_Dir = [],
               c_Chroot = None, c_ExtraFiles = []\<rparr>
      in if filepath_Base name = name then
           bnd (exec_LookPath name) (\<lambda>r. ret (case r of
               Inl e \<Rightarrow> c\<lparr>c_LookErr := Some e\<rparr>
             | Inr p \<Rightarrow> c\<lparr>c_Path := p\<rparr>))
         else ret c)"

text \<open>Where the new process finds its program: in its root, from its working directory.\<close>

definition exec_target :: "world \<Rightarrow> cmd \<Rightarrow> path" where
  "exec_target w c =
     (case c_Chroot c of
        Some r \<Rightarrow> at w r @ resolve (resolve [] (c_Dir c)) (c_Path c)
      | None \<Rightarrow> resolve (if c_Dir c = [] then w_cwd w else at w (c_Dir c)) (c_Path c))"

text \<open>
  \<open>(*exec.Cmd).Start\<close>: the new process gets what the extra files refer to as its descriptors
  3, 4 and so on. Passing them switches the parent's descriptions to blocking mode.
\<close>

definition cmd_Start :: "cmd \<Rightarrow> (goerr + int) io" where
  "cmd_Start c = (\<lambda>w. case c_LookErr c of
      Some e \<Rightarrow> (Ret (Inl e), w)
    | None \<Rightarrow>
        (case w_fault w (OpSpawn (c_Path c)) of
           Some e \<Rightarrow> (Ret (Inl (EOs e)), w)
         | None \<Rightarrow>
             (case walk w (exec_target w c) of
                Inl e \<Rightarrow> (Ret (Inl (EOs e)), w)
              | Inr n \<Rightarrow>
                  (if \<not> executable n then (Ret (Inl (EOs EACCES)), w)
                   else
                     let pid = w_next_pid w;
                         files = map (\<lambda>f. Option.bind f (\<lambda>n. map_option fd_obj (fd_get (w_fds w) n)))
                                     (c_ExtraFiles c);
                         pr = \<lparr>p_Path = c_Path c, p_Args = c_Args c, p_Env = c_Env c,
                               p_Dir = c_Dir c, p_Chroot = c_Chroot c, p_Files = files,
                               p_State = PRunning\<rparr>
                     in (Ret (Inr pid),
                         w\<lparr>w_procs := (w_procs w)(pid \<mapsto> pr), w_next_pid := pid + 1,
                           w_fds := map (\<lambda>(i, e). if Some i \<in> set (c_ExtraFiles c)
                               then map_option (\<lambda>x. x\<lparr>fd_nonblock := False\<rparr>) e else e)
                               (enumerate 0 (w_fds w))\<rparr>)))))"

end
