(* ===== verification/OS_Facts.thy ===== *)
theory OS_Facts
  imports Go_OS
begin

text \<open>
  Facts about the modelled system calls that the components share: the file system stays a
  tree, what each call leaves alone (its frame), what looking a path up gives in a tree, and
  how the descriptor table hands out numbers. The frames are interpretations of the locale of
  preorders on states, so that the frame of a handler is derived from its calls.
\<close>

subsection \<open>Frames\<close>

definition wf_kept :: "world \<Rightarrow> world \<Rightarrow> bool" where
  "wf_kept w w' \<longleftrightarrow> (wf_world w \<longrightarrow> wf_world w')"

definition fs_kept :: "world \<Rightarrow> world \<Rightarrow> bool" where
  "fs_kept w w' \<longleftrightarrow> w_fs w' = w_fs w"

text \<open>The parts of the machine no program changes.\<close>

definition static_kept :: "world \<Rightarrow> world \<Rightarrow> bool" where
  "static_kept w w' \<longleftrightarrow> w_fault w' = w_fault w \<and> w_goos w' = w_goos w \<and>
     w_goarch w' = w_goarch w \<and> w_pid w' = w_pid w"

definition trace_kept :: "world \<Rightarrow> world \<Rightarrow> bool" where
  "trace_kept w w' \<longleftrightarrow> w_trace w' = w_trace w"

definition procs_kept :: "world \<Rightarrow> world \<Rightarrow> bool" where
  "procs_kept w w' \<longleftrightarrow> w_procs w' = w_procs w \<and> w_next_pid w' = w_next_pid w"

interpretation wfk: frame_rel wf_kept
  by unfold_locales (auto simp: wf_kept_def)

interpretation fsk: frame_rel fs_kept
  by unfold_locales (auto simp: fs_kept_def)

interpretation stk: frame_rel static_kept
  by unfold_locales (auto simp: static_kept_def)

interpretation trk: frame_rel trace_kept
  by unfold_locales (auto simp: trace_kept_def)

interpretation prk: frame_rel procs_kept
  by unfold_locales (auto simp: procs_kept_def)

text \<open>Equality is the frame of a computation that only looks.\<close>

interpretation idk: frame_rel "(=) :: world \<Rightarrow> world \<Rightarrow> bool"
  by unfold_locales auto

lemma pure_keeps: "keeps (=) m \<Longrightarrow> (\<And>w. R w w) \<Longrightarrow> keeps R m"
  by (simp add: keeps_def)

lemma pure_state: "keeps (=) m \<Longrightarrow> snd (m w) = w"
  by (metis keepsD)

lemmas frame_defs = wf_kept_def fs_kept_def static_kept_def trace_kept_def procs_kept_def

subsection \<open>Trees\<close>

lemma wf_fs_root [simp]: "wf_fs f \<Longrightarrow> f [] = Some Dir"
  by (simp add: wf_fs_def)

lemma wf_fs_parent: "wf_fs f \<Longrightarrow> f p = Some n \<Longrightarrow> p \<noteq> [] \<Longrightarrow> f (butlast p) = Some Dir"
  by (simp add: wf_fs_def)

lemma wf_fs_prefix:
  "wf_fs f \<Longrightarrow> f (p @ q) \<noteq> None \<Longrightarrow> q \<noteq> [] \<Longrightarrow> f p = Some Dir"
proof (induction q rule: rev_induct)
  case (snoc x xs)
  then have "f (butlast (p @ xs @ [x])) = Some Dir"
    unfolding wf_fs_def by (metis append_is_Nil_conv)
  then have "f (p @ xs) = Some Dir" by (simp add: butlast_append)
  with snoc show ?case by (cases "xs = []") auto
qed simp

lemma wf_fs_take: "wf_fs f \<Longrightarrow> f p \<noteq> None \<Longrightarrow> i < length p \<Longrightarrow> f (take i p) = Some Dir"
  using wf_fs_prefix [of f "take i p" "drop i p"] by simp

lemma wf_fs_put:
  assumes "wf_fs f" and "p \<noteq> []" and "f (butlast p) = Some Dir" and "f p \<noteq> Some Dir"
  shows "wf_fs (f(p := Some n))"
  unfolding wf_fs_def
proof (intro conjI allI impI)
  show "(f(p := Some n)) [] = Some Dir" using assms by simp
next
  fix q assume q: "q \<noteq> []" "(f(p := Some n)) q \<noteq> None"
  show "(f(p := Some n)) (butlast q) = Some Dir"
  proof (cases "q = p")
    case True
    have "butlast p \<noteq> p" using assms(2) by (metis length_butlast length_greater_0_conv
          diff_less less_one nat_neq_iff)
    with True assms show ?thesis by simp
  next
    case False
    with q assms(1) have "f (butlast q) = Some Dir" by (auto simp: wf_fs_def)
    with assms(4) show ?thesis by auto
  qed
qed

lemma wf_fs_mkdirs: "wf_fs f \<Longrightarrow> wf_fs (\<lambda>r. if prefix r q then Some Dir else f r)"
  unfolding wf_fs_def by (auto simp: prefix_def) (metis append_butlast_last_id append_assoc)+

lemma wf_fs_remove: "wf_fs f \<Longrightarrow> wf_fs (\<lambda>r. if prefix q r \<and> r \<noteq> [] then None else f r)"
  unfolding wf_fs_def by (auto simp: prefix_def) (metis append_butlast_last_id append_assoc)+

lemma wf_fs_empty: "wf_fs f \<Longrightarrow> wf_fs (\<lambda>r. if r \<noteq> [] then None else f r)"
  by (simp add: wf_fs_def)

lemma wf_worldD: "wf_world w \<Longrightarrow> wf_fs (w_fs w)" "wf_world w \<Longrightarrow> plain_path (w_cwd w)"
  by (simp_all add: wf_world_def)

lemma at_plain: "wf_world w \<Longrightarrow> plain_path (at w p)"
  by (simp add: at_def resolve_plain wf_world_def)

subsection \<open>Looking up in a tree\<close>

lemma walk_Inr: "walk w p = Inr n \<Longrightarrow> w_fs w p = Some n"
  by (auto simp: walk_def split: if_splits option.splits)

lemma walk_ENOENT: "walk w p = Inl ENOENT \<Longrightarrow> w_fs w p = None"
  by (auto simp: walk_def split: if_splits option.splits)

lemma walk_Some:
  "wf_fs (w_fs w) \<Longrightarrow> w_fs w p = Some n \<Longrightarrow> walk w p = Inr n"
  by (auto simp: walk_def list_ex_iff wf_fs_take)

lemma walk_new:
  assumes "wf_fs (w_fs w)" and "w_fs w (butlast p) = Some Dir" and "w_fs w p = None"
  shows "walk w p = Inl ENOENT"
proof -
  have "\<not> non_dir (w_fs w (take i p))" if "i < length p" for i
  proof (cases "i = length p - 1")
    case True
    with assms(2) show ?thesis by (simp add: butlast_conv_take)
  next
    case False
    with that have "i < length (butlast p)" by simp
    with assms have "w_fs w (take i (butlast p)) = Some Dir"
      by (intro wf_fs_take) auto
    moreover have "take i (butlast p) = take i p"
      using \<open>i < length (butlast p)\<close> by (simp add: butlast_conv_take)
    ultimately show ?thesis by simp
  qed
  then have "\<not> list_ex (\<lambda>i. non_dir (w_fs w (take i p))) [0..<length p]"
    by (simp add: list_ex_iff)
  with assms(3) show ?thesis by (simp add: walk_def)
qed

lemma walk_Inr_iff: "wf_fs (w_fs w) \<Longrightarrow> walk w p = Inr n \<longleftrightarrow> w_fs w p = Some n"
  by (auto intro: walk_Some walk_Inr)

lemma walk_missing: "w_fs w p = None \<Longrightarrow> walk w p = Inl ENOENT \<or> walk w p = Inl ENOTDIR"
  by (auto simp: walk_def)

lemma fs_put_simps [simp]:
  "w_fs (fs_put p n w) = (w_fs w)(p := Some n)"
  "w_cwd (fs_put p n w) = w_cwd w"
  "w_env (fs_put p n w) = w_env w"
  "w_fds (fs_put p n w) = w_fds w"
  "w_procs (fs_put p n w) = w_procs w"
  "w_next_pid (fs_put p n w) = w_next_pid w"
  "w_pid (fs_put p n w) = w_pid w"
  "w_stdout (fs_put p n w) = w_stdout w"
  "w_trace (fs_put p n w) = w_trace w"
  "w_ns (fs_put p n w) = w_ns w"
  "w_goos (fs_put p n w) = w_goos w"
  "w_goarch (fs_put p n w) = w_goarch w"
  "w_fault (fs_put p n w) = w_fault w"
  by (simp_all add: fs_put_def)

lemma at_fs_put [simp]: "at (fs_put p n w) s = at w s"
  by (simp add: at_def)

lemma wf_world_put:
  "wf_world w \<Longrightarrow> p \<noteq> [] \<Longrightarrow> w_fs w (butlast p) = Some Dir \<Longrightarrow> w_fs w p \<noteq> Some Dir \<Longrightarrow>
     wf_world (fs_put p n w)"
  by (simp add: wf_world_def wf_fs_put)

lemma wf_world_overwrite:
  assumes "wf_world w" and "w_fs w p = Some (File c m)"
  shows "wf_world (fs_put p n w)"
proof -
  from assms have "p \<noteq> []" by (auto simp: wf_world_def)
  with assms show ?thesis
    by (intro wf_world_put) (auto simp: wf_world_def dest: wf_fs_parent)
qed

lemma wf_world_create:
  assumes "wf_world w" and "w_fs w (butlast p) = Some Dir" and "w_fs w p = None"
  shows "wf_world (fs_put p n w)"
proof -
  from assms have "p \<noteq> []" by (auto simp: wf_world_def)
  with assms show ?thesis by (intro wf_world_put) auto
qed

lemma wf_world_write:
  "wf_world w \<Longrightarrow> (w_fs w p = None \<and> w_fs w (butlast p) = Some Dir) \<or> (\<exists>c m. w_fs w p = Some (File c m)) \<Longrightarrow>
     wf_world (fs_put p n w)"
  by (auto intro: wf_world_create wf_world_overwrite)

subsection \<open>What each call keeps\<close>

text \<open>Calls that only look.\<close>

lemma os_Stat_state [simp]: "snd (os_Stat p w) = w"
  by (simp add: os_Stat_def split: option.splits)

lemma ioutil_ReadFile_state [simp]: "snd (ioutil_ReadFile p w) = w"
  by (simp add: ioutil_ReadFile_def split: option.splits sum.splits node.splits)

lemma os_Stat_outcome: "\<exists>r. os_Stat p w = (Ret r, w)"
  by (simp add: os_Stat_def split: option.splits)

lemma ioutil_ReadFile_outcome: "\<exists>r. ioutil_ReadFile p w = (Ret r, w)"
  by (simp add: ioutil_ReadFile_def split: option.splits sum.splits node.splits)

lemma os_Chdir_outcome: "\<exists>e c. os_Chdir p w = (Ret e, w\<lparr>w_cwd := c\<rparr>)"
proof -
  have "os_Chdir p w = (Ret e, w) \<Longrightarrow> ?thesis" for e
    by (rule exI [of _ e], rule exI [of _ "w_cwd w"]) simp
  then show ?thesis
    by (auto simp: os_Chdir_def split: option.splits sum.splits node.splits)
qed

lemma look_keeps:
  assumes "\<And>w. R w w"
  shows "keeps R (os_Stat p)" and "keeps R (ioutil_ReadFile p)"
    and "keeps R (os_LookupEnv k)" and "keeps R (os_Getenv k)" and "keeps R (abs_path s)"
    and "keeps R os_Executable" and "keeps R (exec_LookPath s)" and "keeps R (os_FindProcess i)"
    and "keeps R (exec_Command s args)"
  using assms
  by (auto simp: keeps_def os_LookupEnv_def os_Getenv_def abs_path_def
      os_Executable_def exec_LookPath_def os_FindProcess_def exec_Command_def Let_def bnd_def
      split: option.splits)

lemmas look_keeps_frames [keeps_intros] =
  look_keeps [of "(=)", OF idk.frame_refl]
  look_keeps [of wf_kept, OF wfk.frame_refl] look_keeps [of fs_kept, OF fsk.frame_refl]
  look_keeps [of static_kept, OF stk.frame_refl] look_keeps [of trace_kept, OF trk.frame_refl]
  look_keeps [of procs_kept, OF prk.frame_refl]

text \<open>Calls that write the file system keep it a tree.\<close>

lemma write_keeps_wf [keeps_intros]:
  "keeps wf_kept (ioutil_WriteFile p c m)" "keeps wf_kept (os_OpenCreate x p m)"
  "keeps wf_kept (f_Write h s)" "keeps wf_kept (os_Mkdir p m)" "keeps wf_kept (unix_Mknod p m d)"
  by (auto simp: keeps_def wf_kept_def ioutil_WriteFile_def os_OpenCreate_def f_Write_def
      os_Mkdir_def unix_Mknod_def Let_def
      intro!: wf_world_write
      dest: walk_Inr walk_ENOENT
      split: option.splits sum.splits node.splits oserr.splits)

lemma tree_keeps_wf [keeps_intros]:
  "keeps wf_kept (os_MkdirAll p m)" "keeps wf_kept (os_RemoveAll p)"
  by (auto simp: keeps_def wf_kept_def os_MkdirAll_def os_RemoveAll_def wf_world_def Let_def
      intro: wf_fs_mkdirs wf_fs_remove wf_fs_empty split: option.splits)

lemma os_Chdir_keeps_wf [keeps_intros]: "keeps wf_kept (os_Chdir p)"
  by (auto simp: keeps_def wf_kept_def os_Chdir_def wf_world_def at_def resolve_plain
      split: option.splits sum.splits node.splits)

lemma other_keeps_wf [keeps_intros]:
  "keeps wf_kept (unix_Chown p i j)" "keeps wf_kept (unix_Mount s d t fl)"
  "keeps wf_kept (os_Setenv k v)" "keeps wf_kept (stdout_Write dc)"
  "keeps wf_kept (unix_Kill i j)" "keeps wf_kept (syscall_SetNonblock n b)"
  "keeps wf_kept (open_fd ob b)" "keeps wf_kept (close_fd n)"
  "keeps wf_kept (cmd_Start cm)"
  by (auto simp: keeps_def wf_kept_def unix_Chown_def unix_Mount_def os_Setenv_def
      stdout_Write_def unix_Kill_def syscall_SetNonblock_def open_fd_def close_fd_def
      cmd_Start_def wf_world_def Let_def
      split: option.splits sum.splits)

lemma proc_Signal_keeps:
  "(\<And>w. R w w) \<Longrightarrow> keeps R (unix_Kill i j) \<Longrightarrow> keeps R (proc_Signal i j)"
  by (auto simp: keeps_def proc_Signal_def bnd_def split: prod.splits outcome.splits)
     (metis snd_conv)+

lemma os_OpenFd_keeps:
  "(\<And>w. R w w) \<Longrightarrow> (\<And>q. keeps R (open_fd (FFile q) nb)) \<Longrightarrow> keeps R (os_OpenFd p b nb)"
  by (auto simp: keeps_def os_OpenFd_def bnd_def open_fd_def Let_def
      split: prod.splits outcome.splits option.splits sum.splits)

text \<open>Calls outside the file system leave it alone.\<close>

lemma other_keeps_fs [keeps_intros]:
  "keeps fs_kept (unix_Chown p i j)" "keeps fs_kept (unix_Mount s d t fl)"
  "keeps fs_kept (os_Setenv k v)" "keeps fs_kept (stdout_Write dc)"
  "keeps fs_kept (unix_Kill i j)" "keeps fs_kept (syscall_SetNonblock n b)"
  "keeps fs_kept (open_fd ob b)" "keeps fs_kept (close_fd n)"
  "keeps fs_kept (cmd_Start cm)" "keeps fs_kept (os_Chdir p)"
  by (auto simp: keeps_def fs_kept_def unix_Chown_def unix_Mount_def os_Setenv_def
      stdout_Write_def unix_Kill_def syscall_SetNonblock_def open_fd_def close_fd_def
      cmd_Start_def os_Chdir_def Let_def
      split: option.splits sum.splits node.splits)

lemma all_keep_static [keeps_intros]:
  "keeps static_kept (ioutil_WriteFile p c m)" "keeps static_kept (os_OpenCreate x p m)"
  "keeps static_kept (f_Write h s)" "keeps static_kept (os_Mkdir p m)"
  "keeps static_kept (unix_Mknod p m d)" "keeps static_kept (os_MkdirAll p m)"
  "keeps static_kept (os_RemoveAll p)" "keeps static_kept (os_Chdir p)"
  "keeps static_kept (unix_Chown p i j)" "keeps static_kept (unix_Mount s d' t fl)"
  "keeps static_kept (os_Setenv k v)" "keeps static_kept (stdout_Write dc)"
  "keeps static_kept (unix_Kill i j)" "keeps static_kept (syscall_SetNonblock n b)"
  "keeps static_kept (open_fd ob b)" "keeps static_kept (close_fd n)"
  "keeps static_kept (cmd_Start cm)"
  by (auto simp: keeps_def static_kept_def ioutil_WriteFile_def os_OpenCreate_def f_Write_def
      os_Mkdir_def unix_Mknod_def os_MkdirAll_def os_RemoveAll_def os_Chdir_def
      unix_Chown_def unix_Mount_def os_Setenv_def
      stdout_Write_def unix_Kill_def syscall_SetNonblock_def open_fd_def close_fd_def
      cmd_Start_def Let_def
      split: option.splits sum.splits node.splits oserr.splits)

lemma fs_calls_keep_trace [keeps_intros]:
  "keeps trace_kept (ioutil_WriteFile p c m)" "keeps trace_kept (os_OpenCreate x p m)"
  "keeps trace_kept (f_Write h s)" "keeps trace_kept (os_Mkdir p m)"
  "keeps trace_kept (unix_Mknod p m d)" "keeps trace_kept (os_MkdirAll p m)"
  "keeps trace_kept (os_RemoveAll p)" "keeps trace_kept (os_Chdir p)"
  "keeps trace_kept (os_Setenv k v)" "keeps trace_kept (stdout_Write dc)"
  "keeps trace_kept (syscall_SetNonblock n b)" "keeps trace_kept (open_fd ob b)"
  "keeps trace_kept (close_fd n)" "keeps trace_kept (cmd_Start cm)"
  by (auto simp: keeps_def trace_kept_def ioutil_WriteFile_def os_OpenCreate_def f_Write_def
      os_Mkdir_def unix_Mknod_def os_MkdirAll_def os_RemoveAll_def os_Chdir_def os_Setenv_def
      stdout_Write_def syscall_SetNonblock_def open_fd_def close_fd_def cmd_Start_def Let_def
      split: option.splits sum.splits node.splits oserr.splits)

lemma fs_calls_keep_procs [keeps_intros]:
  "keeps procs_kept (ioutil_WriteFile p c m)" "keeps procs_kept (os_OpenCreate x p m)"
  "keeps procs_kept (f_Write h s)" "keeps procs_kept (os_Mkdir p m)"
  "keeps procs_kept (unix_Mknod p m d)" "keeps procs_kept (os_MkdirAll p m)"
  "keeps procs_kept (os_RemoveAll p)" "keeps procs_kept (os_Chdir p)"
  "keeps procs_kept (os_Setenv k v)" "keeps procs_kept (stdout_Write dc)"
  "keeps procs_kept (unix_Chown p i j)" "keeps procs_kept (unix_Mount s d' t fl)"
  "keeps procs_kept (syscall_SetNonblock n b)" "keeps procs_kept (open_fd ob b)"
  "keeps procs_kept (close_fd n)"
  by (auto simp: keeps_def procs_kept_def ioutil_WriteFile_def os_OpenCreate_def f_Write_def
      os_Mkdir_def unix_Mknod_def os_MkdirAll_def os_RemoveAll_def os_Chdir_def os_Setenv_def
      stdout_Write_def unix_Chown_def unix_Mount_def
      syscall_SetNonblock_def open_fd_def close_fd_def Let_def
      split: option.splits sum.splits node.splits oserr.splits)

lemmas derived_keeps [keeps_intros] =
  proc_Signal_keeps [of wf_kept, OF wfk.frame_refl]
  proc_Signal_keeps [of fs_kept, OF fsk.frame_refl]
  proc_Signal_keeps [of static_kept, OF stk.frame_refl]
  os_OpenFd_keeps [of wf_kept, OF wfk.frame_refl]
  os_OpenFd_keeps [of fs_kept, OF fsk.frame_refl]
  os_OpenFd_keeps [of static_kept, OF stk.frame_refl]
  os_OpenFd_keeps [of trace_kept, OF trk.frame_refl]
  os_OpenFd_keeps [of procs_kept, OF prk.frame_refl]

subsection \<open>Descriptors\<close>

text \<open>The number handed out is free, and every smaller number is taken.\<close>

lemma lowest_free_is_free: "fd_get t (lowest_free t) = None"
  by (induction t rule: lowest_free.induct) (auto simp: fd_get_def)

lemma below_lowest_free: "n < lowest_free t \<Longrightarrow> fd_get t n \<noteq> None"
proof (induction t arbitrary: n rule: lowest_free.induct)
  case (3 x xs)
  show ?case
  proof (cases n)
    case (Suc m)
    with 3 have "fd_get xs m \<noteq> None" by simp
    with Suc show ?thesis by (auto simp: fd_get_def split: if_splits)
  qed (simp add: fd_get_def)
qed simp_all

lemma lowest_free_le_length: "lowest_free t \<le> length t"
  by (induction t rule: lowest_free.induct) auto

lemma fd_get_set: "n \<le> length t \<Longrightarrow> fd_get (fd_set t n x) m = (if m = n then Some x else fd_get t m)"
  by (auto simp: fd_get_def fd_set_def nth_append)

lemma fd_get_open:
  "fd_get (fd_set t (lowest_free t) x) m = (if m = lowest_free t then Some x else fd_get t m)"
  by (simp add: fd_get_set lowest_free_le_length)

lemma fd_get_clear: "fd_get (t[i := None]) m = (if m = i then None else fd_get t m)"
  by (simp add: fd_get_def nth_list_update)

lemma lowest_free_increases: "lowest_free t < lowest_free (fd_set t (lowest_free t) x)"
proof (rule ccontr)
  let ?u = "fd_set t (lowest_free t) x"
  assume "\<not> lowest_free t < lowest_free ?u"
  then consider "lowest_free ?u < lowest_free t" | "lowest_free ?u = lowest_free t" by linarith
  then show False
  proof cases
    case 1
    then have "fd_get ?u (lowest_free ?u) \<noteq> None"
      using below_lowest_free [of "lowest_free ?u" t] by (simp add: fd_get_open)
    then show False by (simp add: lowest_free_is_free)
  next
    case 2
    have "fd_get ?u (lowest_free ?u) = None" by (rule lowest_free_is_free)
    with 2 show False by (simp add: fd_get_open)
  qed
qed

text \<open>The descriptors below the lowest free one refer to what they did: what a sequence of opens, and
  of closes of what it opened, does to the table.\<close>

definition fds_kept :: "world \<Rightarrow> world \<Rightarrow> bool" where
  "fds_kept w w' \<longleftrightarrow> (\<forall>n < lowest_free (w_fds w).
     map_option fd_obj (fd_get (w_fds w') n) = map_option fd_obj (fd_get (w_fds w) n))"

lemma fds_kept_lowest: "fds_kept w w' \<Longrightarrow> lowest_free (w_fds w) \<le> lowest_free (w_fds w')"
  by (metis below_lowest_free fds_kept_def lowest_free_is_free map_option_is_None not_le)

interpretation fdk: frame_rel fds_kept
proof
  show "fds_kept w w" for w by (simp add: fds_kept_def)
  fix w v u assume "fds_kept w v" and "fds_kept v u"
  moreover from fds_kept_lowest [OF this(1)] have "lowest_free (w_fds w) \<le> lowest_free (w_fds v)" .
  ultimately show "fds_kept w u" by (simp add: fds_kept_def)
qed

lemma fds_keptI: "w_fds w' = w_fds w \<Longrightarrow> fds_kept w w'"
  by (simp add: fds_kept_def)

lemmas look_keep_fds [keeps_intros] = look_keeps [of fds_kept, OF fdk.frame_refl]

lemma fs_calls_keep_fds [keeps_intros]:
  "keeps fds_kept (ioutil_WriteFile p c m)" "keeps fds_kept (os_OpenCreate x p m)"
  "keeps fds_kept (f_Write h s)" "keeps fds_kept (os_Mkdir p m)"
  "keeps fds_kept (unix_Mknod p m d)" "keeps fds_kept (os_MkdirAll p m)"
  "keeps fds_kept (os_RemoveAll p)" "keeps fds_kept (os_Chdir p)"
  "keeps fds_kept (os_Setenv k v)" "keeps fds_kept (stdout_Write dc)"
  "keeps fds_kept (unix_Chown p i j)" "keeps fds_kept (unix_Mount s d' t fl)"
  by (auto simp: keeps_def ioutil_WriteFile_def os_OpenCreate_def f_Write_def
      os_Mkdir_def unix_Mknod_def os_MkdirAll_def os_RemoveAll_def os_Chdir_def os_Setenv_def
      stdout_Write_def unix_Chown_def unix_Mount_def Let_def
      intro!: fds_keptI
      split: option.splits sum.splits node.splits oserr.splits)

lemma open_fd_keeps_fds [keeps_intros]: "keeps fds_kept (open_fd ob nb)"
  by (simp add: keeps_def open_fd_def Let_def fds_kept_def fd_get_open)

text \<open>Starting a process and switching modes leaves every descriptor with its object.\<close>

lemma cmd_Start_fd_obj:
  "map_option fd_obj (fd_get (w_fds (snd (cmd_Start c w))) n) = map_option fd_obj (fd_get (w_fds w) n)"
  by (auto simp: cmd_Start_def fd_get_def Let_def nth_enumerate_eq option.map_comp comp_def
      split: option.splits sum.splits)

lemma SetNonblock_fd_obj:
  "map_option fd_obj (fd_get (w_fds (snd (syscall_SetNonblock m b w))) n) =
     map_option fd_obj (fd_get (w_fds w) n)"
  by (auto simp: syscall_SetNonblock_def fd_get_def fd_set_def nth_list_update split: option.splits if_splits)

lemma mode_calls_keep_fds [keeps_intros]:
  "keeps fds_kept (cmd_Start c)" "keeps fds_kept (syscall_SetNonblock m b)"
  "keeps fds_kept (unix_Kill i j)"
  by (auto simp: keeps_def fds_kept_def cmd_Start_fd_obj SetNonblock_fd_obj unix_Kill_def
      split: option.splits)

lemmas derived_keep_fds [keeps_intros] = proc_Signal_keeps [of fds_kept, OF fdk.frame_refl]

text \<open>No descriptor is opened, closed or made to refer to something else.\<close>

definition fobj_kept :: "world \<Rightarrow> world \<Rightarrow> bool" where
  "fobj_kept w w' \<longleftrightarrow> (\<forall>n. map_option fd_obj (fd_get (w_fds w') n) = map_option fd_obj (fd_get (w_fds w) n))"

interpretation fok: frame_rel fobj_kept
  by unfold_locales (auto simp: fobj_kept_def)

lemma fobj_keptI: "w_fds w' = w_fds w \<Longrightarrow> fobj_kept w w'"
  by (simp add: fobj_kept_def)

lemmas look_keep_fobj [keeps_intros] = look_keeps [of fobj_kept, OF fok.frame_refl]

lemma calls_keep_fobj [keeps_intros]:
  "keeps fobj_kept (ioutil_WriteFile p c m)" "keeps fobj_kept (os_OpenCreate x p m)"
  "keeps fobj_kept (f_Write h s)" "keeps fobj_kept (os_Mkdir p m)"
  "keeps fobj_kept (unix_Mknod p m d)" "keeps fobj_kept (os_MkdirAll p m)"
  "keeps fobj_kept (os_RemoveAll p)" "keeps fobj_kept (os_Chdir p)"
  "keeps fobj_kept (os_Setenv k v)" "keeps fobj_kept (stdout_Write dc)"
  "keeps fobj_kept (unix_Chown p i j)" "keeps fobj_kept (unix_Mount s d' t fl)"
  "keeps fobj_kept (unix_Kill i j)"
  by (auto simp: keeps_def ioutil_WriteFile_def os_OpenCreate_def f_Write_def
      os_Mkdir_def unix_Mknod_def os_MkdirAll_def os_RemoveAll_def os_Chdir_def os_Setenv_def
      stdout_Write_def unix_Chown_def unix_Mount_def unix_Kill_def Let_def
      intro!: fobj_keptI
      split: option.splits sum.splits node.splits oserr.splits)

lemma mode_calls_keep_fobj [keeps_intros]:
  "keeps fobj_kept (cmd_Start c)" "keeps fobj_kept (syscall_SetNonblock m b)"
  by (simp_all add: keeps_def fobj_kept_def cmd_Start_fd_obj SetNonblock_fd_obj)

lemmas derived_keep_fobj [keeps_intros] = proc_Signal_keeps [of fobj_kept, OF fok.frame_refl]

text \<open>The fixed parts of the machine and the working directory: everything but \<open>chdir\<close>.\<close>

definition place_kept :: "world \<Rightarrow> world \<Rightarrow> bool" where
  "place_kept w w' \<longleftrightarrow> static_kept w w' \<and> w_cwd w' = w_cwd w"

interpretation plk: frame_rel place_kept
  by unfold_locales (auto simp: place_kept_def static_kept_def)

lemmas look_keep_place [keeps_intros] = look_keeps [of place_kept, OF plk.frame_refl]

lemma calls_keep_place [keeps_intros]:
  "keeps place_kept (ioutil_WriteFile p c m)" "keeps place_kept (os_OpenCreate x p m)"
  "keeps place_kept (f_Write h s)" "keeps place_kept (os_Mkdir p m)"
  "keeps place_kept (unix_Mknod p m d)" "keeps place_kept (os_MkdirAll p m)"
  "keeps place_kept (os_RemoveAll p)"
  "keeps place_kept (unix_Chown p i j)" "keeps place_kept (unix_Mount s d' t fl)"
  "keeps place_kept (os_Setenv k v)" "keeps place_kept (stdout_Write dc)"
  "keeps place_kept (unix_Kill i j)" "keeps place_kept (syscall_SetNonblock n b)"
  "keeps place_kept (open_fd ob b)" "keeps place_kept (close_fd n)"
  "keeps place_kept (cmd_Start cm)"
  by (auto simp: keeps_def place_kept_def static_kept_def ioutil_WriteFile_def os_OpenCreate_def
      f_Write_def os_Mkdir_def unix_Mknod_def os_MkdirAll_def os_RemoveAll_def
      unix_Chown_def unix_Mount_def os_Setenv_def
      stdout_Write_def unix_Kill_def syscall_SetNonblock_def open_fd_def close_fd_def
      cmd_Start_def Let_def
      split: option.splits sum.splits node.splits oserr.splits)

lemmas derived_keep_place [keeps_intros] =
  proc_Signal_keeps [of place_kept, OF plk.frame_refl]
  os_OpenFd_keeps [of place_kept, OF plk.frame_refl]

lemma keeps_weaken: "keeps R m \<Longrightarrow> (\<And>w w'. R w w' \<Longrightarrow> S w w') \<Longrightarrow> keeps S m"
  by (simp add: keeps_def)

text \<open>A variable of the environment stays as it is, unless it is set.\<close>

definition var_kept :: "string \<Rightarrow> world \<Rightarrow> world \<Rightarrow> bool" where
  "var_kept k w w' \<longleftrightarrow> w_env w' k = w_env w k"

interpretation vrk: frame_rel "var_kept k" for k
  by unfold_locales (auto simp: var_kept_def)

lemmas look_keep_var [keeps_intros] = look_keeps [of "var_kept _", OF vrk.frame_refl]

lemma calls_keep_var [keeps_intros]:
  "keeps (var_kept k) (ioutil_WriteFile p c m)" "keeps (var_kept k) (os_OpenCreate x p m)"
  "keeps (var_kept k) (f_Write h s)" "keeps (var_kept k) (os_Mkdir p m)"
  "keeps (var_kept k) (unix_Mknod p m d)" "keeps (var_kept k) (os_MkdirAll p m)"
  "keeps (var_kept k) (os_RemoveAll p)" "keeps (var_kept k) (os_Chdir p)"
  "keeps (var_kept k) (unix_Chown p i j)" "keeps (var_kept k) (unix_Mount s d' t fl)"
  "keeps (var_kept k) (stdout_Write dc)"
  "keeps (var_kept k) (unix_Kill i j)" "keeps (var_kept k) (syscall_SetNonblock n b)"
  "keeps (var_kept k) (open_fd ob b)" "keeps (var_kept k) (close_fd n)"
  "keeps (var_kept k) (cmd_Start cm)"
  by (auto simp: keeps_def var_kept_def ioutil_WriteFile_def os_OpenCreate_def
      f_Write_def os_Mkdir_def unix_Mknod_def os_MkdirAll_def os_RemoveAll_def os_Chdir_def
      unix_Chown_def unix_Mount_def
      stdout_Write_def unix_Kill_def syscall_SetNonblock_def open_fd_def close_fd_def
      cmd_Start_def Let_def
      split: option.splits sum.splits node.splits oserr.splits)

lemma Setenv_keeps_var: "k \<noteq> k' \<Longrightarrow> keeps (var_kept k) (os_Setenv k' v)"
  by (simp add: keeps_def var_kept_def os_Setenv_def)

lemmas derived_keep_var [keeps_intros] =
  proc_Signal_keeps [of "var_kept _", OF vrk.frame_refl]
  os_OpenFd_keeps [of "var_kept _", OF vrk.frame_refl]

end
