(* ===== verification/Cli.thy ===== *)
theory Cli
  imports OS_Facts
begin

text \<open>
  The command line of \<open>runu\<close> as the handlers see it (a parsed \<open>cli.Context\<close>), and the
  argument check of \<open>utils.go\<close>. The parser itself is the third-party package
  \<open>urfave/cli\<close>: a handler is given the context it would build. A flag that a command does
  not define reads as the empty string.
\<close>

record cli_ctx =
  g_argv0 :: string
  g_root :: string
  g_log :: string
  g_log_format :: string
  g_debug :: bool
  g_debug_log :: string
  g_9ps :: string
  ctx_cmd :: string
  f_bundle :: string
  f_pid_file :: string
  ctx_args :: "string list"

text \<open>\<open>Args().Get(n)\<close>, \<open>Args().First()\<close> and \<open>Args().Present()\<close>.\<close>

definition args_Get :: "cli_ctx \<Rightarrow> nat \<Rightarrow> string" where
  "args_Get ctx n = (if n < length (ctx_args ctx) then ctx_args ctx ! n else [])"

definition args_First :: "cli_ctx \<Rightarrow> string" where
  "args_First ctx = args_Get ctx 0"

definition args_Present :: "cli_ctx \<Rightarrow> bool" where
  "args_Present ctx \<longleftrightarrow> ctx_args ctx \<noteq> []"

text \<open>File names of \<open>main.go\<close>.\<close>

definition specConfig :: string where
  "specConfig = ''config.json''"

definition stateJSON :: string where
  "stateJSON = ''state.json''"

definition pidFilePriv :: string where
  "pidFilePriv = ''runu.pid''"

definition pidFile9p :: string where
  "pidFile9p = ''runu-9p.pid''"

lemmas file_names = specConfig_def stateJSON_def pidFilePriv_def pidFile9p_def

lemma file_names_plain [simp]:
  "plain_name specConfig" "plain_name stateJSON" "plain_name pidFilePriv" "plain_name pidFile9p"
  by (simp_all add: file_names plain_name_def)

lemma file_names_distinct [simp]:
  "specConfig \<noteq> stateJSON" "stateJSON \<noteq> pidFilePriv" "stateJSON \<noteq> pidFile9p"
  "pidFilePriv \<noteq> stateJSON" "pidFile9p \<noteq> stateJSON" "pidFilePriv \<noteq> pidFile9p"
  "pidFile9p \<noteq> pidFilePriv"
  by (simp_all add: file_names)

subsection \<open>checkArgs\<close>

datatype check_type = ExactArgs | MinArgs | MaxArgs

fun checkArgs :: "cli_ctx \<Rightarrow> int \<Rightarrow> check_type \<Rightarrow> goerr option" where
  "checkArgs ctx expected ExactArgs =
     (if int (length (ctx_args ctx)) \<noteq> expected
      then Some (EFmt ''%s: %q requires exactly %d argument(s)''
        [g_argv0 ctx, ctx_cmd ctx, itoa expected])
      else None)"
| "checkArgs ctx expected MinArgs =
     (if int (length (ctx_args ctx)) < expected
      then Some (EFmt ''%s: %q requires a minimum of %d argument(s)''
        [g_argv0 ctx, ctx_cmd ctx, itoa expected])
      else None)"
| "checkArgs ctx expected MaxArgs =
     (if int (length (ctx_args ctx)) > expected
      then Some (EFmt ''%s: %q requires a maximum of %d argument(s)''
        [g_argv0 ctx, ctx_cmd ctx, itoa expected])
      else None)"

lemma checkArgs_exact_iff: "checkArgs ctx n ExactArgs = None \<longleftrightarrow> int (length (ctx_args ctx)) = n"
  by simp

text \<open>An exact check is a minimum and a maximum check.\<close>

lemma checkArgs_exact_split:
  "checkArgs ctx n ExactArgs = None \<longleftrightarrow>
     checkArgs ctx n MinArgs = None \<and> checkArgs ctx n MaxArgs = None"
  by auto

end
