(* ===== verification/Spec_Cmd.thy ===== *)
theory Spec_Cmd
  imports Cli
begin

text \<open>
  \<open>spec.go\<close>: the template specification, the \<open>spec\<close> command that writes it, and the two
  functions the other commands read the bundle's specification with. The lemmas say that
  \<open>spec\<close> never overwrites a file and that what it writes is what \<open>loadSpec\<close> reads back.
\<close>

subsection \<open>The template\<close>

text \<open>\<open>specs.Version\<close> is a constant of the third-party package: a parameter.\<close>

definition Example :: "string \<Rightarrow> oci_spec" where
  "Example specs_Version =
     \<lparr>sp_Version = specs_Version,
      sp_Process = Some
        \<lparr>pr_Terminal = True,
         pr_Args = [''sh''],
         pr_Env = [''PATH=/usr/local/sbin:/usr/local/bin:/usr/sbin:/usr/bin:/sbin:/bin'',
                   ''TERM=xterm''],
         pr_Cwd = ''/'',
         pr_NoNewPrivileges = True\<rparr>,
      sp_Root = Some \<lparr>rt_Path = ''rootfs'', rt_Readonly = True\<rparr>,
      sp_Hostname = ''runu'',
      sp_Mounts = [],
      sp_Linux = Some
        \<lparr>l_MaskedPaths = [''/proc/acpi'', ''/proc/asound'', ''/proc/kcore'', ''/proc/keys'',
            ''/proc/latency_stats'', ''/proc/timer_list'', ''/proc/timer_stats'',
            ''/proc/sched_debug'', ''/sys/firmware'', ''/proc/scsi''],
         l_ReadonlyPaths = [''/proc/bus'', ''/proc/fs'', ''/proc/irq'', ''/proc/sys'',
            ''/proc/sysrq-trigger''],
         l_Devices = [\<lparr>dc_Allow = False, dc_Access = ''rwm''\<rparr>],
         l_Namespaces =
           [\<lparr>ns_Type = PIDNamespace, ns_Path = []\<rparr>,
            \<lparr>ns_Type = NetworkNamespace, ns_Path = []\<rparr>,
            \<lparr>ns_Type = IPCNamespace, ns_Path = []\<rparr>,
            \<lparr>ns_Type = UTSNamespace, ns_Path = []\<rparr>,
            \<lparr>ns_Type = MountNamespace, ns_Path = []\<rparr>]\<rparr>\<rparr>"

subsection \<open>The spec command\<close>

definition checkNoFile :: "string \<Rightarrow> (goerr option) io" where
  "checkNoFile name = bnd (os_Stat name) (\<lambda>r. ret (case r of
      Inr n \<Rightarrow> Some (EFmt ''File %s exists. Remove it first'' [name])
    | Inl e \<Rightarrow> if \<not> os_IsNotExist e then Some (EOs e) else None))"

definition specCommand :: "string \<Rightarrow> cli_ctx \<Rightarrow> (goerr option) io" where
  "specCommand specs_Version ctx =
     (case checkArgs ctx 0 ExactArgs of
        Some err \<Rightarrow> ret (Some err)
      | None \<Rightarrow>
          (let spec = Example specs_Version; bundle = f_bundle ctx in
           bnd (if bundle \<noteq> [] then os_Chdir bundle else ret None) (\<lambda>r.
             case r of
               Some e \<Rightarrow> ret (Some (EOs e))
             | None \<Rightarrow> bnd (checkNoFile specConfig) (\<lambda>r.
                 case r of
                   Some err \<Rightarrow> ret (Some err)
                 | None \<Rightarrow> bnd (ioutil_WriteFile specConfig (SpecDoc spec) 438) (\<lambda>r.
                     ret (map_option EOs r))))))"

subsection \<open>Reading a specification\<close>

definition loadSpec :: "string \<Rightarrow> (goerr + oci_spec) io" where
  "loadSpec cPath = bnd (ioutil_ReadFile cPath) (\<lambda>r. ret (case r of
      Inl e \<Rightarrow> if os_IsNotExist e
        then Inl (EFmt ''JSON specification file %s not found'' [cPath])
        else Inl (EOs e)
    | Inr (SpecDoc spec) \<Rightarrow> Inr spec
    | Inr _ \<Rightarrow> Inl (EFmt ''json: cannot decode specification'' [])))"

definition setupSpec :: "cli_ctx \<Rightarrow> (goerr + oci_spec) io" where
  "setupSpec ctx =
     (let bundle = f_bundle ctx in
      bnd (if bundle \<noteq> [] then os_Chdir bundle else ret None) (\<lambda>r.
        case r of
          Some e \<Rightarrow> ret (Inl (EWrap ''spec: dir not found (bundle=%s,%v)'' [bundle] (EOs e)))
        | None \<Rightarrow> loadSpec specConfig))"

subsection \<open>Frames\<close>

lemma loadSpec_outcome: "\<exists>r. loadSpec p w = (Ret r, w)"
proof -
  obtain r where "ioutil_ReadFile p w = (Ret r, w)"
    using ioutil_ReadFile_outcome by blast
  then show ?thesis by (simp add: loadSpec_def bnd_RetI)
qed

text \<open>\<open>setupSpec\<close> only ever changes the working directory, and never panics.\<close>

lemma setupSpec_cases:
  obtains r w' where "setupSpec ctx w = (Ret r, w')" and "w' = w\<lparr>w_cwd := w_cwd w'\<rparr>"
proof -
  have "\<exists>r c. setupSpec ctx w = (Ret r, w\<lparr>w_cwd := c\<rparr>)"
  proof (cases "f_bundle ctx = []")
    case True
    obtain r where "loadSpec specConfig w = (Ret r, w)" using loadSpec_outcome by blast
    then have "setupSpec ctx w = (Ret r, w\<lparr>w_cwd := w_cwd w\<rparr>)"
      using True by (simp add: setupSpec_def)
    then show ?thesis by blast
  next
    case False
    obtain e c where ch: "os_Chdir (f_bundle ctx) w = (Ret e, w\<lparr>w_cwd := c\<rparr>)"
      using os_Chdir_outcome by blast
    obtain r where ld: "loadSpec specConfig (w\<lparr>w_cwd := c\<rparr>) = (Ret r, w\<lparr>w_cwd := c\<rparr>)"
      using loadSpec_outcome by blast
    show ?thesis
    proof (cases e)
      case None
      with ch ld False show ?thesis by (auto simp: setupSpec_def Let_def bnd_RetI)
    next
      case (Some err)
      with ch False show ?thesis by (auto simp: setupSpec_def Let_def bnd_RetI)
    qed
  qed
  then show ?thesis using that by fastforce
qed

lemma setupSpec_keeps [keeps_intros]:
  "keeps fs_kept (setupSpec ctx)" "keeps static_kept (setupSpec ctx)"
  "keeps trace_kept (setupSpec ctx)" "keeps procs_kept (setupSpec ctx)"
  "keeps wf_kept (setupSpec ctx)"
  unfolding setupSpec_def loadSpec_def Let_def
  by (intro fsk.kp_rules stk.kp_rules trk.kp_rules prk.kp_rules wfk.kp_rules keeps_intros)+

end
