(* ===== verification/Demo.thy ===== *)
theory Demo
  imports Spec_Cmd
begin

text \<open>
  A small machine the witnesses run on: a state root \<open>/run/runu\<close> with one container \<open>c1\<close>
  whose process 42 is stopped, and a bundle \<open>/b\<close> with a specification and a root file system
  with a shell. Nothing fails on it for outside reasons.
\<close>

definition demo_spec :: oci_spec where
  "demo_spec = (Example ''1.0.2'')\<lparr>sp_Root := Some \<lparr>rt_Path = ''/b/rootfs'', rt_Readonly = False\<rparr>\<rparr>"

definition demo_state :: oci_state where
  "demo_state = \<lparr>st_Version = ''1.0.2'', st_ID = ''c1'', st_Status = StateCreated,
     st_Bundle = ''/b/rootfs''\<rparr>"

definition demo_nodes :: "(path \<times> node) list" where
  "demo_nodes =
     [([], Dir), ([''run''], Dir), ([''run'', ''runu''], Dir), ([''run'', ''runu'', ''c1''], Dir),
      ([''run'', ''runu'', ''c1'', ''state.json''], File (StateDoc demo_state) 438),
      ([''run'', ''runu'', ''c1'', ''runu.pid''], File (Text ''42'') 438),
      ([''b''], Dir), ([''b'', ''config.json''], File (SpecDoc demo_spec) 438),
      ([''b'', ''rootfs''], Dir), ([''b'', ''rootfs'', ''bin''], Dir),
      ([''b'', ''rootfs'', ''bin'', ''sh''], File (Text []) 493)]"

definition demo_proc :: proc where
  "demo_proc = \<lparr>p_Path = ''/bin/sh'', p_Args = [''sh''], p_Env = [], p_Dir = ''/'',
     p_Chroot = Some ''/b/rootfs'', p_Files = [], p_State = PStopped\<rparr>"

definition demo_fds :: "fdinfo option list" where
  "demo_fds = map (\<lambda>s. Some \<lparr>fd_obj = FStd s, fd_nonblock = False\<rparr>) [''stdin'', ''stdout'', ''stderr'']"

definition demo_world :: world where
  "demo_world =
     \<lparr>w_fs = map_of demo_nodes, w_cwd = [], w_env = (\<lambda>_. None), w_fds = demo_fds,
      w_procs = [42 \<mapsto> demo_proc], w_next_pid = 43, w_pid = 7, w_stdout = [], w_trace = [],
      w_ns = ''host'', w_goos = Linux, w_goarch = ''amd64'', w_fault = (\<lambda>_. None)\<rparr>"

definition demo_ctx :: cli_ctx where
  "demo_ctx = \<lparr>g_argv0 = ''runu'', g_root = ''/run/runu'', g_log = [], g_log_format = ''text'',
     g_debug = False, g_debug_log = [], g_9ps = [], ctx_cmd = ''start'', f_bundle = ''/b'',
     f_pid_file = [], ctx_args = [''c1'']\<rparr>"

lemmas demo_defs = demo_world_def demo_ctx_def demo_nodes_def demo_spec_def demo_proc_def
  demo_fds_def demo_state_def

subsection \<open>It is a well-formed machine\<close>

lemma wf_fs_map_of:
  assumes "list_all (\<lambda>(p, n). p \<noteq> [] \<longrightarrow> map_of xs (butlast p) = Some Dir) xs"
    and "map_of xs [] = Some Dir"
  shows "wf_fs (map_of xs)"
  unfolding wf_fs_def
proof (intro conjI allI impI)
  fix p assume "p \<noteq> []" and "map_of xs p \<noteq> None"
  then obtain n where "(p, n) \<in> set xs" by (auto dest: map_of_SomeD)
  with assms(1) \<open>p \<noteq> []\<close> show "map_of xs (butlast p) = Some Dir"
    by (auto simp: list_all_iff)
qed (rule assms(2))

lemma demo_fs_parents:
  "list_all (\<lambda>(p, n). p \<noteq> [] \<longrightarrow> map_of demo_nodes (butlast p) = Some Dir) demo_nodes"
  by (simp add: demo_nodes_def)

lemma demo_wf: "wf_world demo_world"
  using wf_fs_map_of [OF demo_fs_parents]
  by (simp add: wf_world_def demo_world_def) (simp add: demo_nodes_def)

lemma demo_no_devices: "w_fs demo_world p \<noteq> Some (DevNode m d)"
  by (auto simp: demo_world_def demo_nodes_def)

lemma demo_fault [simp]: "w_fault demo_world = (\<lambda>_. None)"
  by (simp add: demo_world_def)

lemma demo_at: "at demo_world p = resolve [] p"
  by (simp add: demo_world_def at_def)

lemma demo_root: "resolve cwd ''/run/runu'' = [''run'', ''runu'']"
  by (simp add: resolve_def push.simps)

lemma demo_at_root [simp]: "at demo_world ''/run/runu'' = [''run'', ''runu'']"
  by (simp add: demo_at demo_root)

lemma demo_c1_dir [simp]: "w_fs demo_world [''run'', ''runu'', ''c1''] = Some Dir"
  by (simp add: demo_world_def demo_nodes_def)

lemma demo_c1_state [simp]:
  "w_fs demo_world [''run'', ''runu'', ''c1'', ''state.json''] = Some (File (StateDoc demo_state) 438)"
  by (simp add: demo_world_def demo_nodes_def)

lemma demo_ctx_simps [simp]:
  "g_root demo_ctx = ''/run/runu''" "f_bundle demo_ctx = ''/b''" "ctx_args demo_ctx = [''c1'']"
  by (simp_all add: demo_ctx_def)

end
