(* ===== verification/State_Dir.thy ===== *)
theory State_Dir
  imports Demo
begin

text \<open>
  \<open>state.go\<close> and \<open>delete.go\<close>: the state directory of a container. Every container has a
  directory \<open>root/id\<close> that holds its \<open>state.json\<close>; \<open>create\<close> makes it, \<open>saveState\<close> writes
  the status, \<open>state\<close> prints it and \<open>delete\<close> removes the directory. The lemmas give each
  operation's effect on the tree, and the locale \<open>container_store\<close> states what the life
  cycle relies on: together the operations implement a map from ids to statuses.
\<close>

subsection \<open>Operations\<close>

definition saveState :: "container_status \<Rightarrow> string \<Rightarrow> cli_ctx \<Rightarrow> (goerr option) io" where
  "saveState status container ctx =
     (let root = g_root ctx in
      bnd (abs_path root) (\<lambda>absRoot.
      bnd (setupSpec ctx) (\<lambda>r.
        case r of
          Inl err \<Rightarrow> ret (Some (EWrap ''setupSepc err: %v'' [] err))
        | Inr spec \<Rightarrow>
            bnd (deref (sp_Root spec)) (\<lambda>specRoot.
            bnd (abs_path (rt_Path specRoot)) (\<lambda>rootfs.
              let stateFile = filepath_Join [absRoot, container, stateJSON];
                  cs = \<lparr>st_Version = sp_Version spec, st_ID = args_Get ctx 0,
                        st_Status = status, st_Bundle = rootfs\<rparr>
              in bnd (ioutil_WriteFile stateFile (StateDoc cs) 438) (\<lambda>werr.
                 case werr of
                   Some e \<Rightarrow> go_panic ''write state file''
                 | None \<Rightarrow> ret None))))))"

definition createContainer ::
    "string \<Rightarrow> string \<Rightarrow> string \<Rightarrow> oci_spec \<Rightarrow> (goerr option) io" where
  "createContainer container bundle stateRoot spec =
     (let stateDir = filepath_Join [stateRoot, container] in
      bnd (os_Stat stateDir) (\<lambda>r.
        case r of
          Inr n \<Rightarrow> ret (Some (EFmt ''Container %s exists'' [container]))
        | Inl e \<Rightarrow> bnd (os_MkdirAll stateDir 493) (\<lambda>r. ret (map_option EOs r))))"

definition deleteContainer :: "string \<Rightarrow> string \<Rightarrow> (goerr option) io" where
  "deleteContainer root container =
     bnd (os_RemoveAll (filepath_Join [root, container])) (\<lambda>r. ret (map_option EOs r))"

definition missing_id :: goerr where
  "missing_id = EFmt ''Missing container ID'' []"

definition stateCommand :: "cli_ctx \<Rightarrow> (goerr option) io" where
  "stateCommand ctx =
     (if args_Present ctx = False then ret (Some missing_id)
      else
        let root = g_root ctx; name = args_First ctx;
            stateFile = filepath_Join [root, name, stateJSON]
        in bnd (ioutil_ReadFile stateFile) (\<lambda>r.
           let stateData = (case r of Inl e \<Rightarrow> Text [] | Inr d \<Rightarrow> d)
           in bnd (stdout_Write stateData) (\<lambda>_. ret None)))"

definition deleteCommand :: "cli_ctx \<Rightarrow> (goerr option) io" where
  "deleteCommand ctx =
     (if args_Present ctx = False then ret (Some missing_id)
      else let container = args_First ctx in deleteContainer (g_root ctx) container)"

subsection \<open>Frames\<close>

lemma saveState_keeps [keeps_intros]:
  "keeps wf_kept (saveState st c ctx)" "keeps static_kept (saveState st c ctx)"
  "keeps trace_kept (saveState st c ctx)" "keeps procs_kept (saveState st c ctx)"
  unfolding saveState_def Let_def
  by (intro wfk.kp_rules stk.kp_rules trk.kp_rules prk.kp_rules keeps_intros)+

lemma createContainer_keeps [keeps_intros]:
  "keeps wf_kept (createContainer c b r sp)" "keeps static_kept (createContainer c b r sp)"
  "keeps trace_kept (createContainer c b r sp)" "keeps procs_kept (createContainer c b r sp)"
  unfolding createContainer_def Let_def
  by (intro wfk.kp_rules stk.kp_rules trk.kp_rules prk.kp_rules keeps_intros)+

lemma deleteContainer_keeps [keeps_intros]:
  "keeps wf_kept (deleteContainer r c)" "keeps static_kept (deleteContainer r c)"
  "keeps trace_kept (deleteContainer r c)" "keeps procs_kept (deleteContainer r c)"
  unfolding deleteContainer_def
  by (intro wfk.kp_rules stk.kp_rules trk.kp_rules prk.kp_rules keeps_intros)+

subsection \<open>Creating\<close>

abbreviation cdir :: "world \<Rightarrow> string \<Rightarrow> string \<Rightarrow> path" where
  "cdir w root c \<equiv> at w root @ [c]"

abbreviation state_path :: "world \<Rightarrow> string \<Rightarrow> string \<Rightarrow> path" where
  "state_path w root c \<equiv> at w root @ [c, stateJSON]"

lemma at_Join_name:
  "wf_world w \<Longrightarrow> root \<noteq> [] \<Longrightarrow> plain_name c \<Longrightarrow> at w (filepath_Join [root, c]) = cdir w root c"
  by (simp add: at_def resolve_Join_name wf_world_def)

lemma at_Join_names:
  "wf_world w \<Longrightarrow> root \<noteq> [] \<Longrightarrow> plain_name c \<Longrightarrow> plain_name d \<Longrightarrow>
     at w (filepath_Join [root, c, d]) = at w root @ [c, d]"
  by (simp add: at_def resolve_Join_names wf_world_def)

lemma Clean_nonempty [simp]: "filepath_Clean p \<noteq> []"
proof (cases "isAbs p")
  case False
  let ?cs = "clean_comps False (slash_split p)"
  have "join_slash ?cs \<noteq> []" if "?cs \<noteq> []"
  proof -
    from that have "hd ?cs \<in> set ?cs" by simp
    then have "hd ?cs \<noteq> []" by (rule clean_comps_no_slash(2))
    with that show ?thesis by (cases ?cs rule: join_slash.cases) auto
  qed
  with False show ?thesis by (simp add: filepath_Clean_def Let_def)
qed (simp add: filepath_Clean_def Let_def)

lemma Join_nonempty [simp]: "root \<noteq> [] \<Longrightarrow> filepath_Join (root # cs) \<noteq> []"
  by (simp add: filepath_Join_def)

lemma os_Stat_existing:
  "wf_world w \<Longrightarrow> p \<noteq> [] \<Longrightarrow> w_fault w (OpStat (at w p)) = None \<Longrightarrow>
     w_fs w (at w p) = Some n \<Longrightarrow> os_Stat p w = (Ret (Inr n), w)"
  by (simp add: os_Stat_def fault_at_def walk_Some wf_world_def)

lemma os_Stat_missing:
  "w_fs w (at w p) = None \<Longrightarrow> \<exists>e. os_Stat p w = (Ret (Inl e), w)"
  using walk_missing [of w "at w p"]
  by (auto simp: os_Stat_def split: option.splits)

lemma os_MkdirAll_cases:
  assumes "os_MkdirAll p m w = (r, w')"
  shows "(\<exists>e. r = Ret (Some e) \<and> w' = w) \<or>
    (r = Ret None \<and> p \<noteq> [] \<and> w' = w\<lparr>w_fs := (\<lambda>q. if prefix q (at w p) then Some Dir else w_fs w q)\<rparr>)"
  using assms by (auto simp: os_MkdirAll_def Let_def split: option.splits if_splits)

text \<open>What \<open>createContainer\<close> can do: refuse and change nothing, or make the directory.\<close>

lemma createContainer_cases:
  assumes "createContainer c b root sp w = (r, w')"
  shows "(\<exists>e. r = Ret (Some e) \<and> w' = w) \<or>
    (r = Ret None \<and>
     w' = w\<lparr>w_fs := (\<lambda>q. if prefix q (at w (filepath_Join [root, c])) then Some Dir else w_fs w q)\<rparr>)"
proof -
  obtain s where st: "os_Stat (filepath_Join [root, c]) w = (Ret s, w)"
    using os_Stat_outcome by blast
  obtain r1 w1 where mk: "os_MkdirAll (filepath_Join [root, c]) 493 w = (r1, w1)"
    by (cases "os_MkdirAll (filepath_Join [root, c]) 493 w")
  show ?thesis
    using assms os_MkdirAll_cases [OF mk]
    by (auto simp: createContainer_def Let_def bnd_def st mk split: sum.splits)
qed

lemma createContainer_refuses:
  assumes "wf_world w" and "root \<noteq> []" and "plain_name c"
    and "w_fault w (OpStat (cdir w root c)) = None" and "w_fs w (cdir w root c) = Some n"
  shows "createContainer c b root sp w = (Ret (Some (EFmt ''Container %s exists'' [c])), w)"
proof -
  have "os_Stat (filepath_Join [root, c]) w = (Ret (Inr n), w)"
    using assms by (intro os_Stat_existing) (auto simp: at_Join_name)
  then show ?thesis by (simp add: createContainer_def Let_def bnd_RetI)
qed

lemma createContainer_makes:
  assumes "wf_world w" and "root \<noteq> []" and "plain_name c"
    and "createContainer c b root sp w = (Ret None, w')"
  shows "w_fs w' (cdir w root c) = Some Dir"
    and "\<not> prefix p (cdir w root c) \<Longrightarrow> w_fs w' p = w_fs w p"
  using createContainer_cases [OF assms(4)] assms by (auto simp: at_Join_name)


subsection \<open>Deleting\<close>

lemma last_split_Clean: "last (slash_split (filepath_Clean p)) = ''.'' \<Longrightarrow>
    \<not> isAbs p \<and> clean_comps False (slash_split p) = []"
proof -
  assume l: "last (slash_split (filepath_Clean p)) = ''.''"
  let ?cs = "clean_comps (isAbs p) (slash_split p)"
  have "''.'' \<notin> set ?cs"
    using clean_comps_elems [of "slash_split p" "isAbs p"] slash_split_elem [of _ p]
    by (auto simp: plain_name_def)
  then have "?cs \<noteq> [] \<Longrightarrow> last ?cs \<noteq> ''.''" by (metis last_in_set)
  with l show ?thesis
    by (cases "isAbs p") (auto simp: slash_split_Clean Let_def split: if_splits)
qed

lemma os_RemoveAll_result:
  assumes "p \<noteq> []" and "last (slash_split p) \<noteq> ''.''" and "w_fault w (OpRemove (at w p)) = None"
  shows "os_RemoveAll p w = (Ret (if at w p = [] then Some EBUSY else None),
    w\<lparr>w_fs := (\<lambda>r. if prefix (at w p) r \<and> r \<noteq> [] then None else w_fs w r)\<rparr>)"
  using assms by (simp add: os_RemoveAll_def Let_def)

lemma Join_not_dot:
  assumes "a \<noteq> []" and "resolve [] (filepath_Join [a, b]) \<noteq> [] \<or> isAbs a"
  shows "last (slash_split (filepath_Join [a, b])) \<noteq> ''.''"
proof
  let ?p = "a @ CHR ''/'' # b"
  assume dot: "last (slash_split (filepath_Join [a, b])) = ''.''"
  have J: "filepath_Join [a, b] = filepath_Clean ?p"
    using assms by (simp add: filepath_Join_def)
  with dot have "\<not> isAbs ?p" and "clean_comps False (slash_split ?p) = []"
    using last_split_Clean by fastforce+
  moreover from this have "filepath_Clean ?p = ''.''"
    by (simp add: filepath_Clean_def Let_def)
  ultimately show False using assms J by (simp add: isAbs_append resolve_def isAbs_def hasPrefix_def)
qed

lemma deleteContainer_removes:
  assumes "wf_world w" and "root \<noteq> []" and "at w (filepath_Join [root, c]) = d"
    and "last (slash_split (filepath_Join [root, c])) \<noteq> ''.''"
    and "d \<noteq> []" and "w_fault w (OpRemove d) = None"
  shows "deleteContainer root c w =
    (Ret None, w\<lparr>w_fs := (\<lambda>p. if prefix d p then None else w_fs w p)\<rparr>)"
proof -
  have "os_RemoveAll (filepath_Join [root, c]) w =
      (Ret None, w\<lparr>w_fs := (\<lambda>p. if prefix d p \<and> p \<noteq> [] then None else w_fs w p)\<rparr>)"
    using assms by (simp add: os_RemoveAll_result)
  moreover have "prefix d p \<and> p \<noteq> [] \<longleftrightarrow> prefix d p" for p
    using assms(5) by auto
  ultimately show ?thesis by (simp add: deleteContainer_def bnd_RetI)
qed

lemma plain_Join_not_dot:
  assumes "root \<noteq> []" and "plain_name c"
  shows "last (slash_split (filepath_Join [root, c])) \<noteq> ''.''"
  using assms by (intro Join_not_dot) (simp_all add: resolve_Join_name)

text \<open>C9: deleting a container removes its state directory and everything in it, and nothing
  else: every file outside the directory, in particular every other container's, stays.\<close>

theorem deleteContainer_exact:
  assumes "wf_world w" and "root \<noteq> []" and "plain_name c"
    and "w_fault w (OpRemove (cdir w root c)) = None"
    and "deleteContainer root c w = (r, w')"
  shows "r = Ret None \<and> w_fs w' (cdir w root c) = None \<and>
    (\<forall>rest. w_fs w' (at w root @ c # rest) = None) \<and>
    (\<forall>p. \<not> prefix (cdir w root c) p \<longrightarrow> w_fs w' p = w_fs w p) \<and>
    (\<forall>d rest. d \<noteq> c \<longrightarrow> w_fs w' (at w root @ d # rest) = w_fs w (at w root @ d # rest))"
proof -
  have "deleteContainer root c w =
      (Ret None, w\<lparr>w_fs := (\<lambda>p. if prefix (cdir w root c) p then None else w_fs w p)\<rparr>)"
    using assms(1-4)
    by (intro deleteContainer_removes) (simp_all add: at_Join_name plain_Join_not_dot)
  with assms(5) show ?thesis by auto
qed

text \<open>What an id names that is not a plain name: the state root itself, or its parent.\<close>

lemma at_Join_empty: "wf_world w \<Longrightarrow> root \<noteq> [] \<Longrightarrow> at w (filepath_Join [root, []]) = at w root"
  by (simp add: at_def resolve_Join2 wf_world_def)

lemma slash_split_dotdot: "slash_split ''..'' = [''..'']"
  by simp

lemma at_Join_dotdot:
  assumes "wf_world w" and "root \<noteq> []"
  shows "at w (filepath_Join [root, ''..'']) = butlast (at w root)"
proof -
  have "plain_path (at w root)" using assms(1) by (rule at_plain)
  then have "push True ''..'' (rev (at w root)) = tl (rev (at w root))"
    by (cases "rev (at w root)")
       (auto simp: push.simps plain_name_def plain_path_def list_all_iff
         dest: arg_cong [where f = set])
  moreover have "at w (filepath_Join [root, ''..'']) = rev (push True ''..'' (rev (at w root)))"
    using assms by (simp add: at_def resolve_Join2 wf_world_def slash_split_dotdot
        del: slash_split.simps)
  ultimately show ?thesis by (metis butlast_rev rev_rev_ident)
qed

text \<open>\<open>delete\<close> checks only that an argument is present, not that it is a container id.
  With an empty id it removes the whole state root, so every container's state, and with
  \<open>..\<close> the directory the state root lies in.\<close>

theorem deleteCommand_unchecked_id:
  assumes "wf_world w" and "isAbs (g_root ctx)" and "ctx_args ctx = [cid]"
    and "cid = [] \<and> target = at w (g_root ctx) \<or> cid = ''..'' \<and> target = butlast (at w (g_root ctx))"
    and "target \<noteq> []" and "w_fault w (OpRemove target) = None"
  shows "deleteCommand ctx w =
    (Ret None, w\<lparr>w_fs := (\<lambda>p. if prefix target p then None else w_fs w p)\<rparr>)"
proof -
  have ne: "g_root ctx \<noteq> []" using assms(2) by auto
  have "at w (filepath_Join [g_root ctx, cid]) = target"
    using assms(1,4) ne at_Join_empty at_Join_dotdot by blast
  then have "deleteContainer (g_root ctx) cid w =
      (Ret None, w\<lparr>w_fs := (\<lambda>p. if prefix target p then None else w_fs w p)\<rparr>)"
    using assms ne by (intro deleteContainer_removes Join_not_dot) auto
  with assms(3) show ?thesis
    by (simp add: deleteCommand_def args_Present_def args_First_def args_Get_def)
qed

subsection \<open>Saving and printing the state\<close>

text \<open>A finished \<open>saveState\<close>: either it reported an error and wrote nothing, or it wrote.\<close>

lemma ioutil_WriteFile_None:
  assumes "ioutil_WriteFile p d m w = (Ret None, w')" and "wf_world w"
  shows "p \<noteq> [] \<and> ((\<exists>m'. w' = fs_put (at w p) (File d m') w) \<or>
    (w' = w \<and> (\<exists>m' dv. w_fs w (at w p) = Some (DevNode m' dv))))"
  using assms
  by (auto simp: ioutil_WriteFile_def fault_at_def Let_def dest: walk_Inr
      split: option.splits sum.splits node.splits oserr.splits if_splits)

lemma saveState_cases:
  assumes "saveState st c ctx w = (Ret r, w')" and "wf_world w"
  shows "(r \<noteq> None \<and> w_fs w' = w_fs w) \<or>
    (r = None \<and> (\<exists>spec rt cwd.
      setupSpec ctx w = (Ret (Inr spec), w\<lparr>w_cwd := cwd\<rparr>) \<and> sp_Root spec = Some rt \<and>
      ioutil_WriteFile (filepath_Join [filepath_Abs (w_cwd w) (g_root ctx), c, stateJSON])
        (StateDoc \<lparr>st_Version = sp_Version spec, st_ID = args_Get ctx 0, st_Status = st,
           st_Bundle = filepath_Abs cwd (rt_Path rt)\<rparr>) 438 (w\<lparr>w_cwd := cwd\<rparr>) = (Ret None, w')))"
proof -
  obtain s w1 where su: "setupSpec ctx w = (Ret s, w1)" and w1: "w1 = w\<lparr>w_cwd := w_cwd w1\<rparr>"
    by (rule setupSpec_cases)
  show ?thesis
  proof (cases s)
    case (Inl e)
    with assms(1) su w1 have "r \<noteq> None \<and> w' = w1"
      by (auto simp: saveState_def abs_path_def Let_def bnd_def)
    moreover have "w_fs w1 = w_fs w" by (subst w1) simp
    ultimately show ?thesis by simp
  next
    case (Inr spec)
    show ?thesis
    proof (cases "sp_Root spec")
      case None
      with Inr assms(1) su show ?thesis
        by (simp add: saveState_def abs_path_def Let_def bnd_def)
    next
      case (Some rt)
      obtain cwd where "w1 = w\<lparr>w_cwd := cwd\<rparr>" using w1 by blast
      with Inr Some assms(1) su show ?thesis
        by (auto simp: saveState_def abs_path_def Let_def bnd_def
            split: prod.splits outcome.splits option.splits)
    qed
  qed
qed

text \<open>Where the state is written: the state root is read before the bundle is entered.\<close>

lemma at_state_file:
  assumes "wf_world w" and "root \<noteq> []" and "plain_name c" and "plain_path cwd"
  shows "at (w\<lparr>w_cwd := cwd\<rparr>) (filepath_Join [filepath_Abs (w_cwd w) root, c, stateJSON]) =
    state_path w root c"
proof -
  have ne: "filepath_Abs (w_cwd w) root \<noteq> []"
    using isAbs_Abs [of "w_cwd w" root] by (metis isAbs_Nil)
  have "resolve cwd (filepath_Join [filepath_Abs (w_cwd w) root, c, stateJSON]) =
      resolve cwd (filepath_Abs (w_cwd w) root) @ [c, stateJSON]"
    using assms ne by (intro resolve_Join_names) auto
  also have "resolve cwd (filepath_Abs (w_cwd w) root) = resolve (w_cwd w) root"
    using assms by (intro resolve_Abs) (auto simp: wf_world_def)
  finally show ?thesis by (simp add: at_def)
qed

lemma saveState_writes:
  assumes "saveState st c ctx w = (Ret None, w')" and "wf_world w" and "g_root ctx \<noteq> []"
    and "plain_name c" and "\<forall>m d. w_fs w (state_path w (g_root ctx) c) \<noteq> Some (DevNode m d)"
  shows "\<exists>m cs cwd. w' = fs_put (state_path w (g_root ctx) c) (File (StateDoc cs) m) (w\<lparr>w_cwd := cwd\<rparr>) \<and>
    st_Status cs = st \<and> st_ID cs = args_Get ctx 0"
proof -
  obtain spec rt cwd where
    su: "setupSpec ctx w = (Ret (Inr spec), w\<lparr>w_cwd := cwd\<rparr>)" and "sp_Root spec = Some rt" and
    wr: "ioutil_WriteFile (filepath_Join [filepath_Abs (w_cwd w) (g_root ctx), c, stateJSON])
        (StateDoc \<lparr>st_Version = sp_Version spec, st_ID = args_Get ctx 0, st_Status = st,
           st_Bundle = filepath_Abs cwd (rt_Path rt)\<rparr>) 438 (w\<lparr>w_cwd := cwd\<rparr>) = (Ret None, w')"
    using saveState_cases [OF assms(1,2)] by blast
  have wf1: "wf_world (w\<lparr>w_cwd := cwd\<rparr>)"
    using keepsE [OF setupSpec_keeps(5) su] assms(2) by (simp add: wf_kept_def)
  then have "plain_path cwd" by (simp add: wf_world_def)
  then have "at (w\<lparr>w_cwd := cwd\<rparr>) (filepath_Join [filepath_Abs (w_cwd w) (g_root ctx), c, stateJSON]) =
      state_path w (g_root ctx) c"
    using assms by (intro at_state_file) auto
  with ioutil_WriteFile_None [OF wr wf1] assms(5) show ?thesis
    by fastforce
qed

text \<open>What \<open>saveState\<close> wrote is what \<open>state\<close> prints: after a \<open>saveState\<close> that reports
  no error, \<open>runu state\<close> on the same id prints a state with that id and that status.\<close>

theorem state_prints_saved:
  assumes "wf_world w" and "isAbs (g_root ctx)" and "plain_name c" and "ctx_args ctx = [c]"
    and "\<forall>m d. w_fs w (state_path w (g_root ctx) c) \<noteq> Some (DevNode m d)"
    and "w_fault w (OpOpen (state_path w (g_root ctx) c)) = None"
    and "saveState st c ctx w = (Ret None, w')"
    and "g_root ctx' = g_root ctx" and "args_First ctx' = c"
  shows "\<exists>cs. stateCommand ctx' w' = (Ret None, w'\<lparr>w_stdout := w_stdout w' @ [StateDoc cs]\<rparr>) \<and>
    st_Status cs = st \<and> st_ID cs = c"
proof -
  have ne: "g_root ctx \<noteq> []" using assms(2) by auto
  obtain m cs cwd where w': "w' = fs_put (state_path w (g_root ctx) c) (File (StateDoc cs) m)
      (w\<lparr>w_cwd := cwd\<rparr>)" and cs: "st_Status cs = st" "st_ID cs = args_Get ctx 0"
    using saveState_writes [OF assms(7,1) ne assms(3,5)] by blast
  have wf': "wf_world w'"
    using keepsE [OF saveState_keeps(1) assms(7)] assms(1) by (simp add: wf_kept_def)
  have root: "at w' (g_root ctx) = at w (g_root ctx)"
    using assms(2) by (simp add: at_def resolve_isAbs)
  have "at w' (filepath_Join [g_root ctx, c, stateJSON]) = state_path w (g_root ctx) c"
    using at_Join_names [OF wf' ne assms(3), of stateJSON] root by simp
  moreover have "walk w' (state_path w (g_root ctx) c) = Inr (File (StateDoc cs) m)"
    using wf' by (intro walk_Some) (simp_all add: wf_world_def w')
  moreover have "w_fault w' = w_fault w" by (simp add: w')
  ultimately have "ioutil_ReadFile (filepath_Join [g_root ctx, c, stateJSON]) w' =
      (Ret (Inr (StateDoc cs)), w')"
    using assms(6) ne by (simp add: ioutil_ReadFile_def fault_at_def)
  moreover have "args_Present ctx'"
    using assms(3,9) by (auto simp: args_First_def args_Get_def args_Present_def plain_name_def)
  ultimately have "stateCommand ctx' w' = (Ret None, w'\<lparr>w_stdout := w_stdout w' @ [StateDoc cs]\<rparr>)"
    using assms(8,9) by (simp add: stateCommand_def Let_def bnd_RetI stdout_Write_def)
  moreover have "st_ID cs = c" using cs(2) assms(4) by (simp add: args_Get_def)
  ultimately show ?thesis using cs(1) by blast
qed

text \<open>A relative \<open>--bundle\<close> is entered again by every call that reads the specification.
  After the first call the working directory is the bundle, so unless the bundle contains a
  directory of that relative name the second one fails: \<open>saveState\<close> reports an error and
  writes no state.\<close>

theorem saveState_relative_bundle:
  assumes "wf_world w" and "f_bundle ctx \<noteq> []" and "\<not> isAbs (f_bundle ctx)"
    and "setupSpec ctx w = (Ret (Inr spec), w1)"
    and "w_fs w (resolve (at w (f_bundle ctx)) (f_bundle ctx)) = None"
  shows "\<exists>e. saveState st c ctx w1 = (Ret (Some e), w1)"
proof -
  obtain c0 e where ch: "os_Chdir (f_bundle ctx) w = (Ret e, w\<lparr>w_cwd := c0\<rparr>)"
    using os_Chdir_outcome by blast
  with assms(2,4) have "e = None"
    by (cases e) (auto simp: setupSpec_def Let_def bnd_def)
  with ch have enter: "os_Chdir (f_bundle ctx) w =
      (Ret None, w\<lparr>w_cwd := at w (f_bundle ctx)\<rparr>)"
    by (auto simp: os_Chdir_def split: option.splits sum.splits node.splits)
  have w1: "w1 = w\<lparr>w_cwd := at w (f_bundle ctx)\<rparr>"
    using assms(2,4) loadSpec_outcome [of specConfig "w\<lparr>w_cwd := at w (f_bundle ctx)\<rparr>"]
    by (auto simp: setupSpec_def Let_def bnd_def enter)
  have gone: "w_fs w1 (at w1 (f_bundle ctx)) = None"
    using assms(5) by (simp add: w1) (simp add: at_def)
  obtain e' where "os_Chdir (f_bundle ctx) w1 = (Ret (Some e'), w1)"
    using walk_missing [OF gone] os_Chdir_def [of "f_bundle ctx"]
    by (cases "fault_at OpChdir w1 (f_bundle ctx)") auto
  then have "setupSpec ctx w1 = (Ret (Inl (EWrap ''spec: dir not found (bundle=%s,%v)''
      [f_bundle ctx] (EOs e'))), w1)"
    using assms(2) by (simp add: setupSpec_def Let_def bnd_RetI)
  then show ?thesis by (simp add: saveState_def Let_def abs_path_def bnd_def)
qed

subsection \<open>Witnesses\<close>


lemma deleteContainer_exact_witness:
  "\<exists>w'. deleteContainer ''/run/runu'' ''c1'' demo_world = (Ret None, w') \<and>
     w_fs w' [''run'', ''runu'', ''c1'', ''state.json''] = None"
proof -
  obtain r w' where run: "deleteContainer ''/run/runu'' ''c1'' demo_world = (r, w')"
    by (cases "deleteContainer ''/run/runu'' ''c1'' demo_world")
  from deleteContainer_exact [OF demo_wf _ _ _ run] run show ?thesis
    by (simp add: plain_name_def)
qed

lemma deleteCommand_unchecked_id_witness:
  "w_fs (snd (deleteCommand (demo_ctx\<lparr>ctx_args := [[]]\<rparr>) demo_world))
     [''run'', ''runu'', ''c1'', ''state.json''] = None"
proof -
  have "deleteCommand (demo_ctx\<lparr>ctx_args := [[]]\<rparr>) demo_world =
    (Ret None, demo_world\<lparr>w_fs := (\<lambda>p. if prefix [''run'', ''runu''] p then None else w_fs demo_world p)\<rparr>)"
    by (rule deleteCommand_unchecked_id [OF demo_wf]) simp_all
  then show ?thesis by simp
qed

lemma demo_save_running: "fst (saveState StateRunning ''c1'' demo_ctx demo_world) = Ret None"
  by code_simp

lemma state_prints_saved_witness:
  "\<exists>w' cs. saveState StateRunning ''c1'' demo_ctx demo_world = (Ret None, w') \<and>
     stateCommand demo_ctx w' = (Ret None, w'\<lparr>w_stdout := w_stdout w' @ [StateDoc cs]\<rparr>) \<and>
     st_Status cs = StateRunning"
proof -
  obtain w' where run: "saveState StateRunning ''c1'' demo_ctx demo_world = (Ret None, w')"
    using demo_save_running by (metis prod.collapse)
  from state_prints_saved [OF demo_wf _ _ _ _ _ run, of demo_ctx] run show ?thesis
    by (auto simp: plain_name_def args_First_def args_Get_def demo_no_devices)
qed

lemma saveState_relative_bundle_witness:
  "\<exists>w1 e. setupSpec (demo_ctx\<lparr>f_bundle := ''b''\<rparr>) demo_world = (Ret (Inr demo_spec), w1) \<and>
     saveState StateCreated ''c1'' (demo_ctx\<lparr>f_bundle := ''b''\<rparr>) w1 = (Ret (Some e), w1)"
proof -
  have "fst (setupSpec (demo_ctx\<lparr>f_bundle := ''b''\<rparr>) demo_world) = Ret (Inr demo_spec)"
    by code_simp
  then obtain w1 where run: "setupSpec (demo_ctx\<lparr>f_bundle := ''b''\<rparr>) demo_world = (Ret (Inr demo_spec), w1)"
    by (metis prod.collapse)
  have "w_fs demo_world (resolve (at demo_world ''b'') ''b'') = None"
    by code_simp
  with saveState_relative_bundle [OF demo_wf _ _ run] run show ?thesis
    by (fastforce simp: isAbs_def hasPrefix_def)
qed

end
