(* ===== verification/Container_Store.thy ===== *)
theory Container_Store
  imports State_Dir
begin

text \<open>
  The contract between the state directory and the life cycle: creating, saving and deleting
  implement a map from container ids to statuses. The locale states the laws; \<open>runu_store\<close>
  interprets it on the operations of \<open>state.go\<close>, and gives the refinement theorem that any
  sequence of successful operations acts on the directory tree as it acts on the map.
\<close>

subsection \<open>The abstract store\<close>

text \<open>An id that is not in the map has no state directory; one mapped to \<open>None\<close> has a
  directory without a readable status.\<close>

type_synonym ('i, 'st) store = "'i \<Rightarrow> 'st option option"

datatype ('i, 'st) store_op = Create 'i | Save 'i 'st | Delete 'i

fun op_id :: "('i, 'st) store_op \<Rightarrow> 'i" where
  "op_id (Create c) = c"
| "op_id (Save c s) = c"
| "op_id (Delete c) = c"

fun store_apply :: "('i, 'st) store_op \<Rightarrow> ('i, 'st) store \<Rightarrow> ('i, 'st) store" where
  "store_apply (Create c) m = m(c := Some None)"
| "store_apply (Save c s) m = m(c := Some (Some s))"
| "store_apply (Delete c) m = m(c := None)"

fun store_allows :: "('i, 'st) store_op \<Rightarrow> ('i, 'st) store \<Rightarrow> bool" where
  "store_allows (Create c) m = (m c = None)"
| "store_allows (Save c s) m = (m c \<noteq> None)"
| "store_allows (Delete c) m = True"

text \<open>A run of concrete operations, each from the state the one before left.\<close>

fun store_run :: "('w \<Rightarrow> 'e \<Rightarrow> 'w \<Rightarrow> bool) \<Rightarrow> 'w \<Rightarrow> 'e list \<Rightarrow> 'w \<Rightarrow> bool" where
  "store_run stp w [] w' = (w' = w)"
| "store_run stp w (e # es) w' = (\<exists>u. stp w e u \<and> store_run stp u es w')"

text \<open>The run of the abstract map, which also says that every operation was allowed.\<close>

fun map_run :: "('i, 'st) store \<Rightarrow> ('i, 'st) store_op list \<Rightarrow> ('i, 'st) store option" where
  "map_run m [] = Some m"
| "map_run m (e # es) = (if store_allows e m then map_run (store_apply e m) es else None)"

locale container_store =
  fixes view :: "'w \<Rightarrow> ('i, 'st) store"
    and inv :: "'w \<Rightarrow> bool"
    and ok :: "'i \<Rightarrow> bool"
    and stp :: "'w \<Rightarrow> ('i, 'st) store_op \<Rightarrow> 'w \<Rightarrow> bool"
  assumes step_inv: "inv w \<Longrightarrow> ok (op_id e) \<Longrightarrow> stp w e w' \<Longrightarrow> inv w'"
    and step_allowed: "inv w \<Longrightarrow> ok (op_id e) \<Longrightarrow> stp w e w' \<Longrightarrow> store_allows e (view w)"
    and step_view: "inv w \<Longrightarrow> ok (op_id e) \<Longrightarrow> stp w e w' \<Longrightarrow> ok d \<Longrightarrow>
      view w' d = store_apply e (view w) d"
begin

definition agree :: "'w \<Rightarrow> ('i, 'st) store \<Rightarrow> bool" where
  "agree w m \<longleftrightarrow> (\<forall>d. ok d \<longrightarrow> view w d = m d)"

lemma agree_step:
  assumes "inv w" and "ok (op_id e)" and "stp w e w'" and "agree w m"
  shows "store_allows e m \<and> agree w' (store_apply e m)"
proof -
  have "store_allows e (view w)" using assms step_allowed by blast
  moreover have "view w (op_id e) = m (op_id e)" using assms by (simp add: agree_def)
  ultimately have "store_allows e m" by (cases e) auto
  moreover have "agree w' (store_apply e m)"
  proof (unfold agree_def, intro allI impI)
    fix d assume "ok d"
    with assms have "view w' d = store_apply e (view w) d" and "view w d = m d"
      by (auto simp: agree_def intro: step_view)
    then show "view w' d = store_apply e m d" by (cases e) auto
  qed
  ultimately show ?thesis by blast
qed

lemma run_refines_agree:
  "store_run stp w es w' \<Longrightarrow> inv w \<Longrightarrow> \<forall>e \<in> set es. ok (op_id e) \<Longrightarrow> agree w m \<Longrightarrow>
     inv w' \<and> (\<exists>m'. map_run m es = Some m' \<and> agree w' m')"
proof (induction es arbitrary: w m)
  case Nil
  then show ?case by auto
next
  case (Cons e es)
  then obtain u where u: "stp w e u" "store_run stp u es w'" by auto
  with Cons.prems have "store_allows e m \<and> agree u (store_apply e m)" and "inv u"
    using agree_step [of w e u m] step_inv [of w e u] by auto
  with Cons.IH [OF u(2)] Cons.prems show ?case by auto
qed

lemma run_refines:
  assumes "store_run stp w es w'" and "inv w" and "\<forall>e \<in> set es. ok (op_id e)"
  shows "\<exists>m. map_run (view w) es = Some m \<and> (\<forall>d. ok d \<longrightarrow> view w' d = m d)"
  using run_refines_agree [OF assms, of "view w"] by (auto simp: agree_def)

text \<open>Operations on other containers do not change a container's entry.\<close>

lemma run_other:
  "store_run stp w es w' \<Longrightarrow> inv w \<Longrightarrow> \<forall>e \<in> set es. ok (op_id e) \<and> op_id e \<noteq> d \<Longrightarrow> ok d \<Longrightarrow>
     view w' d = view w d"
proof (induction es arbitrary: w)
  case (Cons e es)
  then obtain u where u: "stp w e u" "store_run stp u es w'" by auto
  with Cons.prems have "view u d = store_apply e (view w) d" and "inv u"
    using step_view [of w e u d] step_inv [of w e u] by auto
  moreover have "store_apply e (view w) d = view w d"
    using Cons.prems(3) by (cases e) auto
  ultimately show ?case using Cons.IH [OF u(2)] Cons.prems by auto
qed simp

end

subsection \<open>The state directory implements it\<close>

definition status_of :: "node option \<Rightarrow> container_status option" where
  "status_of n = (case n of Some (File (StateDoc s) m) \<Rightarrow> Some (st_Status s) | _ \<Rightarrow> None)"

definition store_view :: "string \<Rightarrow> world \<Rightarrow> (string, container_status) store" where
  "store_view root w c =
     (let d = resolve [] root @ [c]
      in if w_fs w d = None then None else Some (status_of (w_fs w (d @ [stateJSON]))))"

text \<open>
  The state root is an absolute path, nothing below it is a device, and looking a path up
  does not fail for outside reasons.
\<close>

definition store_inv :: "string \<Rightarrow> world \<Rightarrow> bool" where
  "store_inv root w \<longleftrightarrow> wf_world w \<and> isAbs root \<and> (\<forall>p. w_fault w (OpStat p) = None) \<and>
     (\<forall>p m d. prefix (resolve [] root) p \<longrightarrow> w_fs w p \<noteq> Some (DevNode m d))"

text \<open>A successful operation of \<open>state.go\<close> on the state root \<open>root\<close>.\<close>

fun store_step :: "string \<Rightarrow> world \<Rightarrow> (string, container_status) store_op \<Rightarrow> world \<Rightarrow> bool" where
  "store_step root w (Create c) w' =
     (\<exists>bundle spec. createContainer c bundle root spec w = (Ret None, w'))"
| "store_step root w (Save c st) w' =
     (\<exists>ctx. g_root ctx = root \<and> saveState st c ctx w = (Ret None, w'))"
| "store_step root w (Delete c) w' = (deleteContainer root c w = (Ret None, w'))"

lemma store_inv_root: "store_inv root w \<Longrightarrow> root \<noteq> []"
  by (auto simp: store_inv_def)

lemma store_inv_at: "store_inv root w \<Longrightarrow> at w root = resolve [] root"
  by (simp add: store_inv_def at_def resolve_isAbs [of root "w_cwd w" "[]"])

lemma store_inv_wf: "store_inv root w \<Longrightarrow> wf_world w"
  by (simp add: store_inv_def)

lemma store_inv_nodev:
  "store_inv root w \<Longrightarrow> w_fs w (resolve [] root @ p) \<noteq> Some (DevNode m d)"
  by (simp add: store_inv_def)

lemma store_inv_keep:
  assumes "store_inv root w" and "wf_kept w w'" and "static_kept w w'"
    and "\<And>p m d. w_fs w' p = Some (DevNode m d) \<Longrightarrow> w_fs w p = Some (DevNode m d)"
  shows "store_inv root w'"
  using assms unfolding store_inv_def by (auto simp: wf_kept_def static_kept_def)

text \<open>The three laws, one operation at a time.\<close>

lemma create_step:
  assumes inv: "store_inv root w" and c: "plain_name c" and st: "store_step root w (Create c) w'"
  shows "store_inv root w'" and "store_view root w c = None"
    and "plain_name d \<Longrightarrow> store_view root w' d = (if d = c then Some None else store_view root w d)"
proof -
  let ?R = "resolve [] root"
  from st obtain b spec where cr: "createContainer c b root spec w = (Ret None, w')" by auto
  have root: "at w root = ?R" and wf: "wf_world w" and ne: "root \<noteq> []"
    using inv by (simp_all add: store_inv_at store_inv_wf store_inv_root)
  have nf: "w_fault w (OpStat (cdir w root c)) = None" using inv by (simp add: store_inv_def)
  have fresh: "w_fs w (?R @ [c]) = None" and made: "w_fs w' (?R @ [c]) = Some Dir"
    and rest: "\<And>p. \<not> prefix p (?R @ [c]) \<Longrightarrow> w_fs w' p = w_fs w p"
    using createContainer_refuses [OF wf ne c nf] createContainer_makes [OF wf ne c cr] root cr
    by (cases "w_fs w (?R @ [c])", auto)
  then show "store_view root w c = None" by (simp add: store_view_def)
  have below: "w_fs w (?R @ [c, stateJSON]) = None"
    using wf_fs_parent [of "w_fs w" "?R @ [c, stateJSON]"] wf fresh
    by (cases "w_fs w (?R @ [c, stateJSON])") (auto simp: wf_world_def butlast_append)
  show "plain_name d \<Longrightarrow> store_view root w' d = (if d = c then Some None else store_view root w d)"
    using made below rest [of "?R @ [d, stateJSON]"] rest [of "?R @ [d]"]
    by (auto simp: store_view_def Let_def status_of_def)
  show "store_inv root w'"
  proof (rule store_inv_keep [OF inv])
    show "wf_kept w w'" and "static_kept w w'"
      using keepsE [OF createContainer_keeps(1) cr] keepsE [OF createContainer_keeps(2) cr] by auto
    show "w_fs w' p = Some (DevNode m e) \<Longrightarrow> w_fs w p = Some (DevNode m e)" for p m e
      using createContainer_cases [OF cr] by (auto split: if_splits)
  qed
qed

lemma save_step:
  assumes inv: "store_inv root w" and c: "plain_name c" and st: "store_step root w (Save c s) w'"
  shows "store_inv root w'" and "store_view root w c \<noteq> None"
    and "plain_name d \<Longrightarrow> store_view root w' d = (if d = c then Some (Some s) else store_view root w d)"
proof -
  let ?R = "resolve [] root"
  from st obtain ctx where ctx: "g_root ctx = root" "saveState s c ctx w = (Ret None, w')" by auto
  have root: "at w root = ?R" and wf: "wf_world w" and ne: "root \<noteq> []"
    using inv by (simp_all add: store_inv_at store_inv_wf store_inv_root)
  obtain m cs cwd where w': "w' = fs_put (?R @ [c, stateJSON]) (File (StateDoc cs) m) (w\<lparr>w_cwd := cwd\<rparr>)"
    and cs: "st_Status cs = s"
    using saveState_writes [OF ctx(2) wf] ctx(1) root ne c store_inv_nodev [OF inv] by force
  have wf': "wf_world w'"
    using keepsE [OF saveState_keeps(1) ctx(2)] wf by (simp add: wf_kept_def)
  have "w_fs w' (butlast (?R @ [c, stateJSON])) = Some Dir"
  proof (rule wf_fs_parent)
    show "wf_fs (w_fs w')" using wf' by (simp add: wf_world_def)
    show "w_fs w' (?R @ [c, stateJSON]) = Some (File (StateDoc cs) m)" by (simp add: w')
  qed simp
  then have dir: "w_fs w (?R @ [c]) = Some Dir" by (simp add: w' butlast_append)
  then show "store_view root w c \<noteq> None" by (simp add: store_view_def)
  show "plain_name d \<Longrightarrow> store_view root w' d = (if d = c then Some (Some s) else store_view root w d)"
    using dir cs by (auto simp: store_view_def Let_def status_of_def w')
  show "store_inv root w'"
  proof (rule store_inv_keep [OF inv])
    show "wf_kept w w'" and "static_kept w w'"
      using keepsE [OF saveState_keeps(1) ctx(2)] keepsE [OF saveState_keeps(2) ctx(2)] by auto
    show "w_fs w' p = Some (DevNode m' e) \<Longrightarrow> w_fs w p = Some (DevNode m' e)" for p m' e
      by (auto simp: w' split: if_splits)
  qed
qed

lemma delete_step:
  assumes inv: "store_inv root w" and c: "plain_name c" and st: "store_step root w (Delete c) w'"
  shows "store_inv root w'"
    and "plain_name d \<Longrightarrow> store_view root w' d = (if d = c then None else store_view root w d)"
proof -
  let ?R = "resolve [] root"
  from st have dl: "deleteContainer root c w = (Ret None, w')" by simp
  have root: "at w root = ?R" and wf: "wf_world w" and ne: "root \<noteq> []"
    using inv by (simp_all add: store_inv_at store_inv_wf store_inv_root)
  have at: "at w (filepath_Join [root, c]) = ?R @ [c]"
    using at_Join_name [OF wf ne c] root by simp
  have nf: "w_fault w (OpRemove (?R @ [c])) = None"
    using dl at ne plain_Join_not_dot [OF ne c]
    by (auto simp: deleteContainer_def os_RemoveAll_def bnd_def Let_def split: option.splits)
  have w': "w' = w\<lparr>w_fs := (\<lambda>p. if prefix (?R @ [c]) p then None else w_fs w p)\<rparr>"
    using deleteContainer_removes [OF wf ne at plain_Join_not_dot [OF ne c] _ nf] dl by simp
  show "plain_name d \<Longrightarrow> store_view root w' d = (if d = c then None else store_view root w d)"
    by (auto simp: store_view_def Let_def w')
  show "store_inv root w'"
  proof (rule store_inv_keep [OF inv])
    show "wf_kept w w'" and "static_kept w w'"
      using keepsE [OF deleteContainer_keeps(1) dl] keepsE [OF deleteContainer_keeps(2) dl] by auto
    show "w_fs w' p = Some (DevNode m e) \<Longrightarrow> w_fs w p = Some (DevNode m e)" for p m e
      by (auto simp: w' split: if_splits)
  qed
qed

interpretation runu_store: container_store "store_view root" "store_inv root" plain_name
    "store_step root" for root
proof unfold_locales
  fix w e w'
  assume e: "store_inv root w" "plain_name (op_id e)" "store_step root w e w'"
  show "store_inv root w'"
    using e by (cases e) (auto intro: create_step(1) save_step(1) delete_step(1) simp del: store_step.simps)
  show "store_allows e (store_view root w)"
    using e by (cases e) (auto dest: create_step(2) save_step(2) simp del: store_step.simps)
  show "store_view root w' d = store_apply e (store_view root w) d" if "plain_name d" for d
    using e that by (cases e) (auto simp: create_step(3) save_step(3) delete_step(2) simp del: store_step.simps)
qed

text \<open>C2: the state directory implements a map. Any sequence of successful create, save and
  delete operations on plain ids, in any order, leaves for every container exactly the status
  the same sequence leaves in a map, and every operation in it was one the map allows (no
  create of an existing container, no save for a missing one).\<close>

theorem state_dir_refines_map:
  assumes "store_inv root w" and "\<forall>e \<in> set es. plain_name (op_id e)"
    and "store_run (store_step root) w es w'"
  shows "\<exists>m. map_run (store_view root w) es = Some m \<and>
    (\<forall>d. plain_name d \<longrightarrow> store_view root w' d = m d)"
  using assms(3,1,2) by (rule runu_store.run_refines)

subsection \<open>Witness\<close>

lemma demo_store_inv: "store_inv ''/run/runu'' demo_world"
  by (simp add: store_inv_def demo_wf demo_no_devices)

lemma state_dir_refines_map_witness:
  "\<exists>w' m. store_run (store_step ''/run/runu'') demo_world
      [Save ''c1'' StateRunning, Delete ''c1''] w' \<and>
     map_run (store_view ''/run/runu'' demo_world) [Save ''c1'' StateRunning, Delete ''c1''] = Some m \<and>
     store_view ''/run/runu'' w' ''c1'' = m ''c1''"
proof -
  let ?es = "[Save ''c1'' StateRunning, Delete ''c1'']"
  obtain u where u: "saveState StateRunning ''c1'' demo_ctx demo_world = (Ret None, u)"
    using demo_save_running by (metis prod.collapse)
  have "fst (deleteContainer ''/run/runu'' ''c1''
      (snd (saveState StateRunning ''c1'' demo_ctx demo_world))) = Ret None"
    by code_simp
  then obtain w' where w': "deleteContainer ''/run/runu'' ''c1'' u = (Ret None, w')"
    by (metis prod.collapse snd_conv u)
  have run: "store_run (store_step ''/run/runu'') demo_world ?es w'"
    using u w' by (auto intro!: exI [of _ u] exI [of _ demo_ctx])
  have c1: "plain_name ''c1''" by (simp add: plain_name_def)
  then have "\<forall>e \<in> set ?es. plain_name (op_id e)" by simp
  from state_dir_refines_map [OF demo_store_inv this run] obtain m where
    "map_run (store_view ''/run/runu'' demo_world) ?es = Some m"
    and "\<forall>d. plain_name d \<longrightarrow> store_view ''/run/runu'' w' d = m d"
    by blast
  with run c1 show ?thesis by blast
qed

end
