(* ===== verification/Mounts.thy ===== *)
theory Mounts
  imports Demo
begin

text \<open>
  \<open>mount.go\<close>, \<open>mount_linux.go\<close> and \<open>mount_unsupported.go\<close>: the volumes of a container.
  \<open>create\<close> bind-mounts them under the root file system on Linux and refuses them elsewhere.
  The lemmas give the exact sequence of mount calls of a successful run, the flags each call
  carries, and where the mounts end up; the locale \<open>volume_mounter\<close> is what \<open>create\<close> relies
  on whatever the platform.
\<close>

subsection \<open>Flags of the environment\<close>

fun fs_flags :: "string list \<Rightarrow> bool \<times> bool \<Rightarrow> bool \<times> bool" where
  "fs_flags [] (use9pFs, hasRootFs) = (use9pFs, hasRootFs)"
| "fs_flags (env # envs) (use9pFs, hasRootFs) =
     fs_flags envs
       (if hasPrefix env ''LKL_USE_9PFS='' then True else use9pFs,
        if hasPrefix env ''LKL_ROOTFS='' then True else hasRootFs)"

definition checkFsFlags :: "oci_spec \<Rightarrow> (goerr + bool \<times> bool) io" where
  "checkFsFlags spec =
     bnd (deref (sp_Process spec)) (\<lambda>process.
       let (use9pFs, hasRootFs) = fs_flags (pr_Env process) (False, False) in
       if hasRootFs \<and> use9pFs
       then ret (Inl (EFmt ''LKL_ROOTFS and LKL_USE_9PFS cannot be specified at the same time'' []))
       else ret (Inr (use9pFs, hasRootFs)))"

subsection \<open>One mount\<close>

definition MS_RDONLY :: "64 word" where "MS_RDONLY = 1"
definition MS_REMOUNT :: "64 word" where "MS_REMOUNT = 32"
definition MS_BIND :: "64 word" where "MS_BIND = 4096"
definition MS_REC :: "64 word" where "MS_REC = 16384"
definition MS_PRIVATE :: "64 word" where "MS_PRIVATE = 262144"

lemmas ms_defs = MS_RDONLY_def MS_REMOUNT_def MS_BIND_def MS_REC_def MS_PRIVATE_def

definition prepareMount :: "string \<Rightarrow> string \<Rightarrow> (goerr option) io" where
  "prepareMount src dest =
     bnd (os_Stat src) (\<lambda>r. case r of
       Inl err \<Rightarrow> ret (Some (EOs err))
     | Inr srcStat \<Rightarrow>
         bnd (os_Stat dest) (\<lambda>r. case r of
           Inr n \<Rightarrow> ret None
         | Inl err \<Rightarrow>
             (if os_IsNotExist err then
                (if srcStat = Dir then bnd (os_MkdirAll dest 493) (\<lambda>r. ret (map_option EOs r))
                 else bnd (os_MkdirAll (filepath_Dir dest) 493) (\<lambda>r. case r of
                     Some err \<Rightarrow> ret (Some (EOs err))
                   | None \<Rightarrow> bnd (os_OpenCreate False dest 493) (\<lambda>r. case r of
                         Inl err \<Rightarrow> ret (Some (EOs err))
                       | Inr f \<Rightarrow> ret None)))
              else ret None)))"

definition doMount :: "string \<Rightarrow> string \<Rightarrow> 64 word \<Rightarrow> (goerr option) io" where
  "doMount src dest flags =
     bnd (unix_Mount src dest ''bind'' flags) (\<lambda>r. case r of
       Some err \<Rightarrow> ret (Some (EFmt ''mount %s on %s failed'' [src, dest]))
     | None \<Rightarrow>
         bnd (unix_Mount [] dest ''bind'' (MS_REC OR MS_PRIVATE)) (\<lambda>r. case r of
           Some err \<Rightarrow> ret (Some (EFmt ''mount private on %s failed'' [dest]))
         | None \<Rightarrow>
             (if flags AND MS_RDONLY \<noteq> 0 then
                bnd (unix_Mount src dest ''bind'' (flags OR MS_REMOUNT)) (\<lambda>r. case r of
                  Some err \<Rightarrow> ret (Some (EFmt ''remount %s on %s failed'' [src, dest]))
                | None \<Rightarrow> ret None)
              else ret None)))"

subsection \<open>All mounts of a specification\<close>

text \<open>Where a mount goes: under the root file system, unless its text already begins with it.\<close>

definition mount_dest :: "string \<Rightarrow> string \<Rightarrow> string" where
  "mount_dest rootfs dest = (if \<not> hasPrefix dest rootfs then filepath_Join [rootfs, dest] else dest)"

fun mount_flags :: "string list \<Rightarrow> 64 word \<Rightarrow> 64 word" where
  "mount_flags [] flags = flags"
| "mount_flags (f # fs) flags =
     mount_flags fs
       (if f = ''rbind'' then flags OR MS_BIND
        else if f = ''ro'' then flags OR MS_RDONLY
        else flags)"

text \<open>Files the engine provides for every container; they are not volumes.\<close>

definition engine_files :: "string list" where
  "engine_files = [''/etc/hosts'', ''/etc/hostname'', ''/etc/resolv.conf'', ''/dev/shm'']"

fun doMounts_loop :: "string \<Rightarrow> bool \<Rightarrow> oci_mount list \<Rightarrow> bool \<Rightarrow> (goerr + bool) io" where
  "doMounts_loop rootfs hasRootFs [] volumeMounted = ret (Inr volumeMounted)"
| "doMounts_loop rootfs hasRootFs (m # ms) volumeMounted =
     (let dest = mount_dest rootfs (m_Destination m);
          flags = mount_flags (m_Options m) MS_REC
      in if m_Type m = ''bind'' then
           (if List.member engine_files (m_Destination m)
            then doMounts_loop rootfs hasRootFs ms volumeMounted
            else if hasRootFs
            then ret (Inl (EFmt ''LKL_ROOTFS cannot be used with -v options'' []))
            else bnd (prepareMount (m_Source m) dest) (\<lambda>r. case r of
                Some err \<Rightarrow> ret (Inl err)
              | None \<Rightarrow> bnd (doMount (m_Source m) dest flags) (\<lambda>r. case r of
                  Some err \<Rightarrow> ret (Inl err)
                | None \<Rightarrow> doMounts_loop rootfs hasRootFs ms True)))
         else doMounts_loop rootfs hasRootFs ms volumeMounted)"

definition doMounts_linux :: "oci_spec \<Rightarrow> (goerr + bool) io" where
  "doMounts_linux spec =
     bnd (deref (sp_Root spec)) (\<lambda>root.
     bnd (checkFsFlags spec) (\<lambda>r. case r of
       Inl err \<Rightarrow> ret (Inl err)
     | Inr (use9pFs, hasRootFs) \<Rightarrow>
         doMounts_loop (rt_Path root) hasRootFs (sp_Mounts spec) False))"

fun goos_name :: "goos \<Rightarrow> string" where
  "goos_name Linux = ''linux''"
| "goos_name Darwin = ''darwin''"

fun doMounts_unsupported_loop :: "goos \<Rightarrow> oci_mount list \<Rightarrow> (goerr + bool) io" where
  "doMounts_unsupported_loop os [] = ret (Inr False)"
| "doMounts_unsupported_loop os (m # ms) =
     (if m_Type m = ''bind'' then
        (if List.member engine_files (m_Destination m)
         then doMounts_unsupported_loop os ms
         else ret (Inl (EFmt ''volume mount is not supported on %s: %v''
                          [goos_name os, m_Destination m])))
      else doMounts_unsupported_loop os ms)"

definition doMounts_unsupported :: "oci_spec \<Rightarrow> (goerr + bool) io" where
  "doMounts_unsupported spec =
     bnd (gets w_goos) (\<lambda>os. doMounts_unsupported_loop os (sp_Mounts spec))"

text \<open>The build tag of the two files decides which one is compiled in.\<close>

definition doMounts :: "oci_spec \<Rightarrow> (goerr + bool) io" where
  "doMounts spec = bnd (gets w_goos) (\<lambda>os.
     case os of Linux \<Rightarrow> doMounts_linux spec | Darwin \<Rightarrow> doMounts_unsupported spec)"

subsection \<open>Flags\<close>

lemma mount_flags_or:
  "mount_flags fs fl =
     fl OR (if ''rbind'' \<in> set fs then MS_BIND else 0) OR (if ''ro'' \<in> set fs then MS_RDONLY else 0)"
  by (induction fs arbitrary: fl) (auto simp: or.assoc or.left_commute or.commute)

text \<open>The flags of a mount are \<open>MS_REC\<close>, with \<open>MS_BIND\<close> exactly if the option \<open>rbind\<close> is
  listed and \<open>MS_RDONLY\<close> exactly if \<open>ro\<close> is. The option \<open>bind\<close> alone sets no \<open>MS_BIND\<close>.\<close>

theorem mount_flags_bits:
  "mount_flags opts MS_REC AND MS_REC \<noteq> 0 \<and>
   (mount_flags opts MS_REC AND MS_BIND \<noteq> 0 \<longleftrightarrow> ''rbind'' \<in> set opts) \<and>
   (mount_flags opts MS_REC AND MS_RDONLY \<noteq> 0 \<longleftrightarrow> ''ro'' \<in> set opts) \<and>
   mount_flags opts MS_REC AND MS_REMOUNT = 0"
  by (simp add: mount_flags_or ms_defs)

subsection \<open>Frames\<close>

lemma checkFsFlags_keeps:
  "(\<And>w. R w w) \<Longrightarrow> keeps R (checkFsFlags spec)"
  by (cases "sp_Process spec") (simp_all add: checkFsFlags_def keeps_def split: prod.splits)

lemmas checkFsFlags_keeps_frames [keeps_intros] =
  checkFsFlags_keeps [of wf_kept, OF wfk.frame_refl]
  checkFsFlags_keeps [of static_kept, OF stk.frame_refl]
  checkFsFlags_keeps [of procs_kept, OF prk.frame_refl]

lemma prepareMount_keeps [keeps_intros]:
  "keeps wf_kept (prepareMount s d)" "keeps static_kept (prepareMount s d)"
  "keeps trace_kept (prepareMount s d)" "keeps procs_kept (prepareMount s d)"
  unfolding prepareMount_def
  by (intro wfk.kp_rules stk.kp_rules trk.kp_rules prk.kp_rules keeps_intros)+

lemma doMount_keeps [keeps_intros]:
  "keeps wf_kept (doMount s d fl)" "keeps static_kept (doMount s d fl)"
  "keeps procs_kept (doMount s d fl)" "keeps fs_kept (doMount s d fl)"
  unfolding doMount_def
  by (intro wfk.kp_rules stk.kp_rules prk.kp_rules fsk.kp_rules keeps_intros)+

lemma doMounts_loop_keeps [keeps_intros]:
  "keeps wf_kept (doMounts_loop r h ms b)" "keeps static_kept (doMounts_loop r h ms b)"
  "keeps procs_kept (doMounts_loop r h ms b)"
  by (induction ms arbitrary: b)
     (auto simp: Let_def intro!: wfk.kp_rules stk.kp_rules prk.kp_rules keeps_intros)

lemma doMounts_unsupported_keeps [keeps_intros]: "(\<And>w. R w w) \<Longrightarrow> keeps R (doMounts_unsupported spec)"
proof -
  have "snd (doMounts_unsupported_loop os ms w) = w" for os ms w
    by (induction ms) auto
  then show "(\<And>w. R w w) \<Longrightarrow> keeps R (doMounts_unsupported spec)"
    by (simp add: doMounts_unsupported_def keeps_def bnd_def)
qed

lemma doMounts_keeps [keeps_intros]:
  "keeps wf_kept (doMounts spec)" "keeps static_kept (doMounts spec)"
  "keeps procs_kept (doMounts spec)"
proof -
  have "keeps wf_kept (doMounts_linux spec)" "keeps static_kept (doMounts_linux spec)"
    "keeps procs_kept (doMounts_linux spec)"
    unfolding doMounts_linux_def
    by (intro wfk.kp_rules stk.kp_rules prk.kp_rules keeps_intros)+
  then show "keeps wf_kept (doMounts spec)" "keeps static_kept (doMounts spec)"
    "keeps procs_kept (doMounts spec)"
    unfolding doMounts_def
    by (auto simp: keeps_def bnd_def split: goos.splits
        intro: keepsD [OF doMounts_unsupported_keeps] wfk.frame_refl stk.frame_refl prk.frame_refl)
qed

subsection \<open>What a successful run mounts\<close>

definition is_volume :: "oci_mount \<Rightarrow> bool" where
  "is_volume m \<longleftrightarrow> m_Type m = ''bind'' \<and> m_Destination m \<notin> set engine_files"

text \<open>The mount calls one volume needs: the bind mount, making it private, and, for a
  read-only one, the remount without which the read-only flag of a bind mount has no effect.\<close>

definition mount_events :: "string \<Rightarrow> oci_mount \<Rightarrow> sysev list" where
  "mount_events rootfs m =
     (let dest = mount_dest rootfs (m_Destination m);
          flags = mount_flags (m_Options m) MS_REC
      in [EvMount (m_Source m) dest ''bind'' flags,
          EvMount [] dest ''bind'' (MS_REC OR MS_PRIVATE)] @
         (if ''ro'' \<in> set (m_Options m)
          then [EvMount (m_Source m) dest ''bind'' (flags OR MS_REMOUNT)] else []))"

lemma doMount_trace:
  assumes "doMount s d fl w = (Ret None, w')"
  shows "w_trace w' = w_trace w @ [EvMount s d ''bind'' fl, EvMount [] d ''bind'' (MS_REC OR MS_PRIVATE)] @
    (if fl AND MS_RDONLY \<noteq> 0 then [EvMount s d ''bind'' (fl OR MS_REMOUNT)] else [])"
  using assms
  by (auto simp: doMount_def bnd_def unix_Mount_def split: option.splits if_splits)

lemma flags_rdonly: "mount_flags opts MS_REC AND MS_RDONLY \<noteq> 0 \<longleftrightarrow> ''ro'' \<in> set opts"
  by (simp add: mount_flags_or ms_defs)

lemma doMounts_loop_result:
  "doMounts_loop r h ms vm w = (Ret (Inr b), w') \<Longrightarrow>
     w_trace w' = w_trace w @ concat (map (mount_events r) (filter is_volume ms)) \<and>
     (b \<longleftrightarrow> vm \<or> (\<exists>m \<in> set ms. is_volume m)) \<and> (h \<longrightarrow> (\<forall>m \<in> set ms. \<not> is_volume m))"
proof (induction ms arbitrary: vm w)
  case Nil
  then show ?case by auto
next
  case (Cons m ms)
  show ?case
  proof (cases "is_volume m")
    case False
    with Cons.prems have "doMounts_loop r h ms vm w = (Ret (Inr b), w')"
      by (auto simp: is_volume_def Let_def split: if_splits)
    with Cons.IH False show ?thesis by auto
  next
    case True
    then have vol: "m_Type m = ''bind''" "\<not> List.member engine_files (m_Destination m)"
      by (auto simp: is_volume_def)
    with Cons.prems have "\<not> h" by (auto simp: Let_def split: if_splits)
    with vol Cons.prems obtain u v where
      u: "prepareMount (m_Source m) (mount_dest r (m_Destination m)) w = (Ret None, u)" and
      v: "doMount (m_Source m) (mount_dest r (m_Destination m)) (mount_flags (m_Options m) MS_REC) u = (Ret None, v)" and
      rest: "doMounts_loop r h ms True v = (Ret (Inr b), w')"
      by (auto simp: Let_def bnd_Ret_iff split: option.splits)
    have "w_trace u = w_trace w"
      using keepsE [OF prepareMount_keeps(3) u] by (simp add: trace_kept_def)
    with doMount_trace [OF v] have "w_trace v = w_trace w @ mount_events r m"
      by (simp add: mount_events_def Let_def flags_rdonly)
    with Cons.IH [OF rest] True \<open>\<not> h\<close> show ?thesis by auto
  qed
qed

text \<open>C8: on Linux a successful \<open>doMounts\<close> issues, for every volume of the specification in
  order and for nothing else, the bind mount, the call that makes it private and, if the
  volume is read-only, the remount; it reports whether there was a volume. Together with
  \<open>LKL_ROOTFS\<close> in the environment it never succeeds on a volume.\<close>

theorem doMounts_linux_exact:
  assumes "doMounts_linux spec w = (Ret (Inr b), w')"
    and "sp_Root spec = Some root" and "sp_Process spec = Some process"
  shows "w_trace w' = w_trace w @
      concat (map (mount_events (rt_Path root)) (filter is_volume (sp_Mounts spec))) \<and>
    (b \<longleftrightarrow> (\<exists>m \<in> set (sp_Mounts spec). is_volume m)) \<and>
    ((\<exists>env \<in> set (pr_Env process). hasPrefix env ''LKL_ROOTFS='') \<longrightarrow> \<not> b)"
proof -
  let ?flags = "fs_flags (pr_Env process) (False, False)"
  have flags: "snd (fs_flags envs (u, h)) \<longleftrightarrow> h \<or> (\<exists>env \<in> set envs. hasPrefix env ''LKL_ROOTFS='')"
    for envs u h by (induction envs arbitrary: u h) auto
  have "doMounts_loop (rt_Path root) (snd ?flags) (sp_Mounts spec) False w = (Ret (Inr b), w')"
    using assms by (auto simp: doMounts_linux_def checkFsFlags_def Let_def bnd_def split: prod.splits if_splits)
  from doMounts_loop_result [OF this] show ?thesis
    by (auto simp: flags)
qed

subsection \<open>The contract create relies on\<close>

text \<open>
  \<open>create\<close> only uses that a successful \<open>doMounts\<close> tells whether there is a volume, that it
  adds mount calls to the trace and nothing else, and that it starts no process.
\<close>

definition is_mount_event :: "sysev \<Rightarrow> bool" where
  "is_mount_event ev = (case ev of EvMount s d t f \<Rightarrow> True | _ \<Rightarrow> False)"

locale volume_mounter =
  fixes do_mounts :: "oci_spec \<Rightarrow> (goerr + bool) io"
  assumes reports_volumes: "do_mounts spec w = (Ret (Inr b), w') \<Longrightarrow>
      b \<longleftrightarrow> (\<exists>m \<in> set (sp_Mounts spec). is_volume m)"
    and only_mounts: "do_mounts spec w = (r, w') \<Longrightarrow>
      \<exists>evs. w_trace w' = w_trace w @ evs \<and> list_all is_mount_event evs"
    and no_process: "keeps procs_kept (do_mounts spec)"
begin

lemma no_volume_no_flag:
  "do_mounts spec w = (Ret (Inr b), w') \<Longrightarrow> \<forall>m \<in> set (sp_Mounts spec). \<not> is_volume m \<Longrightarrow> b = False"
  using reports_volumes by blast

text \<open>What another part of the program did outside mounting is still on record.\<close>

lemma other_events_stay:
  "do_mounts spec w = (r, w') \<Longrightarrow>
     filter (\<lambda>e. \<not> is_mount_event e) (w_trace w') = filter (\<lambda>e. \<not> is_mount_event e) (w_trace w)"
proof -
  assume "do_mounts spec w = (r, w')"
  then obtain evs where "w_trace w' = w_trace w @ evs" "list_all is_mount_event evs"
    using only_mounts by blast
  then show ?thesis by (simp add: list_all_iff filter_empty_conv)
qed

end

definition grows_by_mounts :: "world \<Rightarrow> world \<Rightarrow> bool" where
  "grows_by_mounts w w' \<longleftrightarrow> (\<exists>evs. w_trace w' = w_trace w @ evs \<and> list_all is_mount_event evs)"

interpretation gbm: frame_rel grows_by_mounts
proof unfold_locales
  show "grows_by_mounts s s" for s by (auto simp: grows_by_mounts_def)
  show "grows_by_mounts s t \<Longrightarrow> grows_by_mounts t u \<Longrightarrow> grows_by_mounts s u" for s t u
    by (force simp: grows_by_mounts_def)
qed

lemma trace_kept_grows: "keeps trace_kept m \<Longrightarrow> keeps grows_by_mounts m"
  by (simp add: keeps_def trace_kept_def grows_by_mounts_def)

lemma unix_Mount_grows: "keeps grows_by_mounts (unix_Mount s d t fl)"
  by (auto simp: keeps_def unix_Mount_def grows_by_mounts_def is_mount_event_def split: option.splits)

lemma doMounts_loop_grows: "keeps grows_by_mounts (doMounts_loop r h ms b)"
proof (induction ms arbitrary: b)
  case Nil
  show ?case by (simp only: doMounts_loop.simps gbm.kp_ret)
next
  case (Cons m ms)
  have "keeps grows_by_mounts (doMount s d fl)" for s d fl
    unfolding doMount_def by (intro gbm.kp_rules unix_Mount_grows)
  with Cons show ?case
    by (auto simp: Let_def intro!: gbm.kp_rules trace_kept_grows [OF prepareMount_keeps(3)])
qed

lemma doMounts_grows: "keeps grows_by_mounts (doMounts spec)"
proof -
  have "keeps grows_by_mounts (doMounts_linux spec)"
    unfolding doMounts_linux_def
    by (intro gbm.kp_rules doMounts_loop_grows checkFsFlags_keeps gbm.frame_refl)
  moreover have "keeps grows_by_mounts (doMounts_unsupported spec)"
    by (rule doMounts_unsupported_keeps) (rule gbm.frame_refl)
  ultimately show ?thesis
    by (auto simp: doMounts_def keeps_def bnd_def split: goos.splits)
qed

lemma doMounts_reports:
  assumes "doMounts spec w = (Ret (Inr b), w')"
  shows "b \<longleftrightarrow> (\<exists>m \<in> set (sp_Mounts spec). is_volume m)"
proof (cases "w_goos w")
  case Linux
  with assms have "doMounts_linux spec w = (Ret (Inr b), w')" by (simp add: doMounts_def bnd_def)
  then have "\<exists>p h. doMounts_loop p h (sp_Mounts spec) False w = (Ret (Inr b), w')"
    by (cases "sp_Root spec"; cases "sp_Process spec")
       (force simp: doMounts_linux_def checkFsFlags_def Let_def bnd_def split: prod.splits if_splits)+
  then show ?thesis by (auto dest: doMounts_loop_result)
next
  case Darwin
  have "doMounts_unsupported_loop os ms w = (Ret (Inr b), w') \<Longrightarrow>
      \<not> b \<and> (\<forall>m \<in> set ms. \<not> is_volume m)" for os ms
    by (induction ms) (auto simp: is_volume_def split: if_splits)
  with assms Darwin show ?thesis
    by (auto simp: doMounts_def doMounts_unsupported_def bnd_def)
qed

interpretation runu_mounts: volume_mounter doMounts
proof unfold_locales
  show "doMounts spec w = (Ret (Inr b), w') \<Longrightarrow> b = (\<exists>m \<in> set (sp_Mounts spec). is_volume m)"
    for spec w b w' by (rule doMounts_reports)
  show "doMounts spec w = (r, w') \<Longrightarrow>
      \<exists>evs. w_trace w' = w_trace w @ evs \<and> list_all is_mount_event evs" for spec w r w'
    using keepsE [OF doMounts_grows] by (simp add: grows_by_mounts_def)
  show "keeps procs_kept (doMounts spec)" for spec by (rule doMounts_keeps)
qed

subsection \<open>Where mounts end up\<close>

lemma slash_split_sub:
  "''..'' \<notin> set (slash_split (a @ CHR ''/'' # b)) \<Longrightarrow> ''..'' \<notin> set (slash_split b)"
  by (simp add: slash_split_append)

text \<open>A volume is mounted inside the root file system if its destination has no \<open>..\<close>
  element and, should its text begin with the text of the root's path, that path is followed
  by a slash or by nothing.\<close>

theorem mount_dest_inside:
  assumes "wf_world w" and "rootfs \<noteq> []" and "''..'' \<notin> set (slash_split dest)"
    and "hasPrefix dest rootfs \<longrightarrow> dest = rootfs \<or> hasPrefix dest (rootfs @ ''/'')"
  shows "prefix (at w rootfs) (at w (mount_dest rootfs dest))"
proof (cases "hasPrefix dest rootfs")
  case False
  with assms show ?thesis
    by (simp add: mount_dest_def at_def resolve_Join_prefix wf_world_def)
next
  case True
  show ?thesis
  proof (cases "dest = rootfs")
    case eq: True
    with True show ?thesis by (simp add: mount_dest_def)
  next
    case False
    with True assms(4) obtain v where v: "dest = rootfs @ CHR ''/'' # v"
      by (auto simp: hasPrefix_iff)
    with assms(3) have "''..'' \<notin> set (slash_split v)" by (metis slash_split_sub)
    then obtain ds where "fold (push True) (slash_split v) (rev (at w rootfs)) = ds @ rev (at w rootfs)"
      using fold_push_extends by blast
    with v True assms(2) show ?thesis
      by (simp add: mount_dest_def at_def resolve_concat prefix_def)
  qed
qed

text \<open>Both conditions are needed. The check compares texts, not path elements: a
  destination whose first elements spell a longer name than the root's last element is taken
  to be inside the root and is mounted where it says, outside. And a destination that climbs
  out with \<open>..\<close> is joined and cleaned to a path outside.\<close>

theorem mount_dest_escapes:
  assumes "wf_world w" and "plain_path p" and "plain_name n"
    and "plain_name (n @ s)" and "s \<noteq> []" and "plain_name m"
    and "rootfs = path_string (p @ [n])" and "\<not> hasPrefix (''/../'' @ m) rootfs"
  shows "at w rootfs = p @ [n] \<and>
    at w (mount_dest rootfs (path_string (p @ [n @ s]))) = p @ [n @ s] \<and>
    at w (mount_dest rootfs (''/../'' @ m)) = p @ [m]"
proof (intro conjI)
  show root: "at w rootfs = p @ [n]" using assms by (simp add: at_def)
  have join: "join_slash (q @ [a @ b]) = join_slash (q @ [a]) @ b" for q a b
    by (induction q rule: join_slash.induct) (auto simp: neq_Nil_conv append_eq_Cons_conv)
  have "hasPrefix (path_string (p @ [n @ s])) rootfs"
    unfolding assms(7) path_string_def join by (simp add: hasPrefix_def)
  then show "at w (mount_dest rootfs (path_string (p @ [n @ s]))) = p @ [n @ s]"
    using assms by (simp add: mount_dest_def at_def)
  have split: "slash_split (''/../'' @ m) = [[], ''..'', m]"
    using assms(6) by (simp add: plain_name_def slash_split_no_slash)
  have pop: "push True ''..'' (n # acc) = acc" for acc
    using assms(3) by (simp add: push.simps plain_name_def)
  have "at w (filepath_Join [rootfs, ''/../'' @ m]) =
      rev (fold (push True) [[], ''..'', m] (rev (at w rootfs)))"
    using assms(1,7) by (simp only: at_def wf_world_def resolve_Join2 path_string_nonempty split not_False_eq_True)
  also have "\<dots> = p @ [m]" using assms(6) by (simp add: root pop)
  finally show "at w (mount_dest rootfs (''/../'' @ m)) = p @ [m]"
    using assms(8) by (simp add: mount_dest_def)
qed

subsection \<open>Witnesses\<close>

definition demo_volume :: oci_mount where
  "demo_volume = \<lparr>m_Destination = ''/data'', m_Type = ''bind'', m_Source = ''/b'',
     m_Options = [''rbind'', ''ro'']\<rparr>"

lemma doMounts_linux_exact_witness:
  "\<exists>w'. doMounts_linux (demo_spec\<lparr>sp_Mounts := [demo_volume]\<rparr>) demo_world = (Ret (Inr True), w') \<and>
     w_trace w' = mount_events ''/b/rootfs'' demo_volume"
proof -
  let ?sp = "demo_spec\<lparr>sp_Mounts := [demo_volume]\<rparr>"
  have "fst (doMounts_linux ?sp demo_world) = Ret (Inr True)" by code_simp
  then obtain w' where run: "doMounts_linux ?sp demo_world = (Ret (Inr True), w')"
    by (metis prod.collapse)
  have "is_volume demo_volume" by code_simp
  with doMounts_linux_exact [OF run] run show ?thesis
    by (auto simp: demo_spec_def Example_def demo_world_def)
qed

lemma mount_dest_inside_witness:
  "prefix [''b'', ''rootfs''] (at demo_world (mount_dest ''/b/rootfs'' ''/data''))"
  using mount_dest_inside [OF demo_wf, of "''/b/rootfs''" "''/data''"]
  by (simp add: hasPrefix_def demo_at resolve_def push.simps)

lemma mount_dest_escapes_witness:
  "at demo_world (mount_dest ''/b/rootfs'' ''/b/rootfs-old'') = [''b'', ''rootfs-old''] \<and>
   at demo_world (mount_dest ''/b/rootfs'' ''/../etc'') = [''b'', ''etc'']"
  using mount_dest_escapes [OF demo_wf, of "[''b'']" "''rootfs''" "''-old''" "''etc''" "''/b/rootfs''"]
  by (simp add: plain_name_def path_string_def hasPrefix_def)

end
