(* ===== verification/Devices.thy ===== *)
theory Devices
  imports Demo
begin

text \<open>
  \<open>devices.go\<close>, \<open>devices_linux.go\<close> and \<open>devices_darwin.go\<close>: device nodes of the container and
  the descriptors of disks, configuration files and network interfaces that are passed to the
  unikernel. The lemmas say that the device number encodes major and minor as the Linux kernel
  decodes them, that \<open>htons\<close> swaps the bytes, and that every successful open takes the lowest
  free descriptor and leaves the others alone, which is what the descriptor hand-over needs.
\<close>

subsection \<open>Device nodes\<close>

record device =
  dev_Type :: char
  dev_Path :: string
  dev_Major :: "64 word"
  dev_Minor :: "64 word"
  dev_Permissions :: string
  dev_FileMode :: filemode
  dev_Uid :: "32 word"
  dev_Gid :: "32 word"
  dev_Allow :: bool

fun DefaultDevices :: "goos \<Rightarrow> device list" where
  "DefaultDevices Linux =
     [\<lparr>dev_Type = CHR ''c'', dev_Path = ''/dev/urandom'', dev_Major = 1, dev_Minor = 9,
       dev_Permissions = ''rwm'', dev_FileMode = 438, dev_Uid = 0, dev_Gid = 0, dev_Allow = False\<rparr>,
      \<lparr>dev_Type = CHR ''c'', dev_Path = ''/dev/net/tun'', dev_Major = 10, dev_Minor = 200,
       dev_Permissions = ''rwm'', dev_FileMode = 438, dev_Uid = 0, dev_Gid = 0, dev_Allow = False\<rparr>]"
| "DefaultDevices Darwin =
     [\<lparr>dev_Type = CHR ''c'', dev_Path = ''/dev/urandom'', dev_Major = 14, dev_Minor = 1,
       dev_Permissions = ''rwm'', dev_FileMode = 438, dev_Uid = 0, dev_Gid = 0, dev_Allow = False\<rparr>]"

definition S_IFIFO :: filemode where "S_IFIFO = 4096"
definition S_IFCHR :: filemode where "S_IFCHR = 8192"
definition S_IFBLK :: filemode where "S_IFBLK = 24576"

text \<open>The file type bits \<open>mknodDevice\<close> adds, or nothing for an unknown device type.\<close>

definition device_type_bits :: "char \<Rightarrow> filemode option" where
  "device_type_bits t =
     (if t = CHR ''c'' \<or> t = CHR ''u'' then Some S_IFCHR
      else if t = CHR ''b'' then Some S_IFBLK
      else if t = CHR ''p'' then Some S_IFIFO
      else None)"

definition device_number :: "64 word \<Rightarrow> 64 word \<Rightarrow> 64 word" where
  "device_number major minor =
     push_bit 8 major OR (minor AND 0xff) OR push_bit 12 (minor AND 0xfff00)"

definition mknodDevice :: "string \<Rightarrow> device \<Rightarrow> (goerr option) io" where
  "mknodDevice dest node =
     (case device_type_bits (dev_Type node) of
        None \<Rightarrow> ret (Some (EFmt ''%c is not a valid device type for device %s''
                       [[dev_Type node], dev_Path node]))
      | Some bits \<Rightarrow>
          (let fileMode = dev_FileMode node OR bits;
               dNum = sint (device_number (dev_Major node) (dev_Minor node))
           in bnd (unix_Mknod dest fileMode dNum) (\<lambda>r. case r of
                Some err \<Rightarrow> ret (Some (EOs err))
              | None \<Rightarrow> bnd (unix_Chown dest (uint (dev_Uid node)) (uint (dev_Gid node)))
                          (\<lambda>r. ret (map_option EOs r)))))"

definition createDeviceNode :: "string \<Rightarrow> device \<Rightarrow> (goerr option) io" where
  "createDeviceNode rootfs node =
     (let dest = filepath_Join [rootfs, dev_Path node] in
      bnd (os_MkdirAll (filepath_Dir dest) 493) (\<lambda>r. case r of
        Some err \<Rightarrow> ret (Some (EOs err))
      | None \<Rightarrow> mknodDevice dest node))"

subsection \<open>Disks and configuration files\<close>

definition openRootfsFd :: "string \<Rightarrow> (gofile \<times> bool) io" where
  "openRootfsFd file = bnd (os_OpenFd file True False) (\<lambda>r. case r of
      Inl err \<Rightarrow> go_panic ''open root file system''
    | Inr fd \<Rightarrow> ret (Some fd, True))"

definition openJsonFd :: "string \<Rightarrow> (gofile \<times> bool) io" where
  "openJsonFd file = bnd (os_OpenFd file False False) (\<lambda>r. case r of
      Inl err \<Rightarrow> go_panic ''open configuration''
    | Inr fd \<Rightarrow> ret (Some fd, False))"

subsection \<open>Network interfaces\<close>

definition tunDevice :: string where "tunDevice = ''/dev/net/tun''"
definition tunFCsum :: int where "tunFCsum = 1"
definition tunFTso4 :: int where "tunFTso4 = 2"
definition virtioNetHdrSize :: int where "virtioNetHdrSize = 12"
definition ETHTOOL_GTXCSUM :: int where "ETHTOOL_GTXCSUM = 0x16"
definition ETHTOOL_STXCSUM :: int where "ETHTOOL_STXCSUM = 0x17"

definition IFF_TAP :: "16 word" where "IFF_TAP = 2"
definition IFF_NO_PI :: "16 word" where "IFF_NO_PI = 0x1000"
definition IFF_VNET_HDR :: "16 word" where "IFF_VNET_HDR = 0x4000"

record ifReq =
  ifr_Name :: string
  ifr_Flags :: "16 word"

text \<open>\<open>copy\<close> into the first 15 bytes of the zeroed 16-byte name.\<close>

definition ifr_name_of :: "string \<Rightarrow> string" where
  "ifr_name_of ifname = take 15 ifname @ replicate (16 - length (take 15 ifname)) (CHR 0x00)"

definition wants_offload :: "string list \<Rightarrow> bool" where
  "wants_offload specEnv \<longleftrightarrow> list_ex (\<lambda>v. hasPrefix v ''LKL_OFFLOAD='') specEnv"

definition tap_request :: "string \<Rightarrow> bool \<Rightarrow> ifReq" where
  "tap_request ifname offload =
     \<lparr>ifr_Name = ifr_name_of ifname,
      ifr_Flags = (if offload then IFF_TAP OR IFF_NO_PI OR IFF_VNET_HDR else IFF_TAP OR IFF_NO_PI)\<rparr>"

text \<open>An \<open>ioctl\<close> on a descriptor: it is traced when it succeeds.\<close>

definition ioctl :: "string \<Rightarrow> string \<Rightarrow> int \<Rightarrow> (oserr option) io" where
  "ioctl req name arg = (\<lambda>w. case w_fault w (OpIoctl req) of
      Some e \<Rightarrow> (Ret (Some e), w)
    | None \<Rightarrow> (Ret None, emit (EvIoctl req name arg) w))"

text \<open>What a descriptor refers to from now on, and its mode.\<close>

definition fd_becomes :: "nat \<Rightarrow> fdobj \<Rightarrow> bool \<Rightarrow> unit io" where
  "fd_becomes n ob nb = modify (\<lambda>w. w\<lparr>w_fds := fd_set (w_fds w) n \<lparr>fd_obj = ob, fd_nonblock = nb\<rparr>\<rparr>)"

definition must :: "string \<Rightarrow> oserr option \<Rightarrow> unit io" where
  "must msg r = (case r of Some e \<Rightarrow> go_panic msg | None \<Rightarrow> ret ())"

definition openNetTapFd :: "string \<Rightarrow> string list \<Rightarrow> (gofile \<times> bool) io" where
  "openNetTapFd ifname specEnv =
     (let offload = wants_offload specEnv; ifr = tap_request ifname offload in
      bnd (os_OpenFd tunDevice True True) (\<lambda>r. case r of
        Inl err \<Rightarrow> go_panic ''open /dev/net/tun''
      | Inr tapDev \<Rightarrow>
          bnd (ioctl ''TUNSETIFF'' (ifr_Name ifr) (uint (ifr_Flags ifr))) (\<lambda>errno.
          thn (must ''TUNSETIFF'' errno) (
          thn (fd_becomes tapDev (FTap (take 15 ifname)) True) (
          thn (if offload then
                 bnd (ioctl ''TUNSETVNETHDRSZ'' (ifr_Name ifr) virtioNetHdrSize) (\<lambda>errno.
                 thn (must ''TUNSETVNETHDRSZ'' errno) (
                 bnd (ioctl ''TUNSETOFFLOAD'' (ifr_Name ifr) (tunFCsum OR tunFTso4)) (\<lambda>errno.
                 must ''TUNSETOFFLOAD'' errno)))
               else ret ())
          (ret (Some tapDev, True)))))))"

definition htons :: "16 word \<Rightarrow> 16 word" where
  "htons i = (push_bit 8 i AND 0xff00) OR drop_bit 8 i"

definition ETH_P_ALL :: "16 word" where "ETH_P_ALL = 3"

text \<open>A failing call the code answers with a panic.\<close>

definition sys_must :: "sysop \<Rightarrow> string \<Rightarrow> unit io" where
  "sys_must op msg = bnd (gets (\<lambda>w. w_fault w op)) (must msg)"

definition disableTxCsumOffloadForRawsock :: "string \<Rightarrow> (goerr option) io" where
  "disableTxCsumOffloadForRawsock ifname =
     thn (sys_must OpSocket ''socket'') (
     bnd (ioctl ''SIOCETHTOOL/STXCSUM'' (take 16 ifname) ETHTOOL_STXCSUM) (\<lambda>errno.
     thn (must ''ETHTOOL_STXCSUM'' errno) (
     bnd (ioctl ''SIOCETHTOOL/GTXCSUM'' (take 16 ifname) ETHTOOL_GTXCSUM) (\<lambda>errno.
     thn (must ''ETHTOOL_GTXCSUM'' errno)
     (ret None)))))"

definition openNetRawsockFd :: "string \<Rightarrow> string list \<Rightarrow> (gofile \<times> bool) io" where
  "openNetRawsockFd ifname specEnv =
     thn (sys_must OpSocket ''open raw socket'') (
     bnd (open_fd (FPacket []) False) (\<lambda>fd.
     thn (sys_must (OpIfByName ifname) ''cannot find interface'') (
     thn (sys_must (OpBind ifname) ''cannot bind to interface'') (
     thn (fd_becomes fd (FPacket ifname) False) (
     thn (sys_must (OpSockopt ''PACKET_ADD_MEMBERSHIP'') ''set promiscuous'') (
     thn (modify (emit (EvSockopt ''PACKET_MR_PROMISC'' 1))) (
     thn (sys_must (OpSockopt ''PACKET_VNET_HDR'') ''set vnethdr sockopt'') (
     thn (modify (emit (EvSockopt ''PACKET_VNET_HDR'' 0))) (
     bnd (syscall_SetNonblock fd True) (\<lambda>r.
     thn (must ''set nonblocking'' r)
     (ret (Some fd, True))))))))))))"

definition openNetFd_linux :: "string \<Rightarrow> string list \<Rightarrow> (gofile \<times> bool) io" where
  "openNetFd_linux ifname specEnv =
     (if hasPrefix ifname ''eth'' then openNetRawsockFd ifname specEnv
      else if hasPrefix ifname ''tap'' then openNetTapFd ifname specEnv
      else ret (None, False))"

definition openNetFd_darwin :: "string \<Rightarrow> string list \<Rightarrow> (gofile \<times> bool) io" where
  "openNetFd_darwin ifname specEnv = bnd (os_OpenFd (''/dev/'' @ ifname) True True) (\<lambda>r. case r of
      Inl err \<Rightarrow> go_panic ''open device''
    | Inr tapDev \<Rightarrow> ret (Some tapDev, True))"

definition openNetFd :: "string \<Rightarrow> string list \<Rightarrow> (gofile \<times> bool) io" where
  "openNetFd ifname specEnv = bnd (gets w_goos) (\<lambda>os. case os of
      Linux \<Rightarrow> openNetFd_linux ifname specEnv
    | Darwin \<Rightarrow> openNetFd_darwin ifname specEnv)"

subsection \<open>Device numbers\<close>

text \<open>How the Linux kernel takes a device number apart (12 bits of major, 20 of minor).\<close>

definition linux_major :: "64 word \<Rightarrow> 64 word" where
  "linux_major d = drop_bit 8 d AND 0xfff"

definition linux_minor :: "64 word \<Rightarrow> 64 word" where
  "linux_minor d = (d AND 0xff) OR (drop_bit 12 d AND 0xfff00)"

lemma masks_64:
  "(0xff :: 64 word) = mask 8" "(0xfff :: 64 word) = mask 12"
  "(0xfff00 :: 64 word) = push_bit 8 (mask 12)"
  by (simp_all add: mask_eq_exp_minus_1)

lemma bit_below:
  fixes x :: "64 word"
  assumes "x < 2 ^ k" and "k < 64" and "bit x n"
  shows "n < k"
proof -
  from assms(2) have "unat (2 ^ k :: 64 word) = 2 ^ k"
    using unsigned_of_nat [of "2 ^ k", where ?'b = 64 and ?'a = nat]
    by (simp add: take_bit_nat_eq_self)
  with assms(1) have "unat x < 2 ^ k"
    by (simp add: word_less_nat_alt)
  then have "take_bit k (unat x) = unat x"
    by (simp add: take_bit_nat_eq_self)
  moreover from assms(3) have "bit (unat x) n"
    by (simp add: bit_unsigned_iff bit_imp_le_length)
  ultimately show ?thesis
    by (metis bit_take_bit_iff)
qed

text \<open>The device number that \<open>mknodDevice\<close> computes is the one the Linux kernel reads the
  same major and minor back from, for every 12-bit major and 20-bit minor.\<close>

theorem device_number_roundtrip:
  assumes "major < 2 ^ 12" and "minor < 2 ^ 20"
  shows "linux_major (device_number major minor) = major \<and>
    linux_minor (device_number major minor) = minor"
proof
  show "linux_major (device_number major minor) = major"
  proof (rule bit_word_eqI)
    fix n assume "n < LENGTH(64)"
    then show "bit (linux_major (device_number major minor)) n = bit major n"
      using bit_below [OF assms(1), of n]
      by (auto simp: linux_major_def device_number_def masks_64 bit_simps)
  qed
  show "linux_minor (device_number major minor) = minor"
  proof (rule bit_word_eqI)
    fix n assume "n < LENGTH(64)"
    then show "bit (linux_minor (device_number major minor)) n = bit minor n"
      using bit_below [OF assms(2), of n] bit_below [OF assms(1), of "n + 12 - 8"]
      by (auto simp: linux_minor_def device_number_def masks_64 bit_simps)
  qed
qed


subsection \<open>Byte order\<close>

lemma ifr_name_takeWhile:
  assumes "CHR 0x00 \<notin> set n"
  shows "takeWhile (\<lambda>c. c \<noteq> CHR 0x00) (ifr_name_of n) = take 15 n"
proof -
  have "\<forall>c\<in>set (take 15 n). c \<noteq> CHR 0x00" using assms by (auto dest: in_set_takeD)
  then show ?thesis unfolding ifr_name_of_def by (subst takeWhile_append2) auto
qed



text \<open>\<open>htons\<close> swaps the two bytes of a 16-bit value, so it is its own inverse.\<close>

theorem htons_swaps:
  "(\<forall>n < 8. bit (htons i) n = bit i (n + 8) \<and> bit (htons i) (n + 8) = bit i n) \<and> htons (htons i) = i"
proof -
  have m: "(0xff00 :: 16 word) = push_bit 8 (mask 8)" by (simp add: mask_eq_exp_minus_1)
  have b: "bit (htons i) n = (if n < 8 then bit i (n + 8) else n < 16 \<and> bit i (n - 8))" for i n
    by (auto simp: htons_def m bit_simps add.commute [of 8] dest: bit_imp_le_length)
  moreover have "htons (htons i) = i"
    by (rule bit_word_eqI) (auto simp: b)
  moreover have "bit (htons i) (n + 8) = bit i n" if "n < 8" for n
    using b [of i "n + 8"] that by simp
  ultimately show ?thesis using b [of i] by simp
qed

subsection \<open>Descriptors\<close>

text \<open>\<open>opened w n ob nb w'\<close>: from \<open>w\<close> to \<open>w'\<close> exactly the lowest free descriptor \<open>n\<close> was
  taken, for \<open>ob\<close>.\<close>

definition opened :: "world \<Rightarrow> nat \<Rightarrow> fdobj \<Rightarrow> bool \<Rightarrow> world \<Rightarrow> bool" where
  "opened w n ob nb w' \<longleftrightarrow> n = lowest_free (w_fds w) \<and>
     w_fds w' = fd_set (w_fds w) n \<lparr>fd_obj = ob, fd_nonblock = nb\<rparr>"

lemma fd_set_set: "n \<le> length t \<Longrightarrow> fd_set (fd_set t n x) n y = fd_set t n y"
  by (auto simp: fd_set_def)

lemma os_OpenFd_opens:
  "os_OpenFd p rw nb w = (Ret (Inr n), w') \<Longrightarrow> opened w n (FFile (at w p)) nb w'"
  by (auto simp: os_OpenFd_def opened_def open_fd_def bnd_def Let_def
      split: option.splits sum.splits if_splits)

lemma openRootfsFd_opens:
  "openRootfsFd file w = (Ret (f, b), w') \<Longrightarrow>
     b = True \<and> (\<exists>n. f = Some n \<and> opened w n (FFile (at w file)) False w')"
  by (auto simp: openRootfsFd_def bnd_Ret_iff split_sum_ex dest: os_OpenFd_opens)

lemma openJsonFd_opens:
  "openJsonFd file w = (Ret (f, b), w') \<Longrightarrow>
     b = False \<and> (\<exists>n. f = Some n \<and> opened w n (FFile (at w file)) False w')"
  by (auto simp: openJsonFd_def bnd_Ret_iff split_sum_ex dest: os_OpenFd_opens)

lemma must_Ret: "must msg r w = (Ret x, w') \<longleftrightarrow> r = None \<and> x = () \<and> w' = w"
  by (auto simp: must_def split: option.splits)

lemma sys_must_Ret: "sys_must op msg w = (Ret x, w') \<longleftrightarrow> w_fault w op = None \<and> w' = w"
  by (auto simp: sys_must_def bnd_Ret_iff must_Ret)

lemma ioctl_fds: "ioctl r s a w = (Ret x, w') \<Longrightarrow> w_fds w' = w_fds w"
  by (auto simp: ioctl_def split: option.splits)

lemma openNetRawsockFd_opens:
  assumes "openNetRawsockFd ifname env w = (Ret (f, b), w')"
  shows "b = True \<and> (\<exists>n. f = Some n \<and> opened w n (FPacket ifname) True w')"
proof -
  let ?n = "lowest_free (w_fds w)"
  have le: "?n \<le> length (w_fds w)" by (rule lowest_free_le_length)
  from assms show ?thesis
    by (auto simp: openNetRawsockFd_def thn_Ret_iff bnd_Ret_iff sys_must_Ret must_Ret open_fd_def
        Let_def fd_becomes_def syscall_SetNonblock_def opened_def fd_set_set [OF le]
        fd_get_set [OF le] split: option.splits)
qed

lemma openNetTapFd_opens:
  assumes "openNetTapFd ifname env w = (Ret (f, b), w')"
  shows "b = True \<and> (\<exists>n. f = Some n \<and> opened w n (FTap (take 15 ifname)) True w')"
proof -
  let ?n = "lowest_free (w_fds w)"
  have le: "?n \<le> length (w_fds w)" by (rule lowest_free_le_length)
  from assms have "\<exists>n u. os_OpenFd tunDevice True True w = (Ret (Inr n), u) \<and> f = Some n \<and> b \<and>
    w_fds w' = fd_set (w_fds u) n \<lparr>fd_obj = FTap (take 15 ifname), fd_nonblock = True\<rparr>"
    by (auto simp: openNetTapFd_def Let_def bnd_iffs must_Ret fd_becomes_def
        split: if_splits dest!: ioctl_fds)
  then obtain n u where op: "os_OpenFd tunDevice True True w = (Ret (Inr n), u)"
    and fin: "w_fds w' = fd_set (w_fds u) n \<lparr>fd_obj = FTap (take 15 ifname), fd_nonblock = True\<rparr>"
      "f = Some n" "b = True"
    by auto
  from os_OpenFd_opens [OF op] fin le show ?thesis
    by (simp add: opened_def fd_set_set)
qed

text \<open>What an interface name is opened as.\<close>

definition net_object :: "goos \<Rightarrow> string \<Rightarrow> fdobj option" where
  "net_object os ifname =
     (case os of
        Darwin \<Rightarrow> Some (FFile (resolve [] (''/dev/'' @ ifname)))
      | Linux \<Rightarrow> if hasPrefix ifname ''eth'' then Some (FPacket ifname)
                 else if hasPrefix ifname ''tap'' then Some (FTap (take 15 ifname))
                 else None)"

lemma openNetFd_opens:
  assumes "openNetFd ifname env w = (Ret (f, b), w')"
  shows "case net_object (w_goos w) ifname of
      Some ob \<Rightarrow> b = True \<and> (\<exists>n. f = Some n \<and> opened w n ob True w')
    | None \<Rightarrow> f = None \<and> b = False \<and> w' = w"
proof (cases "w_goos w")
  case Linux
  with assms have "openNetFd_linux ifname env w = (Ret (f, b), w')"
    by (simp add: openNetFd_def bnd_def)
  with Linux show ?thesis
    by (auto simp: openNetFd_linux_def net_object_def
        dest: openNetRawsockFd_opens openNetTapFd_opens split: if_splits)
next
  case Darwin
  with assms have "openNetFd_darwin ifname env w = (Ret (f, b), w')"
    by (simp add: openNetFd_def bnd_def)
  moreover have "at w (''/dev/'' @ ifname) = resolve [] (''/dev/'' @ ifname)"
    by (simp add: at_def resolve_def)
  ultimately show ?thesis using Darwin
    by (auto simp: openNetFd_darwin_def net_object_def bnd_Ret_iff split_sum_ex dest!: os_OpenFd_opens)
qed

subsection \<open>Witnesses\<close>

lemma device_number_roundtrip_witness:
  "linux_major (device_number 10 200) = 10 \<and> linux_minor (device_number 10 200) = 200"
  by (rule device_number_roundtrip) simp_all

lemma htons_swaps_witness:
  "bit (htons ETH_P_ALL) (0 + 8) = bit ETH_P_ALL 0 \<and> htons (htons ETH_P_ALL) = ETH_P_ALL"
  using htons_swaps [of ETH_P_ALL] by (metis zero_less_numeral)


end
