(* ===== verification/Net.thy ===== *)
theory Net
  imports Devices
begin

text \<open>
  \<open>utils_linux.go\<close> and \<open>utils_darwin.go\<close>: the network configuration of a container is taken
  from the network namespace that its specification names. The packages \<open>netlink\<close> and
  \<open>netns\<close> and the interface tables of the kernel are not part of the program: their answers,
  which depend on the namespace the process is in, are the fields of a record the model is
  given. Addresses are byte strings, as \<open>net.IP\<close> is.
\<close>

subsection \<open>Addresses\<close>

type_synonym ip = "8 word list"

definition v4InV6Prefix :: ip where
  "v4InV6Prefix = replicate 10 0 @ [0xff, 0xff]"

text \<open>\<open>net.IP.To4\<close>; \<open>nil\<close> is the empty byte string.\<close>

definition IP_To4 :: "ip \<Rightarrow> ip" where
  "IP_To4 a =
     (if length a = 4 then a
      else if length a = 16 \<and> take 12 a = v4InV6Prefix then drop 12 a
      else [])"

definition hex_digit :: "nat \<Rightarrow> char" where
  "hex_digit n = ''0123456789abcdef'' ! (n mod 16)"

text \<open>A 16-bit group in hexadecimal without leading zeros.\<close>

definition hex16 :: "nat \<Rightarrow> string" where
  "hex16 n =
     (let ds = [hex_digit (n div 4096), hex_digit (n div 256), hex_digit (n div 16), hex_digit n];
          ds' = dropWhile (\<lambda>c. c = CHR ''0'') ds
      in if ds' = [] then ''0'' else ds')"

fun groups16 :: "ip \<Rightarrow> nat list" where
  "groups16 (a # b # r) = (unat a * 256 + unat b) # groups16 r"
| "groups16 _ = []"

text \<open>Start and length of the first longest run of zero groups.\<close>

fun zero_run :: "nat \<Rightarrow> nat list \<Rightarrow> nat \<times> nat \<Rightarrow> nat \<times> nat" where
  "zero_run i [] best = best"
| "zero_run i (g # gs) (s, n) =
     (let k = length (takeWhile (\<lambda>x. x = 0) (g # gs))
      in zero_run (Suc i) gs (if k > n then (i, k) else (s, n)))"

fun strings_Join :: "string list \<Rightarrow> string \<Rightarrow> string" where
  "strings_Join [] sep = []"
| "strings_Join [x] sep = x"
| "strings_Join (x # y # r) sep = x @ sep @ strings_Join (y # r) sep"

text \<open>\<open>net.IP.String\<close>: dotted decimal, or the groups with the longest zero run collapsed.\<close>

definition IP_String :: "ip \<Rightarrow> string" where
  "IP_String a =
     (if a = [] then ''<nil>''
      else if IP_To4 a \<noteq> [] then strings_Join (map (\<lambda>b. itoa (uint b)) (IP_To4 a)) ''.''
      else if length a = 16 then
        (let gs = map hex16 (groups16 a); (s, n) = zero_run 0 (groups16 a) (0, 1)
         in if n < 2 then strings_Join gs '':''
            else strings_Join (take s gs) '':'' @ ''::'' @ strings_Join (drop (s + n) gs) '':'')
      else ''?'' @ concat (map (\<lambda>b. [hex_digit (unat b div 16), hex_digit (unat b)]) a))"

definition mask_bits :: "ip \<Rightarrow> bool list" where
  "mask_bits m = concat (map (\<lambda>b. map (bit b) [7, 6, 5, 4, 3, 2, 1, 0]) m)"

text \<open>\<open>simpleMaskLength\<close>: the number of leading ones, if nothing but zeros follows them.\<close>

definition simpleMaskLength :: "ip \<Rightarrow> nat option" where
  "simpleMaskLength m =
     (let bs = mask_bits m; n = length (takeWhile (\<lambda>b. b) bs)
      in if list_ex (\<lambda>b. b) (drop n bs) then None else Some n)"

text \<open>The first result of \<open>net.IPMask.Size\<close>.\<close>

definition Mask_Size :: "ip \<Rightarrow> int" where
  "Mask_Size m = (case simpleMaskLength m of None \<Rightarrow> 0 | Some n \<Rightarrow> int n)"

record ipnet =
  in_IP :: ip
  in_Mask :: ip

text \<open>\<open>net.IPNet.String\<close>, with the pairing of address and mask lengths it does first.\<close>

definition network_number :: "ipnet \<Rightarrow> (ip \<times> ip) option" where
  "network_number n =
     (let a = (if IP_To4 (in_IP n) \<noteq> [] then IP_To4 (in_IP n)
               else if length (in_IP n) = 16 then in_IP n else []);
          m = in_Mask n
      in if a = [] then None
         else if length m = 4 then (if length a = 4 then Some (a, m) else None)
         else if length m = 16 then Some (a, if length a = 4 then drop 12 m else m)
         else None)"

definition IPNet_String :: "ipnet \<Rightarrow> string" where
  "IPNet_String n = (case network_number n of
      None \<Rightarrow> ''<nil>''
    | Some (a, m) \<Rightarrow> IP_String a @ ''/'' @ (case simpleMaskLength m of
          Some k \<Rightarrow> itoa (int k)
        | None \<Rightarrow> concat (map (\<lambda>b. [hex_digit (unat b div 16), hex_digit (unat b)]) m)))"

text \<open>A mask of \<open>n\<close> ones has size \<open>n\<close>.\<close>

lemma Mask_Size_ones: "mask_bits m = replicate n True @ replicate k False \<Longrightarrow> Mask_Size m = int n"
  by (cases k) (auto simp: Mask_Size_def simpleMaskLength_def Let_def takeWhile_append list_ex_iff)

subsection \<open>What the kernel and the network packages answer\<close>

record nl_link =
  lk_Name :: string
  lk_Index :: int

record nl_route =
  ro_Dst :: "ipnet option"
  ro_Gw :: ip
  ro_LinkIndex :: int

datatype ifaddr = AddrIPNet ipnet | AddrOther string

record netenv =
  nt_GetFromName :: "string \<Rightarrow> goerr + string"
  nt_GetFromPath :: "string \<Rightarrow> goerr + string"
  nt_Set :: "string \<Rightarrow> goerr option"
  nt_LinkByName :: "string \<Rightarrow> string \<Rightarrow> goerr + nl_link"
  nt_LinkByIndex :: "string \<Rightarrow> int \<Rightarrow> goerr + nl_link"
  nt_VethPeerIndex :: "string \<Rightarrow> nl_link \<Rightarrow> goerr + int"
  nt_InterfaceByIndex :: "string \<Rightarrow> int \<Rightarrow> goerr + string"
  nt_RouteGet :: "string \<Rightarrow> string \<Rightarrow> goerr + nl_route list"
  nt_RouteList :: "string \<Rightarrow> nl_link \<Rightarrow> goerr + nl_route list"
  nt_Interfaces :: "string \<Rightarrow> string list"
  nt_Addrs :: "string \<Rightarrow> string \<Rightarrow> ifaddr list"
  nt_ParseAddr :: "string \<Rightarrow> goerr + string"
  nt_AddrDel :: "string \<Rightarrow> nl_link \<Rightarrow> string \<Rightarrow> goerr option"

text \<open>A query is answered for the namespace the process is in.\<close>

definition nq :: "(string \<Rightarrow> 'a) \<Rightarrow> 'a io" where
  "nq f = gets (\<lambda>w. f (w_ns w))"

text \<open>\<open>netns.Get\<close>, \<open>netns.GetFromName\<close> and \<open>netns.GetFromPath\<close> open a descriptor;
  \<open>netns.Set\<close> enters the namespace a descriptor refers to.\<close>

definition netns_Get :: "nat io" where
  "netns_Get = bnd (gets w_ns) (\<lambda>n. open_fd (FNetns n) False)"

definition netns_open :: "goerr + string \<Rightarrow> (goerr + nat) io" where
  "netns_open r = (case r of
      Inl e \<Rightarrow> ret (Inl e)
    | Inr n \<Rightarrow> bnd (open_fd (FNetns n) False) (\<lambda>fd. ret (Inr fd)))"

definition netns_Set :: "netenv \<Rightarrow> nat \<Rightarrow> (goerr option) io" where
  "netns_Set N fd = bnd (gets (\<lambda>w. map_option fd_obj (fd_get (w_fds w) fd))) (\<lambda>i. case i of
      Some (FNetns n) \<Rightarrow> (case nt_Set N n of
          Some e \<Rightarrow> ret (Some e)
        | None \<Rightarrow> thn (modify (\<lambda>w. emit (EvSetns n) (w\<lparr>w_ns := n\<rparr>))) (ret None))
    | _ \<Rightarrow> ret (Some (EOs EBADF)))"

subsection \<open>The namespace of the specification\<close>

text \<open>The path of the first network namespace; no section and no entry give the empty string.\<close>

fun first_net_ns :: "oci_namespace list \<Rightarrow> string" where
  "first_net_ns [] = []"
| "first_net_ns (v # vs) = (if ns_Type v = NetworkNamespace then ns_Path v else first_net_ns vs)"

definition netnsPath :: "oci_spec \<Rightarrow> string" where
  "netnsPath spec = (case sp_Linux spec of
      None \<Rightarrow> []
    | Some l \<Rightarrow> first_net_ns (l_Namespaces l))"

definition netnsDir :: string where
  "netnsDir = ''/var/run/netns/''"

text \<open>The look-up inside the namespace; the original one is closed on every return.\<close>

definition veth_peer :: "netenv \<Rightarrow> nat \<Rightarrow> nat \<Rightarrow> (string option) io" where
  "veth_peer N origns nsh =
     bnd (netns_Set N nsh) (\<lambda>r. case r of
       Some err \<Rightarrow> ret None
     | None \<Rightarrow> bnd (nq (\<lambda>n. nt_LinkByName N n ''eth0'')) (\<lambda>r. case r of
         Inl err \<Rightarrow> ret None
       | Inr vEth \<Rightarrow> bnd (nq (\<lambda>n. nt_VethPeerIndex N n vEth)) (\<lambda>r. case r of
           Inl err \<Rightarrow> ret None
         | Inr ifIndex \<Rightarrow>
             bnd (netns_Set N origns) (\<lambda>_.
             bnd (nq (\<lambda>n. nt_InterfaceByIndex N n ifIndex)) (\<lambda>r. case r of
               Inl err \<Rightarrow> ret None
             | Inr iface \<Rightarrow> ret (Some iface))))))"

definition getVethHost :: "netenv \<Rightarrow> oci_spec \<Rightarrow> (string option) io" where
  "getVethHost N spec =
     (if \<not> strings_Contains (netnsPath spec) netnsDir then ret None
      else bnd netns_Get (\<lambda>origns.
        bnd (netns_open (nt_GetFromName N (strings_Replace1 (netnsPath spec) netnsDir []))) (\<lambda>r.
        bnd (case r of Inl err \<Rightarrow> ret None | Inr nsh \<Rightarrow> veth_peer N origns nsh) (\<lambda>iface.
        thn (close_fd origns) (ret iface)))))"

subsection \<open>Routes\<close>

record lklRoute =
  Destination :: string
  Nexthop :: string

text \<open>One round of the loop. A link that is not found is logged and then used: a panic.\<close>

definition route_of :: "netenv \<Rightarrow> string \<Rightarrow> nl_route \<Rightarrow> string outcome" where
  "route_of N ns route =
     (if ro_Gw route \<noteq> [] then Ret (IP_String (ro_Gw route))
      else case nt_LinkByIndex N ns (ro_LinkIndex route) of
          Inl err \<Rightarrow> Panic ''nil pointer dereference''
        | Inr ifgw \<Rightarrow> Ret (lk_Name ifgw))"

fun retrieve_loop :: "netenv \<Rightarrow> nl_route list \<Rightarrow> (lklRoute list) io" where
  "retrieve_loop N [] = ret []"
| "retrieve_loop N (route # rest) =
     (case ro_Dst route of
        None \<Rightarrow> retrieve_loop N rest
      | Some dst \<Rightarrow>
          bnd (gets w_ns) (\<lambda>ns. case route_of N ns route of
            Ret hop \<Rightarrow> bnd (retrieve_loop N rest) (\<lambda>rs.
              ret (\<lparr>Destination = IPNet_String dst, Nexthop = hop\<rparr> # rs))
          | Panic p \<Rightarrow> go_panic p
          | Hang \<Rightarrow> hang))"

definition retrieveRouteInfo :: "netenv \<Rightarrow> (goerr + lklRoute list) io" where
  "retrieveRouteInfo N = bnd (nq (\<lambda>n. nt_LinkByName N n ''eth0'')) (\<lambda>r. case r of
      Inl err \<Rightarrow> ret (Inl (EWrap ''cannot find link eth0: (%v)'' [] err))
    | Inr link \<Rightarrow> bnd (nq (\<lambda>n. nt_RouteList N n link)) (\<lambda>r. case r of
        Inl err \<Rightarrow> ret (Inl (EWrap ''cannot list routes: (%v)'' [] err))
      | Inr routes \<Rightarrow> bnd (retrieve_loop N routes) (\<lambda>rs. ret (Inr rs))))"

subsection \<open>Addresses of the interface\<close>

record lklIfInfo =
  ifAddrs :: "ipnet list"
  ifName :: string
  v4Gw :: ip

text \<open>The command of the specification; a missing section or an empty list is a panic.\<close>

definition process_arg0 :: "oci_spec \<Rightarrow> string io" where
  "process_arg0 spec = bnd (deref (sp_Process spec)) (\<lambda>p. case pr_Args p of
      [] \<Rightarrow> go_panic ''index out of range''
    | a # _ \<Rightarrow> ret a)"

text \<open>The loop over the addresses: the first IPv4 address is recorded and taken off the
  interface, unless the container is the pause container; the loop stops there.\<close>

fun take_addr :: "netenv \<Rightarrow> oci_spec \<Rightarrow> string \<Rightarrow> ifaddr list \<Rightarrow> lklIfInfo \<Rightarrow> (goerr + lklIfInfo) io" where
  "take_addr N spec iface [] info = ret (Inr info)"
| "take_addr N spec iface (AddrOther s # rest) info =
     ret (Inl (EFmt ''address is not IPNet: %+v'' [s]))"
| "take_addr N spec iface (AddrIPNet ipNet # rest) info =
     (if IP_To4 (in_IP ipNet) = [] then take_addr N spec iface rest info
      else
        let info' = info\<lparr>ifAddrs := ifAddrs info @ [ipNet], ifName := ''eth0''\<rparr> in
        bnd (nq (\<lambda>n. nt_LinkByName N n iface)) (\<lambda>r. case r of
          Inl err \<Rightarrow> ret (Inl (EWrap ''getting link for interface %q: %v'' [iface] err))
        | Inr ifaceLink \<Rightarrow> (case nt_ParseAddr N (IPNet_String ipNet) of
            Inl err \<Rightarrow> ret (Inl (EWrap ''parse address error %v: %v'' [iface] err))
          | Inr r4addr \<Rightarrow>
              bnd (process_arg0 spec) (\<lambda>arg0.
                if arg0 \<noteq> ''/pause'' then
                  bnd (nq (\<lambda>n. nt_AddrDel N n ifaceLink r4addr)) (\<lambda>r. case r of
                    Some err \<Rightarrow> ret (Inl (EWrap ''removing address %v from device %q: %v''
                                  [iface, IPNet_String ipNet] err))
                  | None \<Rightarrow> thn (modify (emit (EvAddrDel (lk_Name ifaceLink) r4addr))) (ret (Inr info')))
                else ret (Inr info')))))"

definition getVethInfo :: "netenv \<Rightarrow> oci_spec \<Rightarrow> (goerr + lklIfInfo \<times> lklRoute list) io" where
  "getVethInfo N spec =
     bnd (nq (\<lambda>n. nt_RouteGet N n ''8.8.8.8'')) (\<lambda>r. case r of
       Inl err \<Rightarrow> ret (Inl (EFmt ''Could not determine single default route (got %v)'' [''0'']))
     | Inr [] \<Rightarrow> go_panic ''index out of range''
     | Inr (v4gw # _) \<Rightarrow>
         bnd (retrieveRouteInfo N) (\<lambda>r. case r of
           Inl err \<Rightarrow> ret (Inl (EWrap ''Error during route retrival (got %v)'' [] err))
         | Inr routeInfo \<Rightarrow>
             (let info = \<lparr>ifAddrs = [], ifName = [], v4Gw = ro_Gw v4gw\<rparr> in
              bnd (nq (nt_Interfaces N)) (\<lambda>ifaces.
                if ''eth0'' \<in> set ifaces then
                  bnd (nq (\<lambda>n. nt_Addrs N n ''eth0'')) (\<lambda>allAddrs.
                  bnd (take_addr N spec ''eth0'' allAddrs info) (\<lambda>r.
                    ret (map_sum (\<lambda>e. e) (\<lambda>i. (i, routeInfo)) r)))
                else ret (Inr (info, routeInfo))))))"

text \<open>The second half of \<open>setupNetwork\<close>: enter the namespace and read its configuration.\<close>

definition enter_netns ::
  "netenv \<Rightarrow> oci_spec \<Rightarrow> (goerr + (lklIfInfo \<times> lklRoute list) option) io" where
  "enter_netns N spec =
     (if netnsPath spec = [] then ret (Inr None)
      else bnd (netns_open (nt_GetFromPath N (netnsPath spec))) (\<lambda>r. case r of
          Inl err \<Rightarrow> ret (Inl (EWrap ''unable to get netns handle %s'' [] err))
        | Inr nsh \<Rightarrow> bnd (netns_Set N nsh) (\<lambda>r. case r of
            Some err \<Rightarrow> ret (Inl (EWrap ''unable to get set netns %s'' [] err))
          | None \<Rightarrow> bnd (getVethInfo N spec) (\<lambda>r. ret (map_sum (\<lambda>e. e) Some r)))))"

text \<open>Checksum offload of the peer interface is switched off before that.\<close>

definition peer_offload_off :: "netenv \<Rightarrow> oci_spec \<Rightarrow> unit io" where
  "peer_offload_off N spec =
     bnd (getVethHost N spec) (\<lambda>vethHostIf. case vethHostIf of
       None \<Rightarrow> ret ()
     | Some name \<Rightarrow> bnd (disableTxCsumOffloadForRawsock name) (\<lambda>_. ret ()))"

definition setupNetwork_linux ::
  "netenv \<Rightarrow> oci_spec \<Rightarrow> (goerr + (lklIfInfo \<times> lklRoute list) option) io" where
  "setupNetwork_linux N spec = thn (peer_offload_off N spec) (enter_netns N spec)"

definition setupNetwork_darwin :: "oci_spec \<Rightarrow> (goerr + (lklIfInfo \<times> lklRoute list) option) io" where
  "setupNetwork_darwin spec = ret (Inr None)"

definition setupNetwork ::
  "netenv \<Rightarrow> oci_spec \<Rightarrow> (goerr + (lklIfInfo \<times> lklRoute list) option) io" where
  "setupNetwork N spec = bnd (gets w_goos) (\<lambda>os. case os of
      Linux \<Rightarrow> setupNetwork_linux N spec
    | Darwin \<Rightarrow> setupNetwork_darwin spec)"

subsection \<open>Frames\<close>

text \<open>A query that is answered without a change.\<close>

lemma nq_keeps: "(\<And>w. R w w) \<Longrightarrow> keeps R (nq f)"
  by (simp add: keeps_def nq_def)

lemmas nq_frames [keeps_intros] =
  nq_keeps [of "(=)", OF idk.frame_refl]
  nq_keeps [of fs_kept, OF fsk.frame_refl] nq_keeps [of static_kept, OF stk.frame_refl]
  nq_keeps [of fds_kept, OF fdk.frame_refl] nq_keeps [of procs_kept, OF prk.frame_refl]
  nq_keeps [of wf_kept, OF wfk.frame_refl] nq_keeps [of trace_kept, OF trk.frame_refl]

text \<open>What the network code leaves alone altogether.\<close>

definition net_kept :: "world \<Rightarrow> world \<Rightarrow> bool" where
  "net_kept w w' \<longleftrightarrow> w_fs w' = w_fs w \<and> w_cwd w' = w_cwd w \<and> w_env w' = w_env w \<and>
     static_kept w w' \<and> procs_kept w w' \<and> w_stdout w' = w_stdout w"

interpretation ntk: frame_rel net_kept
  by unfold_locales (auto simp: net_kept_def static_kept_def procs_kept_def)

lemma nq_net_kept [keeps_intros]: "keeps net_kept (nq f)"
  by (rule nq_keeps [OF ntk.frame_refl])

lemma fd_ops_net_kept [keeps_intros]:
  "keeps net_kept (open_fd ob nb)" "keeps net_kept (close_fd n)"
  "keeps net_kept (modify (emit ev))" "keeps net_kept (modify (\<lambda>w. emit ev (w\<lparr>w_ns := ns\<rparr>)))"
  "keeps net_kept (ioctl r s a)" "keeps net_kept (fd_becomes n ob nb)"
  by (auto simp: keeps_def net_kept_def static_kept_def procs_kept_def open_fd_def close_fd_def
      ioctl_def fd_becomes_def Let_def split: option.splits)

lemma plain_fd_ops_keep_fds [keeps_intros]:
  "keeps fds_kept (modify (emit ev))" "keeps fds_kept (modify (\<lambda>w. emit ev (w\<lparr>w_ns := ns\<rparr>)))"
  "keeps fds_kept (ioctl r s a)"
  by (auto simp: keeps_def ioctl_def intro!: fds_keptI split: option.splits)

lemma netns_Set_keeps [keeps_intros]: "keeps net_kept (netns_Set N fd)" "keeps fds_kept (netns_Set N fd)"
  by (auto simp: keeps_def netns_Set_def bnd_def thn_def net_kept_def static_kept_def procs_kept_def
      intro!: fds_keptI split: option.splits fdobj.splits)

lemma netns_open_keeps [keeps_intros]: "keeps net_kept (netns_open r)" "keeps fds_kept (netns_open r)"
  unfolding netns_open_def
  by (intro ntk.kp_rules fdk.kp_rules keeps_intros)+

lemma must_keeps: "(\<And>w. R w w) \<Longrightarrow> keeps R (must m r)" "(\<And>w. R w w) \<Longrightarrow> keeps R (sys_must op m)"
  by (auto simp: keeps_def must_def sys_must_def bnd_def split: option.splits)

lemmas must_frames [keeps_intros] = must_keeps [of net_kept, OF ntk.frame_refl]
  must_keeps [of fds_kept, OF fdk.frame_refl]

lemma veth_peer_keeps [keeps_intros]:
  "keeps net_kept (veth_peer N i j)" "keeps fds_kept (veth_peer N i j)"
  unfolding veth_peer_def
  by (intro ntk.kp_rules fdk.kp_rules keeps_intros)+

lemma disableTxCsum_keeps [keeps_intros]:
  "keeps net_kept (disableTxCsumOffloadForRawsock n)" "keeps fds_kept (disableTxCsumOffloadForRawsock n)"
  unfolding disableTxCsumOffloadForRawsock_def
  by (intro ntk.kp_rules fdk.kp_rules keeps_intros)+

lemma getVethHost_net_kept [keeps_intros]: "keeps net_kept (getVethHost N spec)"
  unfolding getVethHost_def netns_Get_def
  by (intro ntk.kp_rules keeps_intros)+

text \<open>Closing the descriptor of the original namespace frees a number above all older ones.\<close>

lemma close_later_keeps:
  assumes "fds_kept w v" and "lowest_free (w_fds w) \<le> n"
  shows "fds_kept w (snd (close_fd n v))"
proof -
  have "fd_get ((w_fds v)[n := None]) i = fd_get (w_fds v) i" if "i < lowest_free (w_fds w)" for i
    using that assms(2) by (simp add: fd_get_def)
  with assms(1) show ?thesis by (simp add: fds_kept_def close_fd_def)
qed

lemma open_use_close_keeps:
  assumes "\<And>n. keeps fds_kept (k n)"
  shows "keeps fds_kept (bnd (open_fd ob nb) (\<lambda>n. bnd (k n) (\<lambda>x. thn (close_fd n) (ret x))))"
proof (rule keepsI)
  fix w :: world
  let ?n = "lowest_free (w_fds w)"
  obtain v where op: "open_fd ob nb w = (Ret ?n, v)" by (simp add: open_fd_def Let_def)
  then have wv: "fds_kept w v" using keepsE [OF open_fd_keeps_fds] by blast
  obtain r u where run: "k ?n v = (r, u)" by force
  then have u: "fds_kept w u" using keepsE [OF assms] fdk.frame_trans [OF wv] by blast
  have "fds_kept w (snd (close_fd ?n u))" by (rule close_later_keeps [OF u]) simp
  with u show "fds_kept w (snd (bnd (open_fd ob nb) (\<lambda>n. bnd (k n) (\<lambda>x. thn (close_fd n) (ret x))) w))"
    by (cases r) (simp_all add: bnd_def op run thn_def close_fd_def)
qed

lemma getVethHost_fds_kept [keeps_intros]: "keeps fds_kept (getVethHost N spec)"
proof -
  let ?k = "\<lambda>n. bnd (netns_open (nt_GetFromName N (strings_Replace1 (netnsPath spec) netnsDir []))) (\<lambda>r.
        case r of Inl err \<Rightarrow> ret None | Inr nsh \<Rightarrow> veth_peer N n nsh)"
  have k: "keeps fds_kept (?k n)" for n by (intro fdk.kp_rules keeps_intros)
  have eq: "getVethHost N spec = (if \<not> strings_Contains (netnsPath spec) netnsDir then ret None
      else bnd (gets w_ns) (\<lambda>ns. bnd (open_fd (FNetns ns) False) (\<lambda>n.
        bnd (?k n) (\<lambda>x. thn (close_fd n) (ret x)))))"
    by (simp add: getVethHost_def netns_Get_def bnd_assoc)
  show ?thesis unfolding eq
    by (intro fdk.kp_if fdk.kp_ret fdk.kp_bnd [of "gets w_ns"] fdk.kp_gets open_use_close_keeps k)
qed

lemma retrieve_loop_look: "keeps (=) (retrieve_loop N rs)"
proof (induction rs)
  case (Cons r rs)
  have "keeps (=) (case route_of N ns r of
        Ret hop \<Rightarrow> bnd (retrieve_loop N rs) (\<lambda>rs. ret (\<lparr>Destination = d, Nexthop = hop\<rparr> # rs))
      | Panic p \<Rightarrow> go_panic p | Hang \<Rightarrow> hang)" for ns d
    by (cases "route_of N ns r") (simp_all, (intro idk.kp_rules Cons.IH)+)
  then show ?case
    by (cases "ro_Dst r") (auto intro!: idk.kp_bnd idk.kp_gets Cons.IH)
qed (simp add: keeps_def)

lemma retrieveRouteInfo_look: "keeps (=) (retrieveRouteInfo N)"
  unfolding retrieveRouteInfo_def
  by (intro idk.kp_rules keeps_intros retrieve_loop_look)+

lemmas retrieveRouteInfo_keeps = pure_keeps [OF retrieveRouteInfo_look]
lemmas retrieveRouteInfo_state [simp] = pure_state [OF retrieveRouteInfo_look]

lemma process_arg0_look: "keeps (=) (process_arg0 spec)"
  by (cases "sp_Process spec") (auto simp: keeps_def process_arg0_def split: list.splits)

lemma take_addr_keeps [keeps_intros]:
  "keeps net_kept (take_addr N spec iface as info)" "keeps fds_kept (take_addr N spec iface as info)"
  by (induction N spec iface as info rule: take_addr.induct)
    (auto simp: Let_def intro!: ntk.kp_rules fdk.kp_rules keeps_intros
      pure_keeps [OF process_arg0_look] ntk.frame_refl fdk.frame_refl split: sum.splits)

lemma setupNetwork_keeps [keeps_intros]:
  "keeps net_kept (setupNetwork N spec)" "keeps fds_kept (setupNetwork N spec)"
  unfolding setupNetwork_def setupNetwork_linux_def peer_offload_off_def enter_netns_def setupNetwork_darwin_def getVethInfo_def Let_def
  by (auto intro!: ntk.kp_rules fdk.kp_rules keeps_intros retrieveRouteInfo_keeps
      ntk.frame_refl fdk.frame_refl split: goos.splits list.splits sum.splits option.splits)

text \<open>The addresses taken off interfaces, in a trace.\<close>

definition addr_dels :: "sysev list \<Rightarrow> sysev list" where
  "addr_dels tr = filter (\<lambda>e. case e of EvAddrDel _ _ \<Rightarrow> True | _ \<Rightarrow> False) tr"

definition dels_kept :: "world \<Rightarrow> world \<Rightarrow> bool" where
  "dels_kept w w' \<longleftrightarrow> addr_dels (w_trace w') = addr_dels (w_trace w)"

interpretation dlk: frame_rel dels_kept
  by unfold_locales (auto simp: dels_kept_def)

lemma basic_dels [keeps_intros]:
  "keeps dels_kept (nq f)" "keeps dels_kept (open_fd ob nb)" "keeps dels_kept (close_fd n)"
  "keeps dels_kept (ioctl r s a)" "keeps dels_kept (netns_Set N fd)"
  "keeps dels_kept (must m e)" "keeps dels_kept (sys_must op m)"
  by (auto simp: keeps_def dels_kept_def addr_dels_def nq_def open_fd_def close_fd_def ioctl_def
      netns_Set_def must_def sys_must_def bnd_def thn_def Let_def
      split: option.splits fdobj.splits)

lemma derived_dels [keeps_intros]:
  "keeps dels_kept (getVethHost N spec)" "keeps dels_kept (disableTxCsumOffloadForRawsock n)"
  "keeps dels_kept (netns_open r)" "keeps dels_kept (peer_offload_off N spec)"
  unfolding peer_offload_off_def getVethHost_def netns_Get_def veth_peer_def disableTxCsumOffloadForRawsock_def netns_open_def
  by (intro dlk.kp_rules keeps_intros)+

subsection \<open>The address the unikernel gets\<close>

text \<open>A specification without a network namespace, or with one that has no path, is not
  configured: no address is reported and nothing in the machine changes.\<close>

theorem setupNetwork_no_netns:
  assumes "netnsPath spec = []"
  shows "setupNetwork N spec w = (Ret (Inr None), w)"
proof -
  have "\<not> strings_Contains (netnsPath spec) netnsDir"
    using assms by (simp add: netnsDir_def) code_simp
  with assms show ?thesis
    by (simp add: setupNetwork_def setupNetwork_linux_def peer_offload_off_def enter_netns_def setupNetwork_darwin_def getVethHost_def
        bnd_def thn_def split: goos.splits)
qed

text \<open>The first IPv4 address of a list of addresses.\<close>

fun first_v4 :: "ifaddr list \<Rightarrow> ipnet option" where
  "first_v4 [] = None"
| "first_v4 (AddrOther s # as) = None"
| "first_v4 (AddrIPNet n # as) = (if IP_To4 (in_IP n) = [] then first_v4 as else Some n)"

text \<open>What the loop over the addresses did, when it finished without an error.\<close>

lemma take_addr_None:
  "take_addr N spec iface as info w = (Ret (Inr info'), w') \<Longrightarrow> first_v4 as = None \<Longrightarrow>
     info' = info \<and> w' = w"
  by (induction as rule: first_v4.induct) (auto split: if_splits)

lemma take_addr_Some:
  assumes "take_addr N spec iface as info w = (Ret (Inr info'), w')" and "first_v4 as = Some a"
  shows "info' = info\<lparr>ifAddrs := ifAddrs info @ [a], ifName := ''eth0''\<rparr> \<and>
    (\<exists>p lk addr. sp_Process spec = Some p \<and> pr_Args p \<noteq> [] \<and>
       nt_LinkByName N (w_ns w) iface = Inr lk \<and> nt_ParseAddr N (IPNet_String a) = Inr addr \<and>
       (if hd (pr_Args p) = ''/pause'' then w' = w
        else nt_AddrDel N (w_ns w) lk addr = None \<and> w' = emit (EvAddrDel (lk_Name lk) addr) w))"
  using assms
proof (induction as rule: first_v4.induct)
  case (3 n as)
  show ?case
  proof (cases "IP_To4 (in_IP n) = []")
    case True
    with 3 show ?thesis by simp
  next
    case False
    with 3 have a: "a = n" by simp
    show ?thesis
      using "3.prems"(1) False unfolding a
      by (auto simp: Let_def bnd_iffs nq_def process_arg0_def deref_def neq_Nil_conv
          split: option.splits sum.splits list.splits if_splits)
  qed
qed simp_all

lemma dels_kept_emit:
  "addr_dels (w_trace (emit (EvAddrDel l a) w)) = addr_dels (w_trace w) @ [EvAddrDel l a]"
  by (simp add: addr_dels_def)

text \<open>Up to \<open>getVethInfo\<close>, \<open>setupNetwork\<close> enters the namespace and takes no address away.\<close>

lemma setupNetwork_enters:
  assumes "setupNetwork N spec w = (Ret (Inr (Some x)), w')"
  obtains u where "getVethInfo N spec u = (Ret (Inr x), w')" and "dels_kept w u"
    and "nt_GetFromPath N (netnsPath spec) = Inr (w_ns u)"
proof -
  have "w_goos w = Linux"
    using assms by (auto simp: setupNetwork_def setupNetwork_darwin_def bnd_def split: goos.splits)
  with assms have "setupNetwork_linux N spec w = (Ret (Inr (Some x)), w')"
    by (simp add: setupNetwork_def bnd_def)
  then obtain v where run: "enter_netns N spec v = (Ret (Inr (Some x)), w')" and wv: "dels_kept w v"
    by (auto simp: setupNetwork_linux_def thn_Ret_iff dest: keepsE [OF derived_dels(4)])
  from run obtain n u where open_ns: "nt_GetFromPath N (netnsPath spec) = Inr n"
    and u: "netns_Set N (lowest_free (w_fds v)) (snd (open_fd (FNetns n) False v)) = (Ret None, u)"
    and info: "getVethInfo N spec u = (Ret (Inr x), w')"
    by (auto simp: enter_netns_def netns_open_def bnd_iffs open_fd_def Let_def
        split: sum.splits option.splits if_splits)
  from u have "w_ns u = n"
    by (auto simp: netns_Set_def open_fd_def Let_def bnd_iffs fd_get_open split: option.splits)
  moreover have "dels_kept v u"
    using keepsE [OF basic_dels(5) u] by (simp add: dels_kept_def open_fd_def Let_def)
  ultimately show thesis using that info open_ns wv dlk.frame_trans by blast
qed

lemma getVethInfo_result:
  assumes "getVethInfo N spec u = (Ret (Inr (info, routes)), w')"
  obtains g where "if ''eth0'' \<in> set (nt_Interfaces N (w_ns u))
      then take_addr N spec ''eth0'' (nt_Addrs N (w_ns u) ''eth0'')
             \<lparr>ifAddrs = [], ifName = [], v4Gw = g\<rparr> u = (Ret (Inr info), w')
      else info = \<lparr>ifAddrs = [], ifName = [], v4Gw = g\<rparr> \<and> w' = u"
proof -
  have same: "retrieveRouteInfo N u = (r, v) \<Longrightarrow> v = u" for r v
    by (metis retrieveRouteInfo_state snd_conv)
  from assms show thesis
    by (auto simp: getVethInfo_def Let_def bnd_iffs nq_def intro: that dest!: same
        split: sum.splits list.splits if_splits)
qed


subsection \<open>Witnesses\<close>

definition demo_addr :: ipnet where
  "demo_addr = \<lparr>in_IP = v4InV6Prefix @ [10, 1, 2, 3], in_Mask = [255, 255, 255, 0]\<rparr>"

text \<open>A machine whose pod namespace has an \<open>eth0\<close> with an IPv6 and an IPv4 address.\<close>

definition demo_net :: netenv where
  "demo_net =
     \<lparr>nt_GetFromName = (\<lambda>s. Inl (EOs ENOENT)), nt_GetFromPath = (\<lambda>s. Inr ''pod''),
      nt_Set = (\<lambda>n. None),
      nt_LinkByName = (\<lambda>ns n. Inr \<lparr>lk_Name = n, lk_Index = 2\<rparr>),
      nt_LinkByIndex = (\<lambda>ns i. Inr \<lparr>lk_Name = ''eth0'', lk_Index = i\<rparr>),
      nt_VethPeerIndex = (\<lambda>ns l. Inl (EOs ENODEV)),
      nt_InterfaceByIndex = (\<lambda>ns i. Inl (EOs ENODEV)),
      nt_RouteGet = (\<lambda>ns d. Inr [\<lparr>ro_Dst = None, ro_Gw = [10, 1, 2, 1], ro_LinkIndex = 2\<rparr>]),
      nt_RouteList = (\<lambda>ns l. Inr
        [\<lparr>ro_Dst = None, ro_Gw = [10, 1, 2, 1], ro_LinkIndex = 2\<rparr>,
         \<lparr>ro_Dst = Some \<lparr>in_IP = [10, 1, 2, 0], in_Mask = [255, 255, 255, 0]\<rparr>, ro_Gw = [], ro_LinkIndex = 2\<rparr>]),
      nt_Interfaces = (\<lambda>ns. [''lo'', ''eth0'']),
      nt_Addrs = (\<lambda>ns n. [AddrIPNet \<lparr>in_IP = replicate 15 0 @ [1], in_Mask = replicate 16 255\<rparr>, AddrIPNet demo_addr]),
      nt_ParseAddr = (\<lambda>s. Inr s), nt_AddrDel = (\<lambda>ns l a. None)\<rparr>"

definition demo_pod_spec :: oci_spec where
  "demo_pod_spec = demo_spec\<lparr>sp_Linux := Some
     \<lparr>l_MaskedPaths = [], l_ReadonlyPaths = [], l_Devices = [],
      l_Namespaces = [\<lparr>ns_Type = NetworkNamespace, ns_Path = ''/proc/7/ns/net''\<rparr>]\<rparr>\<rparr>"

lemma setupNetwork_no_netns_witness:
  "setupNetwork demo_net demo_spec demo_world = (Ret (Inr None), demo_world)"
  by (rule setupNetwork_no_netns) code_simp


end
