(* ===== verification/Lkl_Config.thy ===== *)
theory Lkl_Config
  imports Net
begin

text \<open>
  The configuration file of the library operating system (\<open>lklConfig\<close> in \<open>utils.go\<close>) and
  \<open>generateLklJsonFile\<close>, which combines the user's file with the address and the routes of the
  container. Encoding follows the \<open>json\<close> tags of the structs (\<open>omitempty\<close>), decoding follows
  \<open>encoding/json\<close>: field names match without regard to case, unknown fields are ignored,
  \<open>null\<close> leaves a string as it is and a repeated field is decoded over the earlier value. The
  lemmas say that decoding inverts encoding and what exactly ends up in the file.
\<close>

subsection \<open>Data\<close>

record lklInterface =
  MacAddr :: string
  V4Addr :: string
  V4MaskLen :: string
  V6Addr :: string
  V6MaskLen :: string
  li_Name :: string
  Iftype :: string
  Offload :: string

record lklConfig =
  V4Gateway :: string
  Interfaces :: "lklInterface list"
  Debug :: string
  DelayMain :: string
  SingleCpu :: string
  Sysctl :: string
  Routes :: string

definition zero_interface :: lklInterface where
  "zero_interface = \<lparr>MacAddr = [], V4Addr = [], V4MaskLen = [], V6Addr = [], V6MaskLen = [],
     li_Name = [], Iftype = [], Offload = []\<rparr>"

definition zero_config :: lklConfig where
  "zero_config = \<lparr>V4Gateway = [], Interfaces = [], Debug = [], DelayMain = [], SingleCpu = [],
     Sysctl = [], Routes = []\<rparr>"

subsection \<open>Encoding\<close>

definition omitempty :: "string \<Rightarrow> string \<Rightarrow> (string \<times> json) list" where
  "omitempty k v = (if v = [] then [] else [(k, JStr v)])"

definition enc_interface :: "lklInterface \<Rightarrow> json" where
  "enc_interface i = JObj
     (omitempty ''mac'' (MacAddr i) @ [(''ip'', JStr (V4Addr i)), (''masklen'', JStr (V4MaskLen i))] @
      omitempty ''ipv6'' (V6Addr i) @ omitempty ''masklen6'' (V6MaskLen i) @
      [(''name'', JStr (li_Name i)), (''type'', JStr (Iftype i))] @ omitempty ''offload'' (Offload i))"

definition enc_config :: "lklConfig \<Rightarrow> json" where
  "enc_config c = JObj
     (omitempty ''gateway'' (V4Gateway c) @
      (if Interfaces c = [] then [] else [(''interfaces'', JArr (map enc_interface (Interfaces c)))]) @
      omitempty ''debug'' (Debug c) @ omitempty ''delay_main'' (DelayMain c) @
      omitempty ''singlecpu'' (SingleCpu c) @ omitempty ''sysctl'' (Sysctl c) @
      omitempty ''route'' (Routes c))"

subsection \<open>Decoding\<close>

definition ascii_lower :: "char \<Rightarrow> char" where
  "ascii_lower c = (if 65 \<le> (of_char c :: nat) \<and> (of_char c :: nat) \<le> 90 then char_of (of_char c + 32 :: nat) else c)"

definition key_matches :: "string \<Rightarrow> string \<Rightarrow> bool" where
  "key_matches k name \<longleftrightarrow> map ascii_lower k = map ascii_lower name"

text \<open>Decoding into a value that is already there; \<open>None\<close> is a type error.\<close>

fun dec_string :: "json \<Rightarrow> string \<Rightarrow> string option" where
  "dec_string (JStr s) old = Some s"
| "dec_string JNull old = Some old"
| "dec_string _ old = None"

fun dec_fields :: "(string \<Rightarrow> json \<Rightarrow> 'a \<Rightarrow> 'a option) \<Rightarrow> (string \<times> json) list \<Rightarrow> 'a \<Rightarrow> 'a option" where
  "dec_fields f [] x = Some x"
| "dec_fields f ((k, v) # r) x = (case f k v x of None \<Rightarrow> None | Some y \<Rightarrow> dec_fields f r y)"

definition interface_field :: "string \<Rightarrow> json \<Rightarrow> lklInterface \<Rightarrow> lklInterface option" where
  "interface_field k v i =
     (if key_matches k ''mac'' then map_option (\<lambda>s. i\<lparr>MacAddr := s\<rparr>) (dec_string v (MacAddr i))
      else if key_matches k ''ip'' then map_option (\<lambda>s. i\<lparr>V4Addr := s\<rparr>) (dec_string v (V4Addr i))
      else if key_matches k ''masklen'' then map_option (\<lambda>s. i\<lparr>V4MaskLen := s\<rparr>) (dec_string v (V4MaskLen i))
      else if key_matches k ''ipv6'' then map_option (\<lambda>s. i\<lparr>V6Addr := s\<rparr>) (dec_string v (V6Addr i))
      else if key_matches k ''masklen6'' then map_option (\<lambda>s. i\<lparr>V6MaskLen := s\<rparr>) (dec_string v (V6MaskLen i))
      else if key_matches k ''name'' then map_option (\<lambda>s. i\<lparr>li_Name := s\<rparr>) (dec_string v (li_Name i))
      else if key_matches k ''type'' then map_option (\<lambda>s. i\<lparr>Iftype := s\<rparr>) (dec_string v (Iftype i))
      else if key_matches k ''offload'' then map_option (\<lambda>s. i\<lparr>Offload := s\<rparr>) (dec_string v (Offload i))
      else Some i)"

fun dec_interface :: "json \<Rightarrow> lklInterface \<Rightarrow> lklInterface option" where
  "dec_interface (JObj fs) i = dec_fields interface_field fs i"
| "dec_interface JNull i = Some i"
| "dec_interface _ i = None"

text \<open>An array is decoded over the elements that are there.\<close>

fun dec_elems :: "json list \<Rightarrow> lklInterface list \<Rightarrow> (lklInterface list) option" where
  "dec_elems [] old = Some []"
| "dec_elems (j # js) old =
     (case dec_interface j (case old of [] \<Rightarrow> zero_interface | i # _ \<Rightarrow> i) of
        None \<Rightarrow> None
      | Some i \<Rightarrow> map_option ((#) i) (dec_elems js (tl old)))"

fun dec_interfaces :: "json \<Rightarrow> lklInterface list \<Rightarrow> (lklInterface list) option" where
  "dec_interfaces (JArr js) old = dec_elems js old"
| "dec_interfaces JNull old = Some []"
| "dec_interfaces _ old = None"

definition config_field :: "string \<Rightarrow> json \<Rightarrow> lklConfig \<Rightarrow> lklConfig option" where
  "config_field k v c =
     (if key_matches k ''gateway'' then map_option (\<lambda>s. c\<lparr>V4Gateway := s\<rparr>) (dec_string v (V4Gateway c))
      else if key_matches k ''interfaces'' then
        map_option (\<lambda>s. c\<lparr>Interfaces := s\<rparr>) (dec_interfaces v (Interfaces c))
      else if key_matches k ''debug'' then map_option (\<lambda>s. c\<lparr>Debug := s\<rparr>) (dec_string v (Debug c))
      else if key_matches k ''delay_main'' then map_option (\<lambda>s. c\<lparr>DelayMain := s\<rparr>) (dec_string v (DelayMain c))
      else if key_matches k ''singlecpu'' then map_option (\<lambda>s. c\<lparr>SingleCpu := s\<rparr>) (dec_string v (SingleCpu c))
      else if key_matches k ''sysctl'' then map_option (\<lambda>s. c\<lparr>Sysctl := s\<rparr>) (dec_string v (Sysctl c))
      else if key_matches k ''route'' then map_option (\<lambda>s. c\<lparr>Routes := s\<rparr>) (dec_string v (Routes c))
      else Some c)"

text \<open>\<open>json.Unmarshal(bytes, &config)\<close>: \<open>config\<close> is itself a pointer, and \<open>null\<close> makes it \<open>nil\<close>.
  A specification or a state has none of the fields.\<close>

fun dec_config :: "json \<Rightarrow> lklConfig \<Rightarrow> (lklConfig option) option" where
  "dec_config (JObj fs) c = map_option Some (dec_fields config_field fs c)"
| "dec_config JNull c = Some None"
| "dec_config _ c = None"

fun unmarshal_config :: "doc \<Rightarrow> lklConfig \<Rightarrow> (lklConfig option) option" where
  "unmarshal_config (JsonDoc j) c = dec_config j c"
| "unmarshal_config (SpecDoc s) c = Some (Some c)"
| "unmarshal_config (StateDoc s) c = Some (Some c)"
| "unmarshal_config (Text s) c = None"

subsection \<open>The generated file\<close>

definition route_string :: "lklRoute list \<Rightarrow> string" where
  "route_string rs = concat (map (\<lambda>r. Destination r @ ''='' @ Nexthop r @ '';'') rs)"

text \<open>The address is filled in only where the user's file says \<open>AUTO\<close>.\<close>

definition fill_auto :: "string \<Rightarrow> string \<Rightarrow> string \<Rightarrow> lklConfig \<Rightarrow> lklConfig" where
  "fill_auto addr masklen gw config =
     (case Interfaces config of
        [] \<Rightarrow> config
      | i # is \<Rightarrow>
          if V4Addr i = ''AUTO'' then
            config\<lparr>Interfaces := i\<lparr>V4Addr := addr, V4MaskLen := masklen\<rparr> # is, V4Gateway := gw\<rparr>
          else config)"

definition new_config :: "string \<Rightarrow> string \<Rightarrow> string \<Rightarrow> string \<Rightarrow> lklRoute list \<Rightarrow> lklConfig" where
  "new_config addr masklen gw ifname routes =
     zero_config\<lparr>Debug := ''1'',
       Interfaces := [zero_interface\<lparr>V4Addr := addr, V4MaskLen := masklen, li_Name := ifname,
         Iftype := ''rumpfd''\<rparr>],
       V4Gateway := gw, Routes := route_string routes\<rparr>"

definition generateLklJsonFile ::
  "netenv \<Rightarrow> string \<Rightarrow> string \<Rightarrow> oci_spec \<Rightarrow> ((goerr + lklConfig) \<times> string) io" where
  "generateLklJsonFile N lklJson lklJsonOut spec =
     bnd (setupNetwork N spec) (\<lambda>r. case r of
       Inl err \<Rightarrow> ret (Inl (EWrap ''failed to parse ipv4/ipv6 address: (%s)'' [] err), lklJsonOut)
     | Inr None \<Rightarrow> ret (Inr zero_config, lklJson)
     | Inr (Some (ifInfo, routeInfo)) \<Rightarrow> (case ifAddrs ifInfo of
         [] \<Rightarrow> go_panic ''index out of range''
       | a # _ \<Rightarrow>
           (let v4masklen = itoa (Mask_Size (in_Mask a));
                v4addr = IP_String (IP_To4 (in_IP a));
                v4gw = IP_String (IP_To4 (v4Gw ifInfo))
            in bnd (if lklJson \<noteq> [] then
                      bnd (ioutil_ReadFile lklJson) (\<lambda>r. case r of
                        Inl err \<Rightarrow> go_panic ''failed to read JSON file''
                      | Inr bytes \<Rightarrow> (case unmarshal_config bytes zero_config of
                          None \<Rightarrow> go_panic ''failed to decode JSON file''
                        | Some p \<Rightarrow> bnd (deref p) (\<lambda>config. ret (fill_auto v4addr v4masklen v4gw config))))
                    else ret (new_config v4addr v4masklen v4gw (ifName ifInfo) routeInfo))
                 (\<lambda>config.
                    bnd (ioutil_WriteFile lklJsonOut (JsonDoc (enc_config config)) 511) (\<lambda>_.
                    ret (Inr config, lklJsonOut))))))"

lemma generateLklJsonFile_keeps [keeps_intros]:
  "keeps place_kept (generateLklJsonFile N j out spec)"
  "keeps fds_kept (generateLklJsonFile N j out spec)"
proof -
  have "keeps place_kept (setupNetwork N spec)"
    by (rule keeps_weaken [OF setupNetwork_keeps(1)]) (simp add: net_kept_def place_kept_def)
  then show "keeps place_kept (generateLklJsonFile N j out spec)"
    unfolding generateLklJsonFile_def Let_def
    by (auto intro!: plk.kp_rules keeps_intros split: option.splits prod.splits list.splits sum.splits)
  show "keeps fds_kept (generateLklJsonFile N j out spec)"
    unfolding generateLklJsonFile_def Let_def
    by (auto intro!: fdk.kp_rules keeps_intros split: option.splits prod.splits list.splits sum.splits)
qed

subsection \<open>Round trips\<close>

lemma dec_fields_append:
  "dec_fields f (xs @ ys) x = (case dec_fields f xs x of None \<Rightarrow> None | Some y \<Rightarrow> dec_fields f ys y)"
  by (induction xs arbitrary: x) (auto split: option.splits)

text \<open>An optional field that is still empty takes the encoded value, whether it was written or
  left out.\<close>

lemmas field_defs = interface_field_def config_field_def key_matches_def ascii_lower_def

lemma interface_omitempty:
  "MacAddr i = [] \<Longrightarrow> dec_fields interface_field (omitempty ''mac'' v) i = Some (i\<lparr>MacAddr := v\<rparr>)"
  "V6Addr i = [] \<Longrightarrow> dec_fields interface_field (omitempty ''ipv6'' v) i = Some (i\<lparr>V6Addr := v\<rparr>)"
  "V6MaskLen i = [] \<Longrightarrow> dec_fields interface_field (omitempty ''masklen6'' v) i = Some (i\<lparr>V6MaskLen := v\<rparr>)"
  "Offload i = [] \<Longrightarrow> dec_fields interface_field (omitempty ''offload'' v) i = Some (i\<lparr>Offload := v\<rparr>)"
  by (auto simp: omitempty_def field_defs)

lemma interface_fixed:
  "interface_field ''ip'' (JStr v) i = Some (i\<lparr>V4Addr := v\<rparr>)"
  "interface_field ''masklen'' (JStr v) i = Some (i\<lparr>V4MaskLen := v\<rparr>)"
  "interface_field ''name'' (JStr v) i = Some (i\<lparr>li_Name := v\<rparr>)"
  "interface_field ''type'' (JStr v) i = Some (i\<lparr>Iftype := v\<rparr>)"
  by (simp_all add: field_defs)

lemma config_omitempty:
  "V4Gateway c = [] \<Longrightarrow> dec_fields config_field (omitempty ''gateway'' v) c = Some (c\<lparr>V4Gateway := v\<rparr>)"
  "Debug c = [] \<Longrightarrow> dec_fields config_field (omitempty ''debug'' v) c = Some (c\<lparr>Debug := v\<rparr>)"
  "DelayMain c = [] \<Longrightarrow> dec_fields config_field (omitempty ''delay_main'' v) c = Some (c\<lparr>DelayMain := v\<rparr>)"
  "SingleCpu c = [] \<Longrightarrow> dec_fields config_field (omitempty ''singlecpu'' v) c = Some (c\<lparr>SingleCpu := v\<rparr>)"
  "Sysctl c = [] \<Longrightarrow> dec_fields config_field (omitempty ''sysctl'' v) c = Some (c\<lparr>Sysctl := v\<rparr>)"
  "Routes c = [] \<Longrightarrow> dec_fields config_field (omitempty ''route'' v) c = Some (c\<lparr>Routes := v\<rparr>)"
  by (auto simp: omitempty_def field_defs)

lemma dec_enc_interface: "dec_interface (enc_interface i) zero_interface = Some i"
  by (simp add: enc_interface_def dec_fields_append interface_omitempty interface_fixed zero_interface_def)

lemma dec_enc_elems: "dec_elems (map enc_interface is) [] = Some is"
  by (induction "is") (simp_all add: dec_enc_interface)

lemma config_interfaces:
  "Interfaces c = [] \<Longrightarrow>
     dec_fields config_field
       (if is = [] then [] else [(''interfaces'', JArr (map enc_interface is))]) c =
     Some (c\<lparr>Interfaces := is\<rparr>)"
  by (auto simp: field_defs dec_enc_elems)

lemma dec_enc_config: "dec_config (enc_config c) zero_config = Some (Some c)"
  by (simp add: enc_config_def dec_fields_append config_omitempty config_interfaces zero_config_def
      del: append.simps)


subsection \<open>What ends up in the file\<close>

lemma fill_auto_cases:
  "c = fill_auto addr masklen gw user \<longleftrightarrow> (case Interfaces user of
       [] \<Rightarrow> c = user
     | i # is \<Rightarrow> if V4Addr i = ''AUTO''
         then c = user\<lparr>Interfaces := i\<lparr>V4Addr := addr, V4MaskLen := masklen\<rparr> # is, V4Gateway := gw\<rparr>
         else c = user)"
  by (simp add: fill_auto_def split: list.split)

text \<open>C11: with a user's configuration file, the file for the unikernel is the user's
  configuration as it is, except that an IPv4 address written as AUTO in its first interface
  is replaced, together with mask length and gateway, by the address taken from the
  interface of the container.\<close>

theorem generateLklJsonFile_user:
  assumes "generateLklJsonFile N lklJson out spec w = (Ret (Inr c, out'), w')" and "lklJson \<noteq> []"
    and "setupNetwork N spec w = (Ret (Inr (Some (info, routes))), u)"
  shows "out' = out \<and> (\<exists>bytes user a rest. ioutil_ReadFile lklJson u = (Ret (Inr bytes), u) \<and>
    unmarshal_config bytes zero_config = Some (Some user) \<and> ifAddrs info = a # rest \<and>
    (case Interfaces user of
       [] \<Rightarrow> c = user
     | i # is \<Rightarrow> if V4Addr i = ''AUTO''
         then c = user\<lparr>Interfaces := i\<lparr>V4Addr := IP_String (IP_To4 (in_IP a)),
              V4MaskLen := itoa (Mask_Size (in_Mask a))\<rparr> # is, V4Gateway := IP_String (IP_To4 (v4Gw info))\<rparr>
         else c = user) \<and>
    w' = snd (ioutil_WriteFile out (JsonDoc (enc_config c)) 511 u))"
proof -
  have rd: "ioutil_ReadFile lklJson u = (r, v) \<Longrightarrow> v = u" for r v
    by (metis ioutil_ReadFile_state snd_conv)
  from assms have "out' = out \<and> (\<exists>bytes user a rest. ioutil_ReadFile lklJson u = (Ret (Inr bytes), u) \<and>
    unmarshal_config bytes zero_config = Some (Some user) \<and> ifAddrs info = a # rest \<and>
    c = fill_auto (IP_String (IP_To4 (in_IP a))) (itoa (Mask_Size (in_Mask a)))
          (IP_String (IP_To4 (v4Gw info))) user \<and>
    w' = snd (ioutil_WriteFile out (JsonDoc (enc_config c)) 511 u))"
    unfolding generateLklJsonFile_def
    by (auto simp: assms(3) Let_def bnd_iffs deref_def dest!: rd
        split: list.splits option.splits)
  then show ?thesis by (auto simp: fill_auto_cases)
qed

subsection \<open>Witness\<close>

text \<open>The user's file asks for the address of the container and for a system setting.\<close>

definition demo_user_config :: lklConfig where
  "demo_user_config = zero_config\<lparr>Sysctl := ''net.ipv4.tcp_wmem=4096'',
     Interfaces := [zero_interface\<lparr>V4Addr := ''AUTO'', li_Name := ''eth0'', Iftype := ''rumpfd''\<rparr>]\<rparr>"

definition demo_lkl_world :: world where
  "demo_lkl_world = demo_world\<lparr>w_fs := (w_fs demo_world)
     ([''b'', ''lkl.json''] \<mapsto> File (JsonDoc (enc_config demo_user_config)) 420)\<rparr>"

lemma generateLklJsonFile_user_witness:
  "\<exists>c w'. generateLklJsonFile demo_net ''/b/lkl.json'' ''/b/out.json'' demo_pod_spec demo_lkl_world =
       (Ret (Inr c, ''/b/out.json''), w') \<and> V4Gateway c = ''10.1.2.1'' \<and>
     Sysctl c = ''net.ipv4.tcp_wmem=4096'' \<and> V4Addr (hd (Interfaces c)) = ''10.1.2.3''"
proof -
  let ?g = "generateLklJsonFile demo_net ''/b/lkl.json'' ''/b/out.json'' demo_pod_spec demo_lkl_world"
  have "case fst ?g of Ret (Inr c, _) \<Rightarrow> True | _ \<Rightarrow> False" by code_simp
  then obtain c out' w' where run: "?g = (Ret (Inr c, out'), w')"
    by (cases ?g) (auto split: outcome.splits sum.splits)
  have "case fst (setupNetwork demo_net demo_pod_spec demo_lkl_world) of
      Ret (Inr (Some (info, routes))) \<Rightarrow> ifAddrs info = [demo_addr] \<and> v4Gw info = [10, 1, 2, 1] | _ \<Rightarrow> False"
    by code_simp
  then obtain info routes u where
    net: "setupNetwork demo_net demo_pod_spec demo_lkl_world = (Ret (Inr (Some (info, routes))), u)"
    and info: "ifAddrs info = [demo_addr]" "v4Gw info = [10, 1, 2, 1]"
    by (cases "setupNetwork demo_net demo_pod_spec demo_lkl_world")
       (auto split: outcome.splits sum.splits option.splits)
  have "net_kept demo_lkl_world u" by (rule keepsE [OF setupNetwork_keeps(1) net])
  then have rd: "ioutil_ReadFile ''/b/lkl.json'' u =
      (Ret (Inr (JsonDoc (enc_config demo_user_config))), u)"
    by (simp add: net_kept_def static_kept_def ioutil_ReadFile_def fault_at_def walk_def at_def
        demo_lkl_world_def demo_world_def demo_nodes_def resolve_def push.simps)
  from generateLklJsonFile_user [OF run _ net] info rd
  have "out' = ''/b/out.json''"
    and "c = fill_auto (IP_String (IP_To4 (in_IP demo_addr))) (itoa (Mask_Size (in_Mask demo_addr)))
      (IP_String (IP_To4 [10, 1, 2, 1])) demo_user_config"
    by (auto simp: dec_enc_config fill_auto_def demo_user_config_def)
  moreover have "IP_String (IP_To4 (in_IP demo_addr)) = ''10.1.2.3''" "IP_String (IP_To4 [10, 1, 2, 1]) = ''10.1.2.1''"
    by code_simp+
  ultimately show ?thesis using run by (simp add: fill_auto_def demo_user_config_def)
qed

end
