(* ===== verification/Env_Args.thy ===== *)
theory Env_Args
  imports Lkl_Config
begin

text \<open>
  The first half of \<open>utils.go\<close>: pid files, copying files into the root file system, the
  replacement of the C library, and \<open>parseEnvs\<close>, which turns the environment of the
  specification into the environment and the descriptors of the unikernel; the client side of
  \<open>9pfs.go\<close> with it. The lemmas say which descriptor numbers the environment announces and
  what the descriptors handed over are.
\<close>

subsection \<open>Files\<close>

definition readPidFile :: "cli_ctx \<Rightarrow> string \<Rightarrow> (goerr + int) io" where
  "readPidFile ctx pidFile =
     bnd (ioutil_ReadFile (filepath_Join [g_root ctx, args_Get ctx 0, pidFile])) (\<lambda>r. ret (case r of
       Inl e \<Rightarrow> Inl (EOs e)
     | Inr pid \<Rightarrow> (case atoi (doc_text pid) of
         (pidI, Some err) \<Rightarrow> Inl err
       | (pidI, None) \<Rightarrow> Inr pidI)))"

definition copyFile :: "string \<Rightarrow> string \<Rightarrow> filemode \<Rightarrow> (goerr option) io" where
  "copyFile src dst mode = bnd (ioutil_ReadFile src) (\<lambda>r. case r of
      Inl e \<Rightarrow> ret (Some (EOs e))
    | Inr b \<Rightarrow> bnd (ioutil_WriteFile dst b mode) (\<lambda>r. ret (map_option EOs r)))"

text \<open>The scanner gives up at a line that does not fit its buffer of 64 KiB.\<close>

definition isAlpineImage :: "string \<Rightarrow> bool io" where
  "isAlpineImage rootfs = bnd (ioutil_ReadFile (rootfs @ ''/etc/os-release'')) (\<lambda>r. ret (case r of
      Inl e \<Rightarrow> False
    | Inr d \<Rightarrow> list_ex (\<lambda>l. strings_Contains l ''Alpine Linux'')
        (takeWhile (\<lambda>l. length l < 65536) (strings_Split (doc_text d) [CHR 0x0A]))))"

fun runuAuxFileDir :: "goos \<Rightarrow> string" where
  "runuAuxFileDir Linux = ''/usr/lib/runu''"
| "runuAuxFileDir Darwin = ''/usr/local/lib/runu''"

text \<open>The last \<open>RUNU_AUX_DIR\<close> of the environment wins.\<close>

definition aux_dir :: "goos \<Rightarrow> string list \<Rightarrow> string" where
  "aux_dir os env = foldl (\<lambda>d e. if hasPrefix e ''RUNU_AUX_DIR='' then trimLeft e ''RUNU_AUX_DIR='' else d)
     (runuAuxFileDir os) env"

definition ldso_name :: "string \<Rightarrow> string option" where
  "ldso_name arch =
     (if arch = ''amd64'' then Some ''/lib/ld-musl-x86_64.so.1''
      else if arch = ''arm'' then Some ''/lib/ld-musl-armhf.so.1''
      else if arch = ''arm64'' then Some ''/lib/ld-musl-aarch64.so.1''
      else None)"

definition changeLdso :: "oci_spec \<Rightarrow> string \<Rightarrow> (goerr option) io" where
  "changeLdso spec rootfs =
     bnd (deref (sp_Process spec)) (\<lambda>p.
     bnd (gets w_goos) (\<lambda>os.
     bnd (gets w_goarch) (\<lambda>arch.
       let dir = aux_dir os (pr_Env p) in
       bnd (case ldso_name arch of
              Some name \<Rightarrow> copyFile (dir @ ''/libc.so'') (rootfs @ name) 493
            | None \<Rightarrow> ret None) (\<lambda>r. case r of
         Some err \<Rightarrow> ret (Some err)
       | None \<Rightarrow> copyFile (dir @ ''/lkick'') (rootfs @ ''/bin/lkick'') 493))))"

subsection \<open>The 9p client\<close>

definition addr9p :: string where
  "addr9p = ''127.0.0.1:5640''"

text \<open>The file of a connection is a duplicate of its descriptor; the connection is closed.\<close>

definition connect9pfs :: "(gofile \<times> bool) io" where
  "connect9pfs =
     thn (sys_must (OpDial addr9p) ''dial'') (
     bnd (open_fd (FTcp addr9p) True) (\<lambda>conn.
     bnd (open_fd (FTcp addr9p) False) (\<lambda>fd.
     thn (close_fd conn)
     (ret (Some fd, False)))))"

subsection \<open>parseEnvs\<close>

definition fdInfoConfigJson :: string where "fdInfoConfigJson = ''__RUMP_FDINFO_CONFIGJSON''"
definition fdInfoEnvPrefixNet :: string where "fdInfoEnvPrefixNet = ''__RUMP_FDINFO_NET_''"
definition fdInfoEnvPrefixRoot :: string where "fdInfoEnvPrefixRoot = ''__RUMP_FDINFO_ROOT''"

record penv =
  pe_specEnv :: "string list"
  pe_fds :: "(gofile \<times> bool) list"
  pe_fdNum :: nat
  pe_hasRootFs :: bool
  pe_lklJson :: string
  pe_use9pFs :: bool

text \<open>\<open>fds[fd] = nonblock\<close>: the map keeps one entry per file, \<open>nil\<close> included.\<close>

definition fds_put :: "gofile \<Rightarrow> bool \<Rightarrow> (gofile \<times> bool) list \<Rightarrow> (gofile \<times> bool) list" where
  "fds_put fd nb fds =
     (if fd \<in> set (map fst fds) then map (\<lambda>(f, b). if f = fd then (f, nb) else (f, b)) fds
      else fds @ [(fd, nb)])"

text \<open>Hand a descriptor over: into the map, announced in the environment, counted.\<close>

definition pass_fd :: "string \<Rightarrow> gofile \<times> bool \<Rightarrow> penv \<Rightarrow> penv" where
  "pass_fd name f st =
     st\<lparr>pe_fds := fds_put (fst f) (snd f) (pe_fds st),
        pe_specEnv := pe_specEnv st @ [name @ ''='' @ itoa (int (pe_fdNum st))],
        pe_fdNum := Suc (pe_fdNum st)\<rparr>"

text \<open>A disk image that exists on the host is copied into the root file system.\<close>

definition import_rootfs :: "string \<Rightarrow> string \<Rightarrow> string io" where
  "import_rootfs rootfs lklRootfs =
     bnd (os_Stat lklRootfs) (\<lambda>r. case r of
       Inr n \<Rightarrow> thn (copyFile lklRootfs (rootfs @ ''/'' @ filepath_Base lklRootfs) 420)
                  (ret (''/'' @ filepath_Base lklRootfs))
     | Inl e \<Rightarrow> ret lklRootfs)"

definition parse_rootfs :: "string \<Rightarrow> string \<Rightarrow> penv \<Rightarrow> penv io" where
  "parse_rootfs rootfs env st =
     bnd (import_rootfs rootfs (trimLeft env ''LKL_ROOTFS='')) (\<lambda>lklRootfs.
     bnd (openRootfsFd (rootfs @ ''/'' @ lklRootfs)) (\<lambda>f.
     ret ((pass_fd fdInfoEnvPrefixRoot f st)\<lparr>pe_hasRootFs := True\<rparr>)))"

definition parse_net :: "string list \<Rightarrow> string \<Rightarrow> penv \<Rightarrow> penv io" where
  "parse_net procEnv env st =
     (let lklNet = trimLeft env ''LKL_NET='' in
      bnd (openNetFd lklNet procEnv) (\<lambda>f. ret (pass_fd (fdInfoEnvPrefixNet @ lklNet) f st)))"

definition parse_config :: "string \<Rightarrow> string \<Rightarrow> penv \<Rightarrow> penv io" where
  "parse_config rootfs env st =
     (let lklJson = trimLeft env ''LKL_CONFIG='' in
      thn (copyFile lklJson (rootfs @ ''/'' @ filepath_Base lklJson) 420)
        (ret (st\<lparr>pe_lklJson := rootfs @ ''/'' @ filepath_Base lklJson\<rparr>)))"

definition parse_env :: "string \<Rightarrow> string list \<Rightarrow> string \<Rightarrow> penv \<Rightarrow> penv io" where
  "parse_env rootfs procEnv env st =
     (if hasPrefix env ''LKL_ROOTFS='' then parse_rootfs rootfs env st
      else if hasPrefix env ''LKL_NET='' then parse_net procEnv env st
      else if hasPrefix env ''LKL_CONFIG='' then parse_config rootfs env st
      else
        let st' = (if hasPrefix env ''LKL_USE_9PFS='' then st\<lparr>pe_use9pFs := True\<rparr> else st)
        in ret (if hasPrefix env ''PATH='' then st' else st'\<lparr>pe_specEnv := pe_specEnv st' @ [env]\<rparr>))"

fun parse_loop :: "string \<Rightarrow> string list \<Rightarrow> string list \<Rightarrow> penv \<Rightarrow> penv io" where
  "parse_loop rootfs procEnv [] st = ret st"
| "parse_loop rootfs procEnv (env # envs) st =
     bnd (parse_env rootfs procEnv env st) (parse_loop rootfs procEnv envs)"

text \<open>The 9p server is another instance of the program, with a pid file of its own.\<close>

definition start_9p_child :: "cli_ctx \<Rightarrow> string \<Rightarrow> unit io" where
  "start_9p_child ctx rootfs =
     bnd (exec_Command (g_argv0 ctx) [''--9ps='' @ rootfs @ ''/'']) (\<lambda>cmd.
     bnd (cmd_Start cmd) (\<lambda>r. case r of
       Inl err \<Rightarrow> go_panic ''start 9pfs server''
     | Inr pid \<Rightarrow>
         bnd (os_OpenCreate True (filepath_Join [g_root ctx, args_Get ctx 0, pidFile9p]) 438) (\<lambda>f.
         bnd (f_Write f (itoa pid)) (\<lambda>_. ret ()))))"

definition parse_9pfs :: "cli_ctx \<Rightarrow> string \<Rightarrow> penv \<Rightarrow> penv io" where
  "parse_9pfs ctx rootfs st =
     (if \<not> pe_hasRootFs st \<and> pe_use9pFs st then
        thn (start_9p_child ctx rootfs) (
        bnd connect9pfs (\<lambda>f.
        let st' = pass_fd ''9PFS_FD'' f st in
        ret (st'\<lparr>pe_specEnv := pe_specEnv st' @ [''9PFS_MNT=/'']\<rparr>)))
      else ret st)"

definition lkl_json_out :: "cli_ctx \<Rightarrow> string \<Rightarrow> string" where
  "lkl_json_out ctx rootfs = rootfs @ ''/'' @ ''lkl-'' @ take 10 (args_First ctx) @ ''-out.json''"

text \<open>The interface and the configuration file come after the descriptors the environment
  asks for.\<close>

definition parse_generated :: "netenv \<Rightarrow> oci_spec \<Rightarrow> cli_ctx \<Rightarrow> string \<Rightarrow> string list \<Rightarrow> penv \<Rightarrow> penv io" where
  "parse_generated N spec ctx rootfs procEnv st =
     bnd (generateLklJsonFile N (pe_lklJson st) (lkl_json_out ctx rootfs) spec) (\<lambda>(r, lklJsonOut).
       case r of
         Inl err \<Rightarrow> go_panic ''generateLklJsonFile''
       | Inr jsonObj \<Rightarrow>
           bnd (if Interfaces jsonObj \<noteq> [] then
                  bnd (openNetFd ''eth0'' procEnv) (\<lambda>f.
                  ret (pass_fd (fdInfoEnvPrefixNet @ ''eth0'') f st))
                else ret st) (\<lambda>st.
           if lklJsonOut \<noteq> [] then
             bnd (openJsonFd lklJsonOut) (\<lambda>f. ret (pass_fd fdInfoConfigJson f st))
           else ret st))"

definition parseEnvs ::
  "netenv \<Rightarrow> oci_spec \<Rightarrow> cli_ctx \<Rightarrow> string \<Rightarrow> (string list \<times> (gofile \<times> bool) list) io" where
  "parseEnvs N spec ctx rootfs =
     bnd (os_LookupEnv ''LKL_USE_9PFS'') (\<lambda>(_, use9pFs).
     bnd (deref (sp_Process spec)) (\<lambda>p.
     bnd (parse_loop rootfs (pr_Env p) (pr_Env p)
            \<lparr>pe_specEnv = [], pe_fds = [], pe_fdNum = 3, pe_hasRootFs = False, pe_lklJson = [],
             pe_use9pFs = use9pFs\<rparr>) (\<lambda>st.
     bnd (parse_generated N spec ctx rootfs (pr_Env p) st) (\<lambda>st.
     bnd (parse_9pfs ctx rootfs st) (\<lambda>st.
     ret (pe_specEnv st, pe_fds st))))))"

subsection \<open>Frames\<close>

lemma copyFile_keeps [keeps_intros]:
  "keeps wf_kept (copyFile s d m)" "keeps place_kept (copyFile s d m)"
  "keeps fds_kept (copyFile s d m)" "keeps procs_kept (copyFile s d m)"
  "keeps trace_kept (copyFile s d m)"
  unfolding copyFile_def
  by (intro wfk.kp_rules plk.kp_rules fdk.kp_rules prk.kp_rules trk.kp_rules keeps_intros)+

lemma modify_place_kept [keeps_intros]:
  "keeps place_kept (modify (emit ev))" "keeps place_kept (ioctl r s a)"
  "keeps place_kept (fd_becomes n ob nb)" "keeps place_kept (must m e)" "keeps place_kept (sys_must op m)"
  by (auto simp: keeps_def place_kept_def static_kept_def ioctl_def fd_becomes_def must_def
      sys_must_def bnd_def split: option.splits)

lemma opens_keep_place [keeps_intros]:
  "keeps place_kept (openRootfsFd f)" "keeps place_kept (openJsonFd f)"
  "keeps place_kept (openNetFd n env)" "keeps place_kept connect9pfs"
proof -
  show "keeps place_kept (openNetFd n env)"
    unfolding openNetFd_def openNetFd_linux_def openNetFd_darwin_def openNetRawsockFd_def
      openNetTapFd_def Let_def
    by (auto intro!: plk.kp_rules keeps_intros split: goos.splits)
qed (unfold openRootfsFd_def openJsonFd_def connect9pfs_def, (intro plk.kp_rules keeps_intros)+)

lemma start_9p_child_keeps [keeps_intros]: "keeps place_kept (start_9p_child ctx rootfs)"
  unfolding start_9p_child_def by (intro plk.kp_rules keeps_intros)+

lemma import_rootfs_keeps [keeps_intros]:
  "keeps place_kept (import_rootfs rootfs l)" "keeps fds_kept (import_rootfs rootfs l)"
  unfolding import_rootfs_def by (intro plk.kp_rules fdk.kp_rules keeps_intros)+

lemma parse_env_keeps [keeps_intros]: "keeps place_kept (parse_env rootfs pe env st)"
  unfolding parse_env_def parse_rootfs_def parse_net_def parse_config_def Let_def
  by (intro plk.kp_rules keeps_intros)+

lemma parse_loop_keeps [keeps_intros]: "keeps place_kept (parse_loop rootfs pe envs st)"
  by (induction envs arbitrary: st) (auto intro!: plk.kp_rules keeps_intros)

lemma parse_generated_keeps [keeps_intros]:
  "keeps place_kept (parse_generated N spec ctx rootfs pe st)"
  unfolding parse_generated_def by (intro plk.kp_rules keeps_intros)+

lemma parse_9pfs_keeps [keeps_intros]: "keeps place_kept (parse_9pfs ctx rootfs st)"
  unfolding parse_9pfs_def Let_def by (intro plk.kp_rules keeps_intros)+

lemma parseEnvs_keeps [keeps_intros]: "keeps place_kept (parseEnvs N spec ctx rootfs)"
  unfolding parseEnvs_def by (intro plk.kp_rules keeps_intros)+

subsection \<open>What is handed over\<close>

text \<open>What a variable of the environment may announce.\<close>

definition fd_entry :: "goos \<Rightarrow> path \<Rightarrow> string \<Rightarrow> string \<Rightarrow> fdobj \<Rightarrow> bool" where
  "fd_entry os cwd rootfs name ob \<longleftrightarrow>
     (name = fdInfoEnvPrefixRoot \<and> (\<exists>l. ob = FFile (resolve cwd (rootfs @ ''/'' @ l)))) \<or>
     (\<exists>ifname. name = fdInfoEnvPrefixNet @ ifname \<and> net_object os ifname = Some ob) \<or>
     (name = fdInfoConfigJson \<and> (\<exists>l. ob = FFile (resolve cwd (rootfs @ ''/'' @ l)))) \<or>
     (name = ''9PFS_FD'' \<and> ob = FTcp addr9p)"

text \<open>One descriptor handed over: its number here, its mode, its name and what it refers to.\<close>

record handed =
  h_fd :: nat
  h_nb :: bool
  h_name :: string
  h_obj :: fdobj

definition handed_ok :: "goos \<Rightarrow> path \<Rightarrow> string \<Rightarrow> world \<Rightarrow> string list \<Rightarrow> nat \<Rightarrow> handed \<Rightarrow> bool" where
  "handed_ok os cwd rootfs w env i h \<longleftrightarrow>
     map_option fd_obj (fd_get (w_fds w) (h_fd h)) = Some (h_obj h) \<and>
     fd_entry os cwd rootfs (h_name h) (h_obj h) \<and>
     h_name h @ ''='' @ itoa (int (3 + i)) \<in> set env"

text \<open>The files of the map are in ascending order of their numbers, each is announced under the
  number that is its position counted from 3, and the next number continues this.\<close>

definition handed_list :: "goos \<Rightarrow> path \<Rightarrow> string \<Rightarrow> penv \<Rightarrow> world \<Rightarrow> handed list \<Rightarrow> bool" where
  "handed_list os cwd rootfs st w hs \<longleftrightarrow>
     pe_fds st = map (\<lambda>h. (Some (h_fd h), h_nb h)) hs \<and> pe_fdNum st = 3 + length hs \<and>
     sorted_wrt (<) (map h_fd hs) \<and>
     (\<forall>i < length hs. handed_ok os cwd rootfs w (pe_specEnv st) i (hs ! i))"

text \<open>The invariant of \<open>parseEnvs\<close>, as long as every file it put into the map exists.\<close>

definition handed_inv :: "goos \<Rightarrow> path \<Rightarrow> string \<Rightarrow> penv \<Rightarrow> world \<Rightarrow> bool" where
  "handed_inv os cwd rootfs st w \<longleftrightarrow>
     w_goos w = os \<and> w_cwd w = cwd \<and>
     (pe_lklJson st = [] \<or> (\<exists>l. pe_lklJson st = rootfs @ ''/'' @ l)) \<and>
     (None \<notin> fst ` set (pe_fds st) \<longrightarrow>
       (\<exists>hs. handed_list os cwd rootfs st w hs \<and> (\<forall>h \<in> set hs. h_fd h < lowest_free (w_fds w))))"

lemma handed_list_frame:
  assumes "handed_list os cwd rootfs st w hs"
    and "\<forall>h \<in> set hs. map_option fd_obj (fd_get (w_fds w') (h_fd h)) = map_option fd_obj (fd_get (w_fds w) (h_fd h))"
    and "pe_fds st' = pe_fds st" and "pe_fdNum st' = pe_fdNum st" and "set (pe_specEnv st) \<subseteq> set (pe_specEnv st')"
  shows "handed_list os cwd rootfs st' w' hs"
  using assms by (auto simp: handed_list_def handed_ok_def)

lemma handed_inv_frame:
  assumes inv: "handed_inv os cwd rootfs st w" and fk: "fds_kept w w'" and pl: "place_kept w w'"
    and st: "pe_fds st' = pe_fds st" "pe_fdNum st' = pe_fdNum st" "set (pe_specEnv st) \<subseteq> set (pe_specEnv st')"
    and json: "pe_lklJson st' = pe_lklJson st \<or> (\<exists>l. pe_lklJson st' = rootfs @ ''/'' @ l)"
  shows "handed_inv os cwd rootfs st' w'"
proof -
  have "\<exists>hs. handed_list os cwd rootfs st' w' hs \<and> (\<forall>h \<in> set hs. h_fd h < lowest_free (w_fds w'))"
    if "None \<notin> fst ` set (pe_fds st')"
  proof -
    from inv that st(1) obtain hs where hs: "handed_list os cwd rootfs st w hs"
      and low: "\<forall>h \<in> set hs. h_fd h < lowest_free (w_fds w)" by (auto simp: handed_inv_def)
    have "handed_list os cwd rootfs st' w' hs"
      by (rule handed_list_frame [OF hs _ st]) (use low fk in \<open>auto simp: fds_kept_def\<close>)
    then show ?thesis using low fds_kept_lowest [OF fk] by fastforce
  qed
  then show ?thesis using inv pl json by (auto simp: handed_inv_def place_kept_def static_kept_def)
qed

lemma opened_fds_kept: "opened w n ob nb w' \<Longrightarrow> fds_kept w w'"
  by (simp add: opened_def fds_kept_def fd_get_open)

text \<open>Handing over a file whose number is above all that are taken.\<close>

lemma handed_list_pass:
  assumes hs: "handed_list os cwd rootfs st w hs" and low: "\<forall>h \<in> set hs. h_fd h < lowest_free (w_fds w)"
    and fk: "fds_kept w w'" and n: "lowest_free (w_fds w) \<le> n"
    and ob: "map_option fd_obj (fd_get (w_fds w') n) = Some ob" and ent: "fd_entry os cwd rootfs name ob"
  shows "handed_list os cwd rootfs (pass_fd name (Some n, nb) st) w'
    (hs @ [\<lparr>h_fd = n, h_nb = nb, h_name = name, h_obj = ob\<rparr>])"
proof -
  let ?st = "pass_fd name (Some n, nb) st"
  let ?h = "\<lparr>h_fd = n, h_nb = nb, h_name = name, h_obj = ob\<rparr>"
  note hl = hs [unfolded handed_list_def]
  have below: "h_fd h < n" if "h \<in> set hs" for h using that low n by fastforce
  then have "Some n \<notin> set (map fst (pe_fds st))" using hl by auto
  then have "pe_fds ?st = map (\<lambda>h. (Some (h_fd h), h_nb h)) (hs @ [?h])"
    using hl by (simp add: pass_fd_def fds_put_def)
  moreover have "pe_fdNum ?st = 3 + length (hs @ [?h])" using hl by (simp add: pass_fd_def)
  moreover have "sorted_wrt (<) (map h_fd (hs @ [?h]))"
    using hl below by (auto simp: sorted_wrt_append)
  moreover have "handed_ok os cwd rootfs w' (pe_specEnv ?st) i ((hs @ [?h]) ! i)"
    if "i < length (hs @ [?h])" for i
  proof (cases "i < length hs")
    case True
    with hl have "handed_ok os cwd rootfs w (pe_specEnv st) i (hs ! i)" by simp
    moreover have "h_fd (hs ! i) < lowest_free (w_fds w)" using True low by simp
    ultimately show ?thesis using True fk
      by (simp add: nth_append handed_ok_def fds_kept_def pass_fd_def)
  next
    case False
    with that have "i = length hs" by simp
    then show ?thesis using ob ent hl by (simp add: handed_ok_def pass_fd_def)
  qed
  ultimately show ?thesis by (simp add: handed_list_def)
qed

lemma fds_put_keys: "fst ` set (fds_put fd nb fds) = insert fd (fst ` set fds)"
proof (cases "fd \<in> fst ` set fds")
  case True
  have "fst ` (\<lambda>(f, b). if f = fd then (f, nb) else (f, b)) ` set fds = fst ` set fds"
    unfolding image_image by (rule image_cong) auto
  with True show ?thesis by (auto simp: fds_put_def)
qed (simp add: fds_put_def)

lemma pass_fd_no_nil:
  "None \<notin> fst ` set (pe_fds (pass_fd name f st)) \<Longrightarrow> None \<notin> fst ` set (pe_fds st)"
  by (simp add: pass_fd_def fds_put_keys)

lemma pass_fd_json [simp]: "pe_lklJson (pass_fd name f st) = pe_lklJson st"
  by (simp add: pass_fd_def)

lemma handed_inv_pass:
  assumes inv: "handed_inv os cwd rootfs st w" and op: "opened w n ob nb0 w'" and pl: "place_kept w w'"
    and ent: "fd_entry os cwd rootfs name ob"
  shows "handed_inv os cwd rootfs (pass_fd name (Some n, nb) st) w'"
proof -
  have fk: "fds_kept w w'" by (rule opened_fds_kept [OF op])
  from op have n: "n = lowest_free (w_fds w)" and ob: "map_option fd_obj (fd_get (w_fds w') n) = Some ob"
    and lt: "n < lowest_free (w_fds w')"
    using lowest_free_increases by (auto simp: opened_def fd_get_open)
  have "\<exists>hs. handed_list os cwd rootfs (pass_fd name (Some n, nb) st) w' hs \<and>
      (\<forall>h \<in> set hs. h_fd h < lowest_free (w_fds w'))"
    if "None \<notin> fst ` set (pe_fds (pass_fd name (Some n, nb) st))"
  proof -
    from inv pass_fd_no_nil [OF that] obtain hs where hs: "handed_list os cwd rootfs st w hs"
      and low: "\<forall>h \<in> set hs. h_fd h < lowest_free (w_fds w)" by (auto simp: handed_inv_def)
    from handed_list_pass [OF hs low fk _ ob ent] n
    have "handed_list os cwd rootfs (pass_fd name (Some n, nb) st) w'
      (hs @ [\<lparr>h_fd = n, h_nb = nb, h_name = name, h_obj = ob\<rparr>])" by simp
    moreover have "\<forall>h \<in> set (hs @ [\<lparr>h_fd = n, h_nb = nb, h_name = name, h_obj = ob\<rparr>]).
        h_fd h < lowest_free (w_fds w')"
      using low lt fds_kept_lowest [OF fk] by fastforce
    ultimately show ?thesis by blast
  qed
  then show ?thesis using inv pl by (auto simp: handed_inv_def place_kept_def static_kept_def)
qed

text \<open>Handing over \<open>nil\<close> ends the promise.\<close>

lemma handed_inv_nil:
  assumes "handed_inv os cwd rootfs st w" and "place_kept w w'"
  shows "handed_inv os cwd rootfs (pass_fd name (None, nb) st) w'"
proof -
  have "None \<in> fst ` set (pe_fds (pass_fd name (None, nb) st))"
    by (simp add: pass_fd_def fds_put_keys)
  with assms show ?thesis by (simp add: handed_inv_def place_kept_def static_kept_def)
qed

text \<open>The steps of \<open>parseEnvs\<close> keep the invariant.\<close>

lemma opened_place: "opened w n ob nb w' \<Longrightarrow> place_kept w w' \<Longrightarrow> at w' p = at w p"
  by (simp add: place_kept_def at_def)

lemma handed_inv_at: "handed_inv os cwd rootfs st w \<Longrightarrow> at w p = resolve cwd p"
  by (simp add: handed_inv_def at_def)

lemma parse_net_inv:
  assumes inv: "handed_inv os cwd rootfs st w"
    and run: "openNetFd ifname env w = (Ret (f, nb), w')"
  shows "handed_inv os cwd rootfs (pass_fd (fdInfoEnvPrefixNet @ ifname) (f, nb) st) w'"
proof -
  have pl: "place_kept w w'" by (rule keepsE [OF opens_keep_place(3) run])
  have os: "w_goos w = os" using inv by (simp add: handed_inv_def)
  show ?thesis
  proof (cases "net_object os ifname")
    case None
    with openNetFd_opens [OF run] os have "f = None" by simp
    with handed_inv_nil [OF inv pl] show ?thesis by simp
  next
    case (Some ob)
    with openNetFd_opens [OF run] os obtain n where n: "f = Some n" "opened w n ob True w'" by auto
    moreover have "fd_entry os cwd rootfs (fdInfoEnvPrefixNet @ ifname) ob"
      using Some by (auto simp: fd_entry_def)
    ultimately show ?thesis using handed_inv_pass [OF inv _ pl] by simp
  qed
qed

lemma parse_rootfs_inv:
  assumes inv: "handed_inv os cwd rootfs st w" and run: "parse_rootfs rootfs env st w = (Ret st', w')"
  shows "handed_inv os cwd rootfs st' w'"
proof -
  from run obtain l u f b where im: "import_rootfs rootfs (trimLeft env ''LKL_ROOTFS='') w = (Ret l, u)"
    and f: "openRootfsFd (rootfs @ ''/'' @ l) u = (Ret (f, b), w')"
    and st': "st' = (pass_fd fdInfoEnvPrefixRoot (f, b) st)\<lparr>pe_hasRootFs := True\<rparr>"
    by (auto simp: parse_rootfs_def bnd_iffs)
  note u = keepsE [OF import_rootfs_keeps(1) im] keepsE [OF import_rootfs_keeps(2) im]
  have invu: "handed_inv os cwd rootfs st u"
    by (rule handed_inv_frame [OF inv u(2,1)]) simp_all
  from openRootfsFd_opens [OF f] obtain n where n: "f = Some n"
    and o: "opened u n (FFile (resolve cwd (rootfs @ ''/'' @ l))) False w'"
    by (auto simp: handed_inv_at [OF invu])
  have "handed_inv os cwd rootfs (pass_fd fdInfoEnvPrefixRoot (Some n, b) st) w'"
    by (rule handed_inv_pass [OF invu o keepsE [OF opens_keep_place(1) f]]) (auto simp: fd_entry_def)
  then show ?thesis
    by (rule handed_inv_frame [OF _ fdk.frame_refl plk.frame_refl]) (simp_all add: st' n)
qed

lemma parse_env_inv:
  assumes inv: "handed_inv os cwd rootfs st w" and run: "parse_env rootfs pe env st w = (Ret st', w')"
  shows "handed_inv os cwd rootfs st' w'"
proof -
  consider "hasPrefix env ''LKL_ROOTFS=''"
    | "\<not> hasPrefix env ''LKL_ROOTFS=''" "hasPrefix env ''LKL_NET=''"
    | "\<not> hasPrefix env ''LKL_ROOTFS=''" "\<not> hasPrefix env ''LKL_NET=''" "hasPrefix env ''LKL_CONFIG=''"
    | "\<not> hasPrefix env ''LKL_ROOTFS=''" "\<not> hasPrefix env ''LKL_NET=''" "\<not> hasPrefix env ''LKL_CONFIG=''"
    by blast
  then show ?thesis
  proof cases
    case 1
    with run show ?thesis using parse_rootfs_inv [OF inv] by (simp add: parse_env_def)
  next
    case 2
    with run show ?thesis using parse_net_inv [OF inv]
      by (auto simp: parse_env_def parse_net_def Let_def bnd_iffs)
  next
    case 3
    let ?l = "trimLeft env ''LKL_CONFIG=''"
    from 3 run obtain x where cp: "copyFile ?l (rootfs @ ''/'' @ filepath_Base ?l) 420 w = (Ret x, w')"
      and st': "st' = st\<lparr>pe_lklJson := rootfs @ ''/'' @ filepath_Base ?l\<rparr>"
      by (auto simp: parse_env_def parse_config_def Let_def bnd_iffs)
    show ?thesis
      by (rule handed_inv_frame [OF inv keepsE [OF copyFile_keeps(3) cp] keepsE [OF copyFile_keeps(2) cp]])
         (simp_all add: st')
  next
    case 4
    with run have "w' = w" by (auto simp: parse_env_def Let_def)
    show ?thesis unfolding \<open>w' = w\<close>
      by (rule handed_inv_frame [OF inv fdk.frame_refl plk.frame_refl])
         (use 4 run in \<open>auto simp: parse_env_def Let_def\<close>)
  qed
qed

lemma parse_loop_inv:
  "handed_inv os cwd rootfs st w \<Longrightarrow> parse_loop rootfs pe envs st w = (Ret st', w') \<Longrightarrow>
     handed_inv os cwd rootfs st' w'"
  by (induction envs arbitrary: st w) (auto simp: bnd_iffs dest: parse_env_inv)

lemma generate_out:
  "generateLklJsonFile N j out spec w = (Ret (r, o'), w') \<Longrightarrow> o' = j \<or> o' = out"
  by (auto simp: generateLklJsonFile_def Let_def bnd_iffs neq_Nil_conv
      split: list.splits option.splits if_splits)

lemma parse_generated_inv:
  assumes inv: "handed_inv os cwd rootfs st w"
    and run: "parse_generated N spec ctx rootfs pe st w = (Ret st', w')"
  shows "handed_inv os cwd rootfs st' w'"
proof -
  from run obtain c o' u st1 v where
    gen: "generateLklJsonFile N (pe_lklJson st) (lkl_json_out ctx rootfs) spec w = (Ret (Inr c, o'), u)"
    and net: "(if Interfaces c \<noteq> [] then
        bnd (openNetFd ''eth0'' pe) (\<lambda>f. ret (pass_fd (fdInfoEnvPrefixNet @ ''eth0'') f st))
      else ret st) u = (Ret st1, v)"
    and cfg: "(if o' \<noteq> [] then bnd (openJsonFd o') (\<lambda>f. ret (pass_fd fdInfoConfigJson f st1))
      else ret st1) v = (Ret st', w')"
    by (auto simp: parse_generated_def bnd_iffs split_paired_Ex split: prod.splits)
  have invu: "handed_inv os cwd rootfs st u"
    by (rule handed_inv_frame [OF inv keepsE [OF generateLklJsonFile_keeps(2) gen]
        keepsE [OF generateLklJsonFile_keeps(1) gen]]) simp_all
  have inv1: "handed_inv os cwd rootfs st1 v" and same: "pe_lklJson st1 = pe_lklJson st"
    using net parse_net_inv [OF invu, of "''eth0''"] invu by (auto simp: bnd_iffs split: if_splits)
  show ?thesis
  proof (cases "o' = []")
    case True
    with cfg inv1 show ?thesis by simp
  next
    case False
    with cfg obtain f b where op: "openJsonFd o' v = (Ret (f, b), w')"
      and st': "st' = pass_fd fdInfoConfigJson (f, b) st1" by (auto simp: bnd_iffs)
    from generate_out [OF gen] inv False obtain l where "o' = rootfs @ ''/'' @ l"
      by (auto simp: handed_inv_def lkl_json_out_def)
    with openJsonFd_opens [OF op] obtain n where n: "f = Some n"
      and o: "opened v n (FFile (resolve cwd (rootfs @ ''/'' @ l))) False w'"
      by (auto simp: handed_inv_at [OF inv1])
    show ?thesis unfolding st' n
      by (rule handed_inv_pass [OF inv1 o keepsE [OF opens_keep_place(2) op]]) (auto simp: fd_entry_def)
  qed
qed

lemma connect9pfs_opens:
  assumes "connect9pfs w = (Ret (f, b), w')"
  obtains n where "f = Some n" and "lowest_free (w_fds w) < n" and "fds_kept w w'"
    and "map_option fd_obj (fd_get (w_fds w') n) = Some (FTcp addr9p)"
proof -
  let ?t = "w_fds w" let ?c = "lowest_free ?t"
  let ?t1 = "fd_set ?t ?c \<lparr>fd_obj = FTcp addr9p, fd_nonblock = True\<rparr>" let ?n = "lowest_free ?t1"
  let ?t2 = "fd_set ?t1 ?n \<lparr>fd_obj = FTcp addr9p, fd_nonblock = False\<rparr>"
  from assms have f: "f = Some ?n" and fds: "w_fds w' = ?t2[?c := None]"
    by (auto simp: connect9pfs_def bnd_iffs sys_must_Ret open_fd_def Let_def close_fd_def)
  have lt: "?c < ?n" by (rule lowest_free_increases)
  have get: "fd_get (w_fds w') m = (if m = ?c then None else if m = ?n then
      Some \<lparr>fd_obj = FTcp addr9p, fd_nonblock = False\<rparr> else fd_get ?t m)" for m
    using lt by (simp add: fds fd_get_clear fd_get_open)
  show thesis
    by (rule that [OF f lt]) (use lt in \<open>auto simp: fds_kept_def get\<close>)
qed

lemma start_9p_child_fds [keeps_intros]: "keeps fds_kept (start_9p_child ctx rootfs)"
  unfolding start_9p_child_def by (intro fdk.kp_rules keeps_intros)+

lemma parse_9pfs_handed:
  assumes inv: "handed_inv os cwd rootfs st w" and run: "parse_9pfs ctx rootfs st w = (Ret st', w')"
    and no: "None \<notin> fst ` set (pe_fds st')"
  shows "\<exists>hs. handed_list os cwd rootfs st' w' hs"
proof (cases "\<not> pe_hasRootFs st \<and> pe_use9pFs st")
  case False
  with run inv no show ?thesis by (auto simp: parse_9pfs_def handed_inv_def)
next
  case True
  with run obtain u f b where ch: "start_9p_child ctx rootfs w = (Ret (), u)"
    and co: "connect9pfs u = (Ret (f, b), w')"
    and st': "st' = (pass_fd ''9PFS_FD'' (f, b) st)\<lparr>pe_specEnv := pe_specEnv (pass_fd ''9PFS_FD'' (f, b) st) @ [''9PFS_MNT=/'']\<rparr>"
    by (auto simp: parse_9pfs_def Let_def bnd_iffs thn_def)
  have invu: "handed_inv os cwd rootfs st u"
    by (rule handed_inv_frame [OF inv keepsE [OF start_9p_child_fds ch] keepsE [OF start_9p_child_keeps ch]]) simp_all
  have "None \<notin> fst ` set (pe_fds st)" using no pass_fd_no_nil by (simp add: st')
  with invu obtain hs where hs: "handed_list os cwd rootfs st u hs"
    and low: "\<forall>h \<in> set hs. h_fd h < lowest_free (w_fds u)" by (auto simp: handed_inv_def)
  obtain n where n: "f = Some n" "lowest_free (w_fds u) < n" "fds_kept u w'"
    and ob: "map_option fd_obj (fd_get (w_fds w') n) = Some (FTcp addr9p)"
    by (rule connect9pfs_opens [OF co])
  have "fd_entry os cwd rootfs ''9PFS_FD'' (FTcp addr9p)" by (simp add: fd_entry_def)
  from handed_list_pass [OF hs low n(3) _ ob this] n(2)
  have "handed_list os cwd rootfs (pass_fd ''9PFS_FD'' (f, b) st) w'
     (hs @ [\<lparr>h_fd = n, h_nb = b, h_name = ''9PFS_FD'', h_obj = FTcp addr9p\<rparr>])"
    by (simp add: n(1))
  then have "handed_list os cwd rootfs st' w'
     (hs @ [\<lparr>h_fd = n, h_nb = b, h_name = ''9PFS_FD'', h_obj = FTcp addr9p\<rparr>])"
    by (rule handed_list_frame) (auto simp: st')
  then show ?thesis by blast
qed

lemma parseEnvs_hands_over:
  assumes run: "parseEnvs N spec ctx rootfs w = (Ret (env, fds), w')" and no: "None \<notin> fst ` set fds"
  shows "\<exists>hs. fds = map (\<lambda>h. (Some (h_fd h), h_nb h)) hs \<and> sorted_wrt (<) (map h_fd hs) \<and>
    (\<forall>i < length hs. handed_ok (w_goos w) (w_cwd w) rootfs w' env i (hs ! i))"
proof -
  let ?st = "\<lambda>b. \<lparr>pe_specEnv = [], pe_fds = [], pe_fdNum = 3, pe_hasRootFs = False, pe_lklJson = [],
             pe_use9pFs = b\<rparr> :: penv"
  from run obtain b p st u st1 v st2 where p: "sp_Process spec = Some p" and
    l: "parse_loop rootfs (pr_Env p) (pr_Env p) (?st b) w = (Ret st, u)"
    and g: "parse_generated N spec ctx rootfs (pr_Env p) st u = (Ret st1, v)"
    and n: "parse_9pfs ctx rootfs st1 v = (Ret st2, w')"
    and res: "env = pe_specEnv st2" "fds = pe_fds st2"
    by (auto simp: parseEnvs_def os_LookupEnv_def deref_def bnd_iffs split_paired_Ex split: option.splits)
  have "handed_inv (w_goos w) (w_cwd w) rootfs (?st b) w"
    by (simp add: handed_inv_def handed_list_def)
  from parse_loop_inv [OF this l] have "handed_inv (w_goos w) (w_cwd w) rootfs st u" .
  from parse_generated_inv [OF this g] have "handed_inv (w_goos w) (w_cwd w) rootfs st1 v" .
  from parse_9pfs_handed [OF this n] no res obtain hs where
    "handed_list (w_goos w) (w_cwd w) rootfs st2 w' hs" by auto
  then show ?thesis by (auto simp: handed_list_def res)
qed

subsection \<open>Values of the environment\<close>

text \<open>The value of a variable such as \<open>LKL_NET\<close> is not cut off after the name but trimmed of
  every leading character that occurs in the name: the interface that is opened and announced
  is the one the user named exactly when its name does not begin with such a character.\<close>

theorem env_value_trimmed:
  "let ifname = dropWhile (\<lambda>c. c \<in> set ''LKL_NET='') v in
     parse_env rootfs procEnv (''LKL_NET='' @ v) st w =
       bnd (openNetFd ifname procEnv)
         (\<lambda>f. ret (pass_fd (''__RUMP_FDINFO_NET_'' @ ifname) f st)) w \<and>
     (if v = [] then ifname = v else (ifname = v) = (hd v \<notin> set ''LKL_NET=''))"
proof -
  have pre: "hasPrefix (''LKL_NET='' @ v) ''LKL_NET=''" by (rule hasPrefix_append)
  moreover have "\<not> hasPrefix (''LKL_NET='' @ v) ''LKL_ROOTFS=''" by (simp add: hasPrefix_def)
  ultimately have "parse_env rootfs procEnv (''LKL_NET='' @ v) st w = parse_net procEnv (''LKL_NET='' @ v) st w"
    by (simp only: parse_env_def if_False if_True)
  then show ?thesis
    using trimLeft_own_prefix [of "''LKL_NET=''" v] dropWhile_id_iff [of "\<lambda>c. c \<in> set ''LKL_NET=''" v]
    by (simp add: parse_net_def Let_def fdInfoEnvPrefixNet_def del: append.simps set_simps)
qed

end
