(* ===== verification/Launch.thy ===== *)
theory Launch
  imports Env_Args "HOL-Library.Multiset"
begin

text \<open>
  \<open>prepareUkontainer\<close> in \<open>utils.go\<close>: the process of the unikernel is set up, started, recorded
  in the pid file, stopped, and the modes of the passed descriptors are put back. The main
  lemma says that the process sees, under every number its environment announces, the file,
  interface or socket that the announcement stands for, whatever order Go's maps are
  enumerated in.
\<close>

subsection \<open>The command\<close>

text \<open>The program as it is called inside the root: what \<open>strings.Split\<close> leaves after it.\<close>

definition chroot_path :: "string \<Rightarrow> string \<Rightarrow> string option" where
  "chroot_path rootfs binpath =
     (if hasPrefix binpath rootfs then Some (strings_Split binpath rootfs ! 1) else None)"

definition search_path :: "string \<Rightarrow> string" where
  "search_path rootfs = rootfs @ '':'' @ rootfs @ ''/sbin:'' @ rootfs @ ''/bin:/bin:/sbin:''"

definition fallback_path :: "string \<Rightarrow> string" where
  "fallback_path rootfs = ''/bin:/sbin:/usr/bin:'' @ rootfs @ '':'' @ rootfs @ ''/sbin:'' @ rootfs @ ''/bin''"

text \<open>On Linux the process is put into the root, and the program is looked up in it.\<close>

definition enter_chroot :: "string \<Rightarrow> string \<Rightarrow> cmd \<Rightarrow> cmd io" where
  "enter_chroot rootfs arg0 cmd =
     (let cmd = cmd\<lparr>c_Chroot := Some rootfs\<rparr>;
          found = (\<lambda>binpath. case chroot_path rootfs binpath of Some p \<Rightarrow> cmd\<lparr>c_Path := p\<rparr> | None \<Rightarrow> cmd)
      in bnd (exec_LookPath arg0) (\<lambda>r. case r of
           Inl err \<Rightarrow> thn (os_Setenv ''PATH'' (fallback_path rootfs)) (ret (found []))
         | Inr binpath \<Rightarrow> ret (found binpath)))"

definition make_command :: "oci_process \<Rightarrow> string \<Rightarrow> cmd io" where
  "make_command p rootfs =
     thn (os_Setenv ''PATH'' (search_path rootfs)) (
     bnd (gets w_goos) (\<lambda>os.
     case pr_Args p of
       [] \<Rightarrow> go_panic ''index out of range''
     | arg0 # args \<Rightarrow>
         bnd (exec_Command arg0 args) (\<lambda>cmd.
         bnd (isAlpineImage rootfs) (\<lambda>alpine.
         bnd (if alpine \<and> os = Darwin then exec_Command ''lkick'' (arg0 # args) else ret cmd) (\<lambda>cmd.
         if os = Linux then enter_chroot rootfs arg0 (cmd\<lparr>c_Dir := ''/''\<rparr>)
         else ret (cmd\<lparr>c_Dir := ''/''\<rparr>))))))"

subsection \<open>Descriptors in order\<close>

text \<open>A map is enumerated in an order of the runtime's choice, given as \<open>ord\<close>; the keys are
  sorted by their descriptor before they are passed.\<close>

definition extra_files :: "((gofile \<times> bool) list \<Rightarrow> (gofile \<times> bool) list) \<Rightarrow> (gofile \<times> bool) list \<Rightarrow> gofile list" where
  "extra_files ord fds = sort_key file_Fd (map fst (ord fds))"

text \<open>\<open>int(fd.Fd())\<close> of a \<open>nil\<close> file is -1, which is no descriptor.\<close>

definition file_SetNonblock :: "gofile \<Rightarrow> bool \<Rightarrow> (oserr option) io" where
  "file_SetNonblock f nb = (case f of None \<Rightarrow> ret (Some EBADF) | Some n \<Rightarrow> syscall_SetNonblock n nb)"

fun restore_modes :: "(gofile \<times> bool) list \<Rightarrow> unit io" where
  "restore_modes [] = ret ()"
| "restore_modes ((fd, nbFlag) # rest) =
     bnd (file_SetNonblock fd nbFlag) (\<lambda>r. case r of
       Some err \<Rightarrow> go_panic ''setNonBlock''
     | None \<Rightarrow> restore_modes rest)"

subsection \<open>Starting the process\<close>

definition write_pid_file :: "string \<Rightarrow> int \<Rightarrow> unit io" where
  "write_pid_file pidf pid =
     bnd (os_OpenCreate True pidf 438) (\<lambda>f. bnd (f_Write f (itoa pid)) (\<lambda>_. ret ()))"

definition start_stopped :: "cli_ctx \<Rightarrow> cmd \<Rightarrow> int io" where
  "start_stopped ctx cmd =
     bnd (cmd_Start cmd) (\<lambda>r. case r of
       Inl err \<Rightarrow> go_panic ''cmd error''
     | Inr pid \<Rightarrow>
         thn (write_pid_file (filepath_Join [g_root ctx, args_Get ctx 0, pidFilePriv]) pid) (
         bnd (gets w_goos) (\<lambda>os.
         bnd (proc_Signal pid (sigstop os)) (\<lambda>_.
         ret pid))))"

fun make_devices :: "string \<Rightarrow> device list \<Rightarrow> unit io" where
  "make_devices rootfs [] = ret ()"
| "make_devices rootfs (node # nodes) = thn (createDeviceNode rootfs node) (make_devices rootfs nodes)"

text \<open>What follows once the specification is loaded.\<close>

definition launch ::
  "netenv \<Rightarrow> ((gofile \<times> bool) list \<Rightarrow> (gofile \<times> bool) list) \<Rightarrow> ((gofile \<times> bool) list \<Rightarrow> (gofile \<times> bool) list)
     \<Rightarrow> cli_ctx \<Rightarrow> oci_spec \<Rightarrow> string \<Rightarrow> (cmd \<times> int) io" where
  "launch N ord1 ord2 ctx spec rootfs =
     bnd (parseEnvs N spec ctx rootfs) (\<lambda>(specEnv, fds).
     thn (changeLdso spec rootfs) (
     bnd (gets w_goos) (\<lambda>os.
     thn (make_devices rootfs (DefaultDevices os)) (
     bnd (deref (sp_Process spec)) (\<lambda>p.
     bnd (make_command p rootfs) (\<lambda>cmd.
     bnd (os_Getenv ''PATH'') (\<lambda>path.
     let cmd = cmd\<lparr>c_Env := specEnv @ [''PATH=/bin:/sbin:'' @ path],
                   c_ExtraFiles := extra_files ord1 fds\<rparr> in
     bnd (start_stopped ctx cmd) (\<lambda>pid.
     thn (restore_modes (ord2 fds))
     (ret (cmd, pid))))))))))"

definition prepareUkontainer ::
  "netenv \<Rightarrow> ((gofile \<times> bool) list \<Rightarrow> (gofile \<times> bool) list) \<Rightarrow> ((gofile \<times> bool) list \<Rightarrow> (gofile \<times> bool) list)
     \<Rightarrow> cli_ctx \<Rightarrow> (goerr + cmd \<times> int) io" where
  "prepareUkontainer N ord1 ord2 ctx =
     bnd (setupSpec ctx) (\<lambda>r. case r of
       Inl err \<Rightarrow> ret (Inl err)
     | Inr spec \<Rightarrow>
         bnd (deref (sp_Root spec)) (\<lambda>rt.
         bnd (abs_path (rt_Path rt)) (\<lambda>rootfs.
         bnd (launch N ord1 ord2 ctx spec rootfs) (\<lambda>r. ret (Inr r)))))"

subsection \<open>Frames\<close>

lemma copyFile_fobj [keeps_intros]: "keeps fobj_kept (copyFile s d m)"
  unfolding copyFile_def by (intro fok.kp_rules keeps_intros)+

lemma changeLdso_fobj [keeps_intros]: "keeps fobj_kept (changeLdso spec rootfs)"
  unfolding changeLdso_def Let_def by (intro fok.kp_rules keeps_intros)+

lemma createDeviceNode_fobj [keeps_intros]: "keeps fobj_kept (createDeviceNode rootfs node)"
  unfolding createDeviceNode_def mknodDevice_def Let_def by (intro fok.kp_rules keeps_intros)+

lemma make_devices_fobj [keeps_intros]: "keeps fobj_kept (make_devices rootfs nodes)"
  by (induction nodes) (simp_all only: make_devices.simps, (intro fok.kp_rules keeps_intros | assumption)+)

lemma isAlpineImage_look: "(\<And>w. R w w) \<Longrightarrow> keeps R (isAlpineImage rootfs)"
  unfolding isAlpineImage_def
  by (rule pure_keeps) (intro idk.kp_rules keeps_intros)+

lemma enter_chroot_keeps [keeps_intros]:
  "keeps fobj_kept (enter_chroot rootfs arg0 cmd)" "keeps place_kept (enter_chroot rootfs arg0 cmd)"
  unfolding enter_chroot_def Let_def by (intro fok.kp_rules plk.kp_rules keeps_intros)+

lemma make_command_fobj [keeps_intros]: "keeps fobj_kept (make_command p rootfs)"
  unfolding make_command_def Let_def
  by (auto intro!: fok.kp_rules keeps_intros isAlpineImage_look fok.frame_refl split: list.splits)

lemma write_pid_file_keeps [keeps_intros]:
  "keeps fobj_kept (write_pid_file p i)" "keeps procs_kept (write_pid_file p i)"
  "keeps static_kept (write_pid_file p i)" "keeps trace_kept (write_pid_file p i)"
  "keeps wf_kept (write_pid_file p i)" "keeps place_kept (write_pid_file p i)"
  unfolding write_pid_file_def
  by (intro fok.kp_rules prk.kp_rules stk.kp_rules trk.kp_rules wfk.kp_rules plk.kp_rules keeps_intros)+

lemma start_stopped_fobj [keeps_intros]: "keeps fobj_kept (start_stopped ctx cmd)"
  unfolding start_stopped_def by (intro fok.kp_rules keeps_intros)+

subsection \<open>Order does not matter\<close>

text \<open>The files come out in the order of their descriptors, however the map is enumerated.\<close>

lemma extra_files_sorted:
  assumes "mset (ord fds) = mset fds" and "fds = map (\<lambda>h. (Some (h_fd h), h_nb h)) hs"
    and "sorted_wrt (<) (map h_fd hs)"
  shows "extra_files ord fds = map (\<lambda>h. Some (h_fd h)) hs"
proof -
  let ?l = "map fst (ord fds)" let ?r = "map (\<lambda>h. Some (h_fd h)) hs"
  have "mset ?l = mset (map fst fds)" by (simp only: mset_map assms(1))
  then have m: "mset ?l = mset ?r" by (simp add: assms(2) comp_def)
  have r: "map file_Fd ?r = map h_fd hs" by (simp add: file_Fd_def)
  have str: "sorted (map file_Fd ?r)" "distinct (map file_Fd ?r)"
    unfolding r using assms(3) by (simp_all add: strict_sorted_iff)
  have "mset (map file_Fd ?l) = mset (map file_Fd ?r)" by (metis m mset_map)
  then have dl: "distinct (map file_Fd ?l)" using str(2) mset_eq_imp_distinct_iff by blast
  show ?thesis unfolding extra_files_def
  proof (rule map_sorted_distinct_set_unique [where f = file_Fd])
    show "inj_on file_Fd (set (sort_key file_Fd ?l) \<union> set ?r)"
      using mset_eq_setD [OF m] by (auto simp: inj_on_def file_Fd_def)
    show "distinct (map file_Fd (sort_key file_Fd ?l))"
      using dl by (metis distinct_map distinct_sort set_sort)
    show "set (sort_key file_Fd ?l) = set ?r" using mset_eq_setD [OF m] by simp
  qed (use str in simp_all)
qed

subsection \<open>Modes\<close>

lemma SetNonblock_Ret:
  "syscall_SetNonblock n nb w = (Ret None, w') \<Longrightarrow>
     \<exists>i. fd_get (w_fds w) n = Some i \<and>
       (\<forall>m. fd_get (w_fds w') m = (if m = n then Some (i\<lparr>fd_nonblock := nb\<rparr>) else fd_get (w_fds w) m))"
  by (auto simp: syscall_SetNonblock_def fd_get_def fd_set_def split: option.splits if_splits)

lemma file_SetNonblock_keeps [keeps_intros]:
  "keeps fobj_kept (file_SetNonblock f b)" "keeps procs_kept (file_SetNonblock f b)"
  "keeps place_kept (file_SetNonblock f b)"
  unfolding file_SetNonblock_def
  by (intro fok.kp_rules prk.kp_rules plk.kp_rules keeps_intros)+

lemma restore_modes_keeps [keeps_intros]:
  "keeps fobj_kept (restore_modes fds)" "keeps procs_kept (restore_modes fds)"
  "keeps place_kept (restore_modes fds)"
  by (induction fds rule: restore_modes.induct)
    (auto intro!: fok.kp_rules prk.kp_rules plk.kp_rules keeps_intros)

lemma restore_modes_others:
  "restore_modes fds w = (Ret (), w') \<Longrightarrow> Some n \<notin> fst ` set fds \<Longrightarrow>
     fd_get (w_fds w') n = fd_get (w_fds w) n"
proof (induction fds arbitrary: w rule: restore_modes.induct)
  case (2 f b rest)
  then obtain u where step: "file_SetNonblock f b w = (Ret None, u)"
    and rest: "restore_modes rest u = (Ret (), w')"
    by (auto simp: bnd_iffs)
  from step 2(3) have "fd_get (w_fds u) n = fd_get (w_fds w) n"
    by (cases f) (auto simp: file_SetNonblock_def dest: SetNonblock_Ret)
  with 2 rest show ?case by auto
qed simp

lemma restore_modes_Ret:
  "restore_modes fds w = (Ret (), w') \<Longrightarrow> distinct (map fst fds) \<Longrightarrow>
     None \<notin> fst ` set fds \<and>
     (\<forall>(f, b) \<in> set fds. \<exists>n i. f = Some n \<and> fd_get (w_fds w') n = Some i \<and> fd_nonblock i = b)"
proof (induction fds arbitrary: w rule: restore_modes.induct)
  case (2 f b rest)
  then obtain u where step: "file_SetNonblock f b w = (Ret None, u)"
    and rest: "restore_modes rest u = (Ret (), w')"
    by (auto simp: bnd_iffs)
  from step obtain n where f: "f = Some n" and st: "syscall_SetNonblock n b w = (Ret None, u)"
    by (cases f) (auto simp: file_SetNonblock_def)
  from SetNonblock_Ret [OF st] obtain i where "fd_get (w_fds u) n = Some (i\<lparr>fd_nonblock := b\<rparr>)" by auto
  moreover have "Some n \<notin> fst ` set rest" using 2(3) by (simp add: f)
  ultimately have "fd_get (w_fds w') n = Some (i\<lparr>fd_nonblock := b\<rparr>)"
    using restore_modes_others [OF rest] by simp
  moreover have "fd_nonblock (i\<lparr>fd_nonblock := b\<rparr>) = b" by simp
  ultimately show ?case using 2(1) [OF rest] 2(3) by (auto simp: f)
qed simp

lemma restore_modes_no_nil: "restore_modes fds w = (Ret (), w') \<Longrightarrow> None \<notin> fst ` set fds"
  by (induction fds arbitrary: w rule: restore_modes.induct)
     (auto simp: bnd_iffs file_SetNonblock_def split: option.splits)

subsection \<open>The started process\<close>

lemma cmd_Start_Inr:
  assumes "cmd_Start c w = (Ret (Inr pid), w')"
  shows "pid = w_next_pid w \<and> (\<exists>pr. w_procs w' pid = Some pr \<and> p_Env pr = c_Env c \<and>
    p_Path pr = c_Path c \<and> p_Args pr = c_Args c \<and> p_Chroot pr = c_Chroot c \<and> p_State pr = PRunning \<and>
    p_Files pr = map (\<lambda>f. Option.bind f (\<lambda>n. map_option fd_obj (fd_get (w_fds w) n))) (c_ExtraFiles c))"
  using assms by (auto simp: cmd_Start_def Let_def split: option.splits sum.splits if_splits)

lemma proc_Signal_proc:
  assumes "w_procs w pid = Some pr" and "proc_Signal pid sig w = (Ret e, w')"
  shows "\<exists>st. w_procs w' pid = Some (pr\<lparr>p_State := st\<rparr>) \<and>
    (0 < pid \<and> 0 \<le> sig \<and> sig \<le> 64 \<and> w_fault w (OpKill pid) = None \<longrightarrow>
       st = signal_effect (w_goos w) sig (p_State pr))"
proof -
  have "\<exists>st. w_procs w pid = Some (pr\<lparr>p_State := st\<rparr>)"
    using assms(1) by (metis (full_types) proc.surjective proc.update_convs(7) old.unit.exhaust)
  then show ?thesis
    using assms by (auto simp: proc_Signal_def unix_Kill_def bnd_iffs split: if_splits option.splits)
qed

lemma start_stopped_Ret:
  assumes "start_stopped ctx c w = (Ret pid, w')"
  shows "pid = w_next_pid w \<and> (\<exists>pr. w_procs w' pid = Some pr \<and> p_Env pr = c_Env c \<and>
    p_Path pr = c_Path c \<and> p_Args pr = c_Args c \<and> p_Chroot pr = c_Chroot c \<and>
    (0 < pid \<and> w_fault w (OpKill pid) = None \<longrightarrow> p_State pr = PStopped) \<and>
    p_Files pr = map (\<lambda>f. Option.bind f (\<lambda>n. map_option fd_obj (fd_get (w_fds w) n))) (c_ExtraFiles c))"
proof -
  from assms obtain u v e where st: "cmd_Start c w = (Ret (Inr pid), u)"
    and wr: "write_pid_file (filepath_Join [g_root ctx, args_Get ctx 0, pidFilePriv]) pid u = (Ret (), v)"
    and sg: "proc_Signal pid (sigstop (w_goos v)) v = (Ret e, w')"
    by (auto simp: start_stopped_def bnd_iffs)
  from cmd_Start_Inr [OF st] obtain pr where pr: "w_procs u pid = Some pr" "p_Env pr = c_Env c"
      "p_Path pr = c_Path c" "p_Args pr = c_Args c" "p_Chroot pr = c_Chroot c" "p_State pr = PRunning"
      "p_Files pr = map (\<lambda>f. Option.bind f (\<lambda>n. map_option fd_obj (fd_get (w_fds w) n))) (c_ExtraFiles c)"
    and pid: "pid = w_next_pid w" by blast
  have "w_procs v pid = Some pr"
    using pr(1) keepsE [OF write_pid_file_keeps(2) wr] by (simp add: procs_kept_def)
  moreover have "w_fault v = w_fault w"
    using keepsE [OF all_keep_static(17) st] keepsE [OF write_pid_file_keeps(3) wr]
    by (simp add: static_kept_def)
  moreover have "signal_effect os (sigstop os) PRunning = PStopped" "0 \<le> sigstop os" "sigstop os \<le> 64" for os
    by (cases os; simp add: signal_effect_def SIGKILL_def)+
  ultimately show ?thesis
    using proc_Signal_proc [OF _ sg, of pr] pr pid by auto
qed

subsection \<open>The hand-over\<close>

lemma launch_steps_place [keeps_intros]:
  "keeps place_kept (changeLdso spec rootfs)" "keeps place_kept (createDeviceNode rootfs node)"
  "keeps place_kept (start_stopped ctx cmd)"
  unfolding changeLdso_def createDeviceNode_def mknodDevice_def start_stopped_def Let_def
  by (intro plk.kp_rules keeps_intros)+

lemma make_devices_place [keeps_intros]: "keeps place_kept (make_devices rootfs nodes)"
  by (induction nodes) (simp_all only: make_devices.simps, (intro plk.kp_rules keeps_intros | assumption)+)

lemma make_command_place [keeps_intros]: "keeps place_kept (make_command p rootfs)"
  unfolding make_command_def Let_def
  by (auto intro!: plk.kp_rules keeps_intros isAlpineImage_look plk.frame_refl split: list.splits)

lemma enter_chroot_root: "enter_chroot rootfs arg0 cmd w = (Ret c, w') \<Longrightarrow> c_Chroot c = Some rootfs"
  by (auto simp: enter_chroot_def Let_def bnd_iffs split: option.splits)

lemma make_command_chroot:
  "make_command p rootfs w = (Ret c, w') \<Longrightarrow> w_goos w = Linux \<Longrightarrow> c_Chroot c = Some rootfs"
  by (cases "pr_Args p") (auto simp: make_command_def os_Setenv_def bnd_Ret_iff thn_Ret_iff
      dest: enter_chroot_root)

lemma launch_result:
  assumes run: "launch N ord1 ord2 ctx spec rootfs w = (Ret (c, pid), w')"
    and ord1: "\<And>xs. mset (ord1 xs) = mset xs" and ord2: "\<And>xs. mset (ord2 xs) = mset xs"
  shows "\<exists>pr hs. w_procs w' pid = Some pr \<and> p_Files pr = map (\<lambda>h. Some (h_obj h)) hs \<and>
    (w_goos w = Linux \<longrightarrow> p_Chroot pr = Some rootfs) \<and>
    (0 < pid \<and> w_fault w (OpKill pid) = None \<longrightarrow> p_State pr = PStopped) \<and>
    (\<forall>i < length hs. handed_ok (w_goos w) (w_cwd w) rootfs w' (p_Env pr) i (hs ! i)) \<and>
    (\<forall>h \<in> set hs. map_option fd_nonblock (fd_get (w_fds w') (h_fd h)) = Some (h_nb h))"
proof -
  from run obtain env fds w1 x w2 w3 p c0 wm w4 path w5 where
    p: "sp_Process spec = Some p" and
    en: "parseEnvs N spec ctx rootfs w = (Ret (env, fds), w1)" and
    ld: "changeLdso spec rootfs w1 = (Ret x, w2)" and
    dv: "make_devices rootfs (DefaultDevices (w_goos w2)) w2 = (Ret (), w3)" and
    mk: "make_command p rootfs w3 = (Ret c0, wm)" and
    gp: "os_Getenv ''PATH'' wm = (Ret path, w4)" and
    c: "c = c0\<lparr>c_Env := env @ [''PATH=/bin:/sbin:'' @ path], c_ExtraFiles := extra_files ord1 fds\<rparr>" and
    st: "start_stopped ctx c w4 = (Ret pid, w5)" and
    rm: "restore_modes (ord2 fds) w5 = (Ret (), w')"
    by (auto simp: launch_def Let_def bnd_iffs split_paired_Ex deref_def split: option.splits)
  from gp have "wm = w4" by (simp add: os_Getenv_def)
  note mk = mk [unfolded this]
  have "set (ord2 fds) = set fds" using ord2 mset_eq_setD by blast
  with restore_modes_no_nil [OF rm] have no: "None \<notin> fst ` set fds" by simp
  from parseEnvs_hands_over [OF en no] obtain hs where
    hs: "fds = map (\<lambda>h. (Some (h_fd h), h_nb h)) hs" "sorted_wrt (<) (map h_fd hs)"
    and ok: "\<forall>i < length hs. handed_ok (w_goos w) (w_cwd w) rootfs w1 env i (hs ! i)" by blast
  have files: "c_ExtraFiles c = map (\<lambda>h. Some (h_fd h)) hs"
    using extra_files_sorted [of ord1, OF ord1 hs] by (simp add: c)
  have "fobj_kept w1 w4"
    using keepsE [OF changeLdso_fobj ld] keepsE [OF make_devices_fobj dv] keepsE [OF make_command_fobj mk]
    by (blast intro: fok.frame_trans)
  moreover have "fobj_kept w4 w'"
    using keepsE [OF start_stopped_fobj st] keepsE [OF restore_modes_keeps(1) rm]
    by (blast intro: fok.frame_trans)
  ultimately have obj: "map_option fd_obj (fd_get (w_fds w4) (h_fd h)) = Some (h_obj h)"
      "map_option fd_obj (fd_get (w_fds w') (h_fd h)) = Some (h_obj h)" if "h \<in> set hs" for h
    using that ok by (auto simp: fobj_kept_def handed_ok_def in_set_conv_nth)
  from start_stopped_Ret [OF st] obtain pr where "w_procs w5 pid = Some pr" and
    env: "p_Env pr = c_Env c" "p_Chroot pr = c_Chroot c"
      "0 < pid \<and> w_fault w4 (OpKill pid) = None \<longrightarrow> p_State pr = PStopped"
    and pf: "p_Files pr = map (\<lambda>f. Option.bind f (\<lambda>n. map_option fd_obj (fd_get (w_fds w4) n))) (c_ExtraFiles c)"
    by blast
  then have pr: "w_procs w' pid = Some pr"
    using keepsE [OF restore_modes_keeps(2) rm] by (simp add: procs_kept_def)
  have "p_Files pr = map (\<lambda>h. Some (h_obj h)) hs"
    using obj(1) by (simp add: pf files)
  moreover have w3: "place_kept w w3"
    using keepsE [OF parseEnvs_keeps en] keepsE [OF launch_steps_place(1) ld] keepsE [OF make_devices_place dv]
    by (blast intro: plk.frame_trans)
  then have "p_Chroot pr = Some rootfs" if "w_goos w = Linux"
    using that make_command_chroot [OF mk] by (simp add: place_kept_def static_kept_def env c)
  moreover have "w_fault w4 = w_fault w"
    using w3 keepsE [OF make_command_place mk] by (simp add: place_kept_def static_kept_def)
  with env(3) have "0 < pid \<and> w_fault w (OpKill pid) = None \<longrightarrow> p_State pr = PStopped" by simp
  moreover have "handed_ok (w_goos w) (w_cwd w) rootfs w' (p_Env pr) i (hs ! i)" if "i < length hs" for i
    using ok that obj(2) [of "hs ! i"] by (simp add: handed_ok_def env c)
  moreover have "map_option fd_nonblock (fd_get (w_fds w') (h_fd h)) = Some (h_nb h)" if "h \<in> set hs" for h
  proof -
    have "distinct (map fst fds)"
      using hs(2) by (simp add: hs(1) comp_def distinct_map inj_on_def strict_sorted_iff)
    moreover have "mset (map fst (ord2 fds)) = mset (map fst fds)" by (simp only: mset_map ord2)
    ultimately have "distinct (map fst (ord2 fds))" using mset_eq_imp_distinct_iff by blast
    with restore_modes_Ret [OF rm] that \<open>set (ord2 fds) = set fds\<close> show ?thesis
      by (fastforce simp: hs(1))
  qed
  ultimately show ?thesis using pr by blast
qed

lemma prepareUkontainer_launch:
  assumes "prepareUkontainer N ord1 ord2 ctx w = (Ret (Inr (c, pid)), w')"
  obtains spec rt u where "setupSpec ctx w = (Ret (Inr spec), u)" and "sp_Root spec = Some rt"
    and "launch N ord1 ord2 ctx spec (filepath_Abs (w_cwd u) (rt_Path rt)) u = (Ret (c, pid), w')"
    and "w_goos u = w_goos w" and "w_fault u = w_fault w" and "w_cwd w' = w_cwd u"
proof -
  from assms obtain spec rt u where su: "setupSpec ctx w = (Ret (Inr spec), u)"
    and rt: "sp_Root spec = Some rt"
    and la: "launch N ord1 ord2 ctx spec (filepath_Abs (w_cwd u) (rt_Path rt)) u = (Ret (c, pid), w')"
    by (auto simp: prepareUkontainer_def bnd_iffs deref_def abs_path_def split: option.splits)
  have os: "w_goos u = w_goos w" "w_fault u = w_fault w"
    using keepsE [OF setupSpec_keeps(2) su] by (simp_all add: static_kept_def)
  have "keeps place_kept (launch N ord1 ord2 ctx spec rootfs)" for rootfs
    unfolding launch_def Let_def by (intro plk.kp_rules keeps_intros)+
  from keepsE [OF this la] have "w_cwd w' = w_cwd u" by (simp add: place_kept_def)
  with su rt la os show thesis by (rule that)
qed



text \<open>The program path inside the root is what follows the root in the path found outside,
  but only up to the next place where the text of the root occurs again: a program below
  such a place is started under a cut-off name.\<close>

theorem program_path_cut:
  assumes "rootfs \<noteq> []"
  shows "if strings_Contains v rootfs
    then \<exists>a b. v = a @ rootfs @ b \<and> chroot_path rootfs (rootfs @ v) = Some a
    else chroot_path rootfs (rootfs @ v) = Some v"
proof (cases "find_sub rootfs v")
  case None
  then show ?thesis
    using strings_Split_after_prefix [OF assms, of v] by (simp add: strings_Contains_def chroot_path_def)
next
  case (Some i)
  then have "v = take i v @ rootfs @ drop (i + length rootfs) v" by (rule find_sub_split)
  with Some show ?thesis
    using strings_Split_after_prefix [OF assms, of v]
    by (auto simp: strings_Contains_def chroot_path_def)
qed

subsection \<open>Witness of the hand-over\<close>

definition demo_launch_spec :: oci_spec where
  "demo_launch_spec = demo_spec\<lparr>sp_Process := Some
     \<lparr>pr_Terminal = False, pr_Args = [''sh''], pr_Env = [''LKL_NET=tap0'', ''LKL_ROOTFS=disk.img'', ''A=1''],
      pr_Cwd = ''/'', pr_NoNewPrivileges = True\<rparr>\<rparr>"

definition demo_launch_world :: world where
  "demo_launch_world = demo_world\<lparr>w_fs := map_of
     (([''b'', ''config.json''], File (SpecDoc demo_launch_spec) 438) #
      ([''b'', ''rootfs'', ''disk.img''], File (Text []) 438) #
      ([''dev''], Dir) # ([''dev'', ''net''], Dir) # ([''dev'', ''net'', ''tun''], DevNode 8630 2760) # demo_nodes)\<rparr>"

lemma demo_launch_run:
  "case fst (prepareUkontainer demo_net rev rev demo_ctx demo_launch_world) of
     Ret (Inr (c, pid)) \<Rightarrow> pid = 43 \<and> c_Path c = ''/bin/sh'' | _ \<Rightarrow> False"
  by code_simp

lemma demo_launch_obtain:
  obtains c w' where "prepareUkontainer demo_net rev rev demo_ctx demo_launch_world = (Ret (Inr (c, 43)), w')"
  using demo_launch_run
  by (cases "prepareUkontainer demo_net rev rev demo_ctx demo_launch_world")
     (auto split: outcome.splits sum.splits)



lemma program_path_cut_witness:
  "chroot_path ''/b'' ''/b/x'' = Some ''/x'' \<and> chroot_path ''/b'' ''/b/bin/sh'' \<noteq> Some ''/bin/sh''"
proof -
  have "\<not> strings_Contains ''/x'' ''/b''" and "strings_Contains ''/bin/sh'' ''/b''" by code_simp+
  with program_path_cut [of "''/b''" "''/x''"] program_path_cut [of "''/b''" "''/bin/sh''"]
  show ?thesis by (auto simp: Cons_eq_append_conv)
qed

end
