(* ===== verification/Launch_Order.thy ===== *)
theory Launch_Order
  imports Launch
begin

text \<open>
  \<open>prepareUkontainer\<close> (\<open>utils.go\<close>) enumerates its map of files twice. The lemmas give its last
  loop as a fold over the descriptor table whose steps commute, and show that a successful run
  is the same run, state for state, under any two orders.
\<close>

subsection \<open>The loop over the modes as a fold\<close>

definition set_mode :: "gofile \<times> bool \<Rightarrow> fdinfo option list \<Rightarrow> fdinfo option list" where
  "set_mode fb t = (case fst fb of None \<Rightarrow> t
    | Some n \<Rightarrow> if n < length t then t[n := map_option (\<lambda>i. i\<lparr>fd_nonblock := snd fb\<rparr>) (t ! n)] else t)"

definition mode_ok :: "world \<Rightarrow> gofile \<Rightarrow> bool" where
  "mode_ok w f \<longleftrightarrow> (case f of None \<Rightarrow> False
    | Some n \<Rightarrow> fd_get (w_fds w) n \<noteq> None \<and> w_fault w (OpNonblock n) = None)"

lemma file_SetNonblock_Ret:
  "file_SetNonblock f b w = (Ret None, w') \<longleftrightarrow> mode_ok w f \<and> w' = w\<lparr>w_fds := set_mode (f, b) (w_fds w)\<rparr>"
  by (auto simp: file_SetNonblock_def syscall_SetNonblock_def mode_ok_def set_mode_def fd_set_def fd_get_def
      split: option.splits if_splits)

lemma mode_ok_set_mode [simp]: "mode_ok (w\<lparr>w_fds := set_mode fb (w_fds w)\<rparr>) f = mode_ok w f"
  by (auto simp: mode_ok_def set_mode_def fd_get_def nth_list_update split: option.splits)

lemma restore_modes_fold:
  "restore_modes fds w = (Ret (), w') \<longleftrightarrow>
     (\<forall>fb\<in>set fds. mode_ok w (fst fb)) \<and> w' = w\<lparr>w_fds := fold set_mode fds (w_fds w)\<rparr>"
proof (induction fds arbitrary: w)
  case (Cons fb rest)
  then show ?case
    by (cases fb) (auto simp: bnd_iffs file_SetNonblock_Ret)
qed auto

lemma set_mode_commute:
  assumes "fst x \<noteq> fst y"
  shows "set_mode x (set_mode y t) = set_mode y (set_mode x t)"
proof (cases "fst x")
  case (Some n)
  show ?thesis
  proof (cases "fst y")
    case (Some m)
    with assms \<open>fst x = Some n\<close> have "n \<noteq> m" by simp
    then show ?thesis
      using Some \<open>fst x = Some n\<close> by (simp add: set_mode_def list_update_swap [of n m])
  qed (simp add: set_mode_def)
qed (simp add: set_mode_def)

lemma fold_set_mode_perm:
  assumes "mset xs = mset ys" and "distinct (map fst xs)"
  shows "fold set_mode xs = fold set_mode ys"
proof (rule fold_multiset_equiv [OF _ assms(1)])
  fix x y assume "x \<in> set xs" "y \<in> set xs"
  then have "x = y \<or> fst x \<noteq> fst y" using assms(2) by (auto simp: distinct_map inj_on_def)
  then show "set_mode x \<circ> set_mode y = set_mode y \<circ> set_mode x"
    using set_mode_commute [of x y] by (auto simp: fun_eq_iff)
qed

lemma restore_modes_perm:
  assumes "mset xs = mset ys" and "distinct (map fst xs)" and "restore_modes xs w = (Ret (), w')"
  shows "restore_modes ys w = (Ret (), w')"
  using assms(3) fold_set_mode_perm [OF assms(1,2)] mset_eq_setD [OF assms(1)]
  by (simp add: restore_modes_fold)

subsection \<open>The launch\<close>

lemma launch_perm:
  assumes run: "launch N ord1 ord2 ctx spec rootfs w = (Ret r, w')"
    and ords: "\<And>xs. mset (ord1 xs) = mset xs" "\<And>xs. mset (ord2 xs) = mset xs"
      "\<And>xs. mset (ord1' xs) = mset xs" "\<And>xs. mset (ord2' xs) = mset xs"
  shows "launch N ord1' ord2' ctx spec rootfs w = (Ret r, w')"
proof -
  from run obtain env fds w1 x w2 w3 p c0 wm w4 path w5 pid c where
    p: "sp_Process spec = Some p" and
    en: "parseEnvs N spec ctx rootfs w = (Ret (env, fds), w1)" and
    ld: "changeLdso spec rootfs w1 = (Ret x, w2)" and
    dv: "make_devices rootfs (DefaultDevices (w_goos w2)) w2 = (Ret (), w3)" and
    mk: "make_command p rootfs w3 = (Ret c0, wm)" and
    gp: "os_Getenv ''PATH'' wm = (Ret path, w4)" and
    c: "c = c0\<lparr>c_Env := env @ [''PATH=/bin:/sbin:'' @ path], c_ExtraFiles := extra_files ord1 fds\<rparr>" and
    st: "start_stopped ctx c w4 = (Ret pid, w5)" and
    rm: "restore_modes (ord2 fds) w5 = (Ret (), w')" and r: "r = (c, pid)"
    by (auto simp: launch_def Let_def bnd_iffs split_paired_Ex deref_def split: option.splits)
  have "set (ord2 fds) = set fds" using ords(2) mset_eq_setD by blast
  with restore_modes_no_nil [OF rm] have no: "None \<notin> fst ` set fds" by simp
  from parseEnvs_hands_over [OF en no] obtain hs :: "handed list" where
    hs: "fds = map (\<lambda>h. (Some (h_fd h), h_nb h)) hs" "sorted_wrt (<) (map h_fd hs)" by blast
  have same: "extra_files ord1' fds = extra_files ord1 fds"
    using extra_files_sorted [of ord1, OF ords(1) hs] extra_files_sorted [of ord1', OF ords(3) hs] by simp
  have "distinct (map fst fds)"
    using hs(2) by (simp add: hs(1) comp_def distinct_map inj_on_def strict_sorted_iff)
  then have "distinct (map fst (ord2 fds))"
    by (metis ords(2) mset_eq_imp_distinct_iff mset_map)
  then have "restore_modes (ord2' fds) w5 = (Ret (), w')"
    using restore_modes_perm [OF _ _ rm, of "ord2' fds"] ords by metis
  with p en ld dv mk gp c st r same show ?thesis
    by (simp add: launch_def Let_def bnd_def thn_def)
qed

text \<open>C16: a run of \<open>prepareUkontainer\<close> that succeeds does the same, down to the state of the machine
  it leaves, whatever orders Go's runtime enumerates the map of files in.\<close>

theorem prepareUkontainer_order_irrelevant:
  assumes "prepareUkontainer N ord1 ord2 ctx w = (Ret (Inr r), w')"
    and "\<And>xs. mset (ord1 xs) = mset xs" and "\<And>xs. mset (ord2 xs) = mset xs"
    and "\<And>xs. mset (ord1' xs) = mset xs" and "\<And>xs. mset (ord2' xs) = mset xs"
  shows "prepareUkontainer N ord1' ord2' ctx w = (Ret (Inr r), w')"
proof -
  from assms(1) obtain spec rt u where su: "setupSpec ctx w = (Ret (Inr spec), u)"
    and rt: "sp_Root spec = Some rt"
    and la: "launch N ord1 ord2 ctx spec (filepath_Abs (w_cwd u) (rt_Path rt)) u = (Ret r, w')"
    by (auto simp: prepareUkontainer_def bnd_iffs deref_def abs_path_def split: option.splits)
  from launch_perm [OF la assms(2-5)] su rt show ?thesis
    by (simp add: prepareUkontainer_def bnd_def abs_path_def)
qed

lemma prepareUkontainer_order_irrelevant_witness:
  "prepareUkontainer demo_net (\<lambda>xs. xs) (\<lambda>xs. xs) demo_ctx demo_launch_world =
   prepareUkontainer demo_net rev rev demo_ctx demo_launch_world"
proof -
  obtain c w' where run: "prepareUkontainer demo_net rev rev demo_ctx demo_launch_world = (Ret (Inr (c, 43)), w')"
    by (rule demo_launch_obtain)
  from prepareUkontainer_order_irrelevant [OF run] run show ?thesis by simp
qed

end
