(* ===== verification/Lifecycle.thy ===== *)
theory Lifecycle
  imports Launch Mounts Container_Store
begin

text \<open>
  The commands of the life cycle: \<open>create.go\<close>, \<open>boot.go\<close>, \<open>start.go\<close>, \<open>run.go\<close>,
  \<open>kill.go\<close> and \<open>exec.go\<close>. \<open>create\<close> starts a second instance of the program that boots the
  container and waits on a pipe for its byte; \<open>start\<close> and \<open>kill\<close> find the process through its
  pid file. The lemmas say what each command does to the process and to the recorded state;
  the theory \<open>Handshake\<close> treats the two instances side by side.
\<close>

subsection \<open>start and run\<close>

definition resumeUkontainer :: "cli_ctx \<Rightarrow> string \<Rightarrow> (goerr option) io" where
  "resumeUkontainer ctx container =
     bnd (readPidFile ctx pidFilePriv) (\<lambda>r. case r of
       Inl err \<Rightarrow> ret (Some (EFmt ''couldn't find pid %d'' [itoa 0]))
     | Inr pidI \<Rightarrow> bnd (os_FindProcess pidI) (\<lambda>r. case r of
         Inl err \<Rightarrow> ret (Some (EFmt ''couldn't find pid %d'' [itoa pidI]))
       | Inr proc \<Rightarrow>
           bnd (gets w_goos) (\<lambda>os.
           bnd (proc_Signal proc (sigcont os)) (\<lambda>_. ret None))))"

definition startCommand :: "cli_ctx \<Rightarrow> (goerr option) io" where
  "startCommand ctx =
     (if args_Present ctx = False then ret (Some missing_id)
      else
        let container = args_Get ctx 0 in
        bnd (resumeUkontainer ctx container) (\<lambda>_.
        bnd (saveState StateRunning container ctx) (\<lambda>_. ret None)))"

subsection \<open>kill\<close>

definition killFromPidFile :: "cli_ctx \<Rightarrow> string \<Rightarrow> int \<Rightarrow> (goerr option) io" where
  "killFromPidFile ctx pidFile signal =
     bnd (readPidFile ctx pidFile) (\<lambda>r. case r of
       Inl err \<Rightarrow> ret None
     | Inr pid \<Rightarrow> bnd (os_FindProcess pid) (\<lambda>r. case r of
         Inl err \<Rightarrow> ret (Some err)
       | Inr proc \<Rightarrow> proc_Signal proc signal))"

definition killCommand :: "cli_ctx \<Rightarrow> (goerr option) io" where
  "killCommand ctx =
     (if args_Present ctx = False then ret (Some missing_id)
      else
        let container = args_Get ctx 0; signal = fst (atoi (args_Get ctx 1)) in
        bnd (killFromPidFile ctx pidFile9p signal) (\<lambda>_.
        bnd (killFromPidFile ctx pidFilePriv signal) (\<lambda>err. case err of
          Some e \<Rightarrow> ret (Some (EWrap ''killing main process error %s'' [] e))
        | None \<Rightarrow> bnd (saveState StateStopped container ctx) (\<lambda>_. ret None))))"

text \<open>\<open>exec\<close> is accepted and does nothing.\<close>

definition execCommand :: "cli_ctx \<Rightarrow> (goerr option) io" where
  "execCommand ctx = ret None"

subsection \<open>boot\<close>

text \<open>The pid file for containerd names this process on Linux and the child on Darwin.\<close>

definition write_containerd_pid :: "string \<Rightarrow> int \<Rightarrow> (goerr option) io" where
  "write_containerd_pid pidf child =
     bnd (os_OpenCreate True pidf 438) (\<lambda>f. case f of
       Inl err \<Rightarrow> ret (Some (EWrap ''pid-file: %s'' [] (EOs err)))
     | Inr h \<Rightarrow>
         bnd (gets w_goos) (\<lambda>os.
         bnd (gets w_pid) (\<lambda>self.
         thn (f_Write f (itoa (case os of Linux \<Rightarrow> self | Darwin \<Rightarrow> child))) (ret None))))"

definition boot_setup ::
  "netenv \<Rightarrow> ((gofile \<times> bool) list \<Rightarrow> (gofile \<times> bool) list) \<Rightarrow> ((gofile \<times> bool) list \<Rightarrow> (gofile \<times> bool) list)
     \<Rightarrow> cli_ctx \<Rightarrow> (goerr + cmd \<times> int) io" where
  "boot_setup N ord1 ord2 ctx =
     bnd (prepareUkontainer N ord1 ord2 ctx) (\<lambda>r. case r of
       Inl err \<Rightarrow> ret (Inl (EWrap ''failed to prepare container: %v'' [] err))
     | Inr (cmd, pid) \<Rightarrow>
         bnd (if f_pid_file ctx \<noteq> [] then write_containerd_pid (f_pid_file ctx) pid else ret None) (\<lambda>r. case r of
           Some err \<Rightarrow> ret (Inl err)
         | None \<Rightarrow> bnd (saveState StateCreated (args_First ctx) ctx) (\<lambda>_. ret (Inr (cmd, pid)))))"

text \<open>\<open>pipe.Write\<close> and \<open>pipe.Close\<close> on the inherited descriptor; the result says whether a byte
  went into the pipe. A negative descriptor gives a \<open>nil\<close> file, whose name cannot be read.\<close>

definition boot_notify :: "(goerr + bool) io" where
  "boot_notify =
     bnd (os_Getenv ''_LIBCONTAINER_INITPIPE'') (\<lambda>envInitPipe.
       case atoi envInitPipe of
         (_, Some err) \<Rightarrow> ret (Inl (EWrap ''unable to convert _LIBCONTAINER_INITPIPE=%s to int: %s'' [envInitPipe] err))
       | (pipefd, None) \<Rightarrow>
           if pipefd < 0 then go_panic ''nil pointer dereference''
           else bnd (gets (\<lambda>w. map_option fd_obj (fd_get (w_fds w) (nat pipefd)))) (\<lambda>ob.
                thn (close_fd (nat pipefd))
                (ret (Inr (case ob of Some (FPipe k) \<Rightarrow> True | _ \<Rightarrow> False)))))"

text \<open>\<open>cmd.Wait\<close>: the child has ended and is reaped, with the given result.\<close>

definition cmd_Wait :: "int \<Rightarrow> goerr option \<Rightarrow> (goerr option) io" where
  "cmd_Wait pid res = thn (modify (\<lambda>w. w\<lparr>w_procs := (w_procs w)(pid := None)\<rparr>)) (ret res)"

text \<open>Everything after the child has ended.\<close>

definition boot_finish :: "cli_ctx \<Rightarrow> int \<Rightarrow> goerr option \<Rightarrow> (goerr option) io" where
  "boot_finish ctx child waitres =
     bnd (cmd_Wait child waitres) (\<lambda>err.
     bnd (killFromPidFile ctx pidFile9p 15) (\<lambda>_.
     bnd (ioutil_ReadFile (filepath_Join [f_bundle ctx, ''shim.pid''])) (\<lambda>r.
     let pidI = fst (atoi (case r of Inl e \<Rightarrow> [] | Inr d \<Rightarrow> doc_text d)) in
     bnd (gets w_goos) (\<lambda>os.
     thn (unix_Kill pidI (sigchld os)) (
     bnd (saveState StateStopped (args_First ctx) ctx) (\<lambda>_.
     ret err))))))"

definition bootContainer ::
  "netenv \<Rightarrow> ((gofile \<times> bool) list \<Rightarrow> (gofile \<times> bool) list) \<Rightarrow> ((gofile \<times> bool) list \<Rightarrow> (gofile \<times> bool) list)
     \<Rightarrow> goerr option \<Rightarrow> cli_ctx \<Rightarrow> (goerr option) io" where
  "bootContainer N ord1 ord2 waitres ctx =
     bnd (boot_setup N ord1 ord2 ctx) (\<lambda>r. case r of
       Inl err \<Rightarrow> ret (Some err)
     | Inr (cmd, pid) \<Rightarrow> bnd boot_notify (\<lambda>r. case r of
         Inl err \<Rightarrow> ret (Some err)
       | Inr _ \<Rightarrow> boot_finish ctx pid waitres))"

subsection \<open>create\<close>

text \<open>The arguments of the boot process: the global flags that are set, the command, its flags.\<close>

definition flag_arg :: "string \<Rightarrow> string \<Rightarrow> string list" where
  "flag_arg name val = (if val \<noteq> [] then [name, val] else [])"

definition boot_args :: "cli_ctx \<Rightarrow> string \<Rightarrow> string list" where
  "boot_args ctx container =
     flag_arg ''-log-format'' (g_log_format ctx) @ flag_arg ''-log'' (g_log ctx) @
     flag_arg ''-root'' (g_root ctx) @ (if g_debug ctx then [''-debug''] else []) @ [''boot''] @
     flag_arg ''-bundle'' (f_bundle ctx) @ flag_arg ''-pid-file'' (f_pid_file ctx) @ [container]"

definition prepareBootCommand :: "cli_ctx \<Rightarrow> string \<Rightarrow> gofile \<Rightarrow> bool \<Rightarrow> (goerr + cmd) io" where
  "prepareBootCommand ctx container childPipe volumeMounted =
     bnd os_Executable (\<lambda>r. case r of
       Inl err \<Rightarrow> ret (Inl (EWrap ''could not identify who am I: %v'' [] (EOs err)))
     | Inr self \<Rightarrow>
         bnd (exec_Command self (boot_args ctx container)) (\<lambda>cmd.
         let files = c_ExtraFiles cmd @ [childPipe] in
         ret (Inr (cmd\<lparr>c_ExtraFiles := files,
           c_Env := c_Env cmd @ [''_LIBCONTAINER_INITPIPE='' @ itoa (3 + int (length files) - 1)] @
             (if volumeMounted then [''LKL_USE_9PFS=1''] else [])\<rparr>))))"

text \<open>\<open>os.Pipe\<close>: the reading end is \<open>FPipe 0\<close>, the writing end \<open>FPipe 1\<close>.\<close>

definition os_Pipe :: "(goerr + nat \<times> nat) io" where
  "os_Pipe = bnd (gets (\<lambda>w. w_fault w OpPipe)) (\<lambda>f. case f of
      Some e \<Rightarrow> ret (Inl (EOs e))
    | None \<Rightarrow> bnd (open_fd (FPipe 0) True) (\<lambda>rd. bnd (open_fd (FPipe 1) True) (\<lambda>wr. ret (Inr (rd, wr)))))"

text \<open>Up to the start of the boot process; its pid and the two ends of the pipe.\<close>

definition create_begin :: "cli_ctx \<Rightarrow> (goerr + int \<times> nat \<times> nat) io" where
  "create_begin ctx =
     (let bundle = f_bundle ctx; container = args_First ctx in
      bnd (loadSpec (filepath_Join [bundle, specConfig])) (\<lambda>r. case r of
        Inl err \<Rightarrow> ret (Inl (EWrap ''load config failed: %v'' [] err))
      | Inr spec \<Rightarrow>
          if container = [] then ret (Inl (EFmt ''no container id provided'' []))
          else bnd (createContainer container bundle (g_root ctx) spec) (\<lambda>r. case r of
            Some err \<Rightarrow> ret (Inl (EWrap ''failed to create container: %v'' [] err))
          | None \<Rightarrow> bnd (doMounts spec) (\<lambda>r. case r of
              Inl err \<Rightarrow> ret (Inl err)
            | Inr volumeMounted \<Rightarrow> bnd os_Pipe (\<lambda>r. case r of
                Inl err \<Rightarrow> ret (Inl (EWrap ''create: pipe failure (%s)'' [] err))
              | Inr (parentPipe, childPipe) \<Rightarrow>
                  bnd (prepareBootCommand ctx container (Some childPipe) volumeMounted) (\<lambda>r. case r of
                    Inl err \<Rightarrow> go_panic ''nil pointer dereference''
                  | Inr cmd \<Rightarrow> bnd (cmd_Start cmd) (\<lambda>r. case r of
                      Inl err \<Rightarrow> go_panic ''start boot''
                    | Inr pid \<Rightarrow> ret (Inr (pid, parentPipe, childPipe)))))))))"

text \<open>
  The whole of \<open>cmdCreateUkon\<close>, given what the other process does until the read of the pipe is
  over: a byte (or a read error, which is only printed) ends the wait, a failed boot process
  makes the goroutine that waits for it panic, and nothing at all leaves the read waiting.
\<close>

datatype pipe_outcome = PipeByte | PipeReadErr | BootFailed | NoByte

definition cmdCreateUkon :: "(int \<Rightarrow> pipe_outcome io) \<Rightarrow> cli_ctx \<Rightarrow> (goerr option) io" where
  "cmdCreateUkon other ctx =
     bnd (create_begin ctx) (\<lambda>r. case r of
       Inl err \<Rightarrow> ret (Some err)
     | Inr (pid, parentPipe, childPipe) \<Rightarrow> bnd (other pid) (\<lambda>outc. case outc of
         BootFailed \<Rightarrow> go_panic ''failed to wait a process''
       | NoByte \<Rightarrow> hang
       | _ \<Rightarrow> thn (close_fd parentPipe) (thn (close_fd childPipe) (ret None))))"

definition createCommand :: "(int \<Rightarrow> pipe_outcome io) \<Rightarrow> cli_ctx \<Rightarrow> (goerr option) io" where
  "createCommand other ctx =
     (if args_Present ctx = False then ret (Some missing_id) else cmdCreateUkon other ctx)"

definition runCommand :: "(int \<Rightarrow> pipe_outcome io) \<Rightarrow> cli_ctx \<Rightarrow> (goerr option) io" where
  "runCommand other ctx =
     (if args_Present ctx = False then ret (Some missing_id)
      else
        let container = args_Get ctx 0 in
        bnd (cmdCreateUkon other ctx) (\<lambda>err. case err of
          Some e \<Rightarrow> ret (Some e)
        | None \<Rightarrow> resumeUkontainer ctx container))"

subsection \<open>Frames\<close>

lemma readPidFile_look: "keeps (=) (readPidFile ctx f)"
  unfolding readPidFile_def by (intro idk.kp_rules keeps_intros)+

lemmas readPidFile_keeps [keeps_intros] =
  pure_keeps [OF readPidFile_look, of fs_kept, OF fsk.frame_refl]
  pure_keeps [OF readPidFile_look, of static_kept, OF stk.frame_refl]
  pure_keeps [OF readPidFile_look, of wf_kept, OF wfk.frame_refl]
  pure_keeps [OF readPidFile_look, of trace_kept, OF trk.frame_refl]
  pure_keeps [OF readPidFile_look, of procs_kept, OF prk.frame_refl]

lemma readPidFile_state: "readPidFile ctx f w = (r, w') \<Longrightarrow> w' = w"
  using keepsE [OF readPidFile_look] by metis

lemma kill_keeps [keeps_intros]:
  "keeps fs_kept (killFromPidFile ctx f sig)" "keeps static_kept (killFromPidFile ctx f sig)"
  "keeps wf_kept (killFromPidFile ctx f sig)" "keeps fs_kept (resumeUkontainer ctx c)"
  "keeps static_kept (resumeUkontainer ctx c)" "keeps wf_kept (resumeUkontainer ctx c)"
  unfolding killFromPidFile_def resumeUkontainer_def
  by (intro fsk.kp_rules stk.kp_rules wfk.kp_rules keeps_intros)+

subsection \<open>start\<close>

lemma proc_Signal_delivers:
  assumes "0 < pid" and "w_procs w pid = Some pr" and "w_fault w (OpKill pid) = None"
    and "0 \<le> sig" and "sig \<le> 64"
  shows "proc_Signal pid sig w = (Ret None, emit (EvKill pid sig) (w\<lparr>w_procs := (w_procs w)(pid \<mapsto>
    pr\<lparr>p_State := signal_effect (w_goos w) sig (p_State pr)\<rparr>)\<rparr>))"
  using assms by (simp add: proc_Signal_def unix_Kill_def bnd_def)

lemma sigcont_effect: "st \<noteq> PExited \<Longrightarrow> signal_effect os (sigcont os) st = PRunning"
  "0 \<le> sigcont os" "sigcont os \<le> 64"
  by (cases os; simp add: signal_effect_def SIGKILL_def)+

lemma startCommand_Ret:
  assumes "startCommand ctx w = (Ret r, w')" and "args_Present ctx"
  obtains e u x where "resumeUkontainer ctx (args_Get ctx 0) w = (Ret e, u)"
    and "saveState StateRunning (args_Get ctx 0) ctx u = (Ret x, w')" and "r = None"
  using assms by (auto simp: startCommand_def Let_def bnd_iffs)

lemma startCommand_continues:
  assumes "startCommand ctx w = (Ret r, w')" and "args_Present ctx"
    and "readPidFile ctx pidFilePriv w = (Ret (Inr pid), w)" and "0 < pid"
    and "w_procs w pid = Some pr" and "p_State pr \<noteq> PExited" and "w_fault w (OpKill pid) = None"
  shows "r = None \<and> w_procs w' = (w_procs w)(pid \<mapsto> pr\<lparr>p_State := PRunning\<rparr>) \<and>
    w_trace w' = w_trace w @ [EvKill pid (sigcont (w_goos w))]"
proof -
  obtain e u x where re: "resumeUkontainer ctx (args_Get ctx 0) w = (Ret e, u)"
    and sv: "saveState StateRunning (args_Get ctx 0) ctx u = (Ret x, w')" and "r = None"
    by (rule startCommand_Ret [OF assms(1,2)])
  have "proc_Signal pid (sigcont (w_goos w)) w = (Ret None, emit (EvKill pid (sigcont (w_goos w)))
      (w\<lparr>w_procs := (w_procs w)(pid \<mapsto> pr\<lparr>p_State := PRunning\<rparr>)\<rparr>))"
    using proc_Signal_delivers [OF assms(4,5,7) sigcont_effect(2,3)] assms(6) by (simp add: sigcont_effect)
  with re assms(3) have "w_procs u = (w_procs w)(pid \<mapsto> pr\<lparr>p_State := PRunning\<rparr>) \<and>
      w_trace u = w_trace w @ [EvKill pid (sigcont (w_goos w))]"
    by (auto simp: resumeUkontainer_def os_FindProcess_def bnd_def)
  then show ?thesis
    using keepsE [OF saveState_keeps(3) sv] keepsE [OF saveState_keeps(4) sv] \<open>r = None\<close>
    by (simp add: trace_kept_def procs_kept_def)
qed

text \<open>C5: \<open>start\<close> continues exactly the process that the pid file of the container names: it is
  running afterwards, it is the only one that was signalled, no other process changed, and the
  command reports success.\<close>

theorem start_continues_process:
  assumes "startCommand ctx w = (Ret r, w')" and "args_Present ctx"
    and "readPidFile ctx pidFilePriv w = (Ret (Inr pid), w)" and "0 < pid"
    and "w_procs w pid = Some pr" and "p_State pr \<noteq> PExited" and "w_fault w (OpKill pid) = None"
  shows "r = None \<and> w_procs w' = (w_procs w)(pid \<mapsto> pr\<lparr>p_State := PRunning\<rparr>) \<and>
    w_trace w' = w_trace w @ [EvKill pid (sigcont (w_goos w))]"
  by (rule startCommand_continues [OF assms])

text \<open>When the pid file of the container cannot be read, \<open>start\<close> still reports success and
  records the state as running, although it has signalled no process and changed none.\<close>

theorem start_without_process:
  assumes "startCommand ctx w = (Ret r, w')" and "args_Present ctx"
    and "readPidFile ctx pidFilePriv w = (Ret (Inl e), w)"
  shows "r = None \<and> w_procs w' = w_procs w \<and> w_trace w' = w_trace w \<and>
    (\<exists>x. saveState StateRunning (args_Get ctx 0) ctx w = (Ret x, w'))"
proof -
  obtain e' u x where re: "resumeUkontainer ctx (args_Get ctx 0) w = (Ret e', u)"
    and sv: "saveState StateRunning (args_Get ctx 0) ctx u = (Ret x, w')" and "r = None"
    by (rule startCommand_Ret [OF assms(1,2)])
  from re assms(3) have "u = w" by (simp add: resumeUkontainer_def bnd_def)
  with sv show ?thesis
    using keepsE [OF saveState_keeps(3) sv] keepsE [OF saveState_keeps(4) sv] \<open>r = None\<close>
    by (auto simp: trace_kept_def procs_kept_def)
qed

subsection \<open>kill\<close>

lemma signal_zero_effect: "signal_effect os 0 st = st"
  by (cases os) (simp_all add: signal_effect_def SIGKILL_def)

lemma proc_Signal_zero: "proc_Signal pid 0 w = (r, w') \<Longrightarrow> w_procs w' = w_procs w"
  by (auto simp: proc_Signal_def unix_Kill_def bnd_def signal_zero_effect
      split: if_splits option.splits prod.splits outcome.splits)

lemma killFromPidFile_zero: "killFromPidFile ctx f 0 w = (r, w') \<Longrightarrow> w_procs w' = w_procs w"
  by (auto simp: killFromPidFile_def os_FindProcess_def bnd_cases dest!: readPidFile_state
      dest: proc_Signal_zero split: prod.splits outcome.splits sum.splits)

lemma killCommand_None:
  assumes "killCommand ctx w = (Ret None, w')"
  obtains e u v x where "args_Present ctx"
    and "killFromPidFile ctx pidFile9p (fst (atoi (args_Get ctx 1))) w = (Ret e, u)"
    and "killFromPidFile ctx pidFilePriv (fst (atoi (args_Get ctx 1))) u = (Ret None, v)"
    and "saveState StateStopped (args_Get ctx 0) ctx v = (Ret x, w')"
  using assms by (auto simp: killCommand_def Let_def bnd_iffs split: if_splits)

text \<open>The signal is read as a number only. With a name such as \<open>SIGTERM\<close>, or with no signal
  at all, \<open>kill\<close> sends signal 0: no process changes, and yet the state is recorded as
  stopped and success is reported.\<close>

theorem kill_by_name_records_stopped:
  assumes "killCommand ctx w = (Ret None, w')" and "fst (atoi (args_Get ctx 1)) = 0"
  shows "w_procs w' = w_procs w \<and>
    (\<exists>v x. w_procs v = w_procs w \<and> w_fs v = w_fs w \<and> saveState StateStopped (args_Get ctx 0) ctx v = (Ret x, w'))"
proof -
  obtain e u v x where k1: "killFromPidFile ctx pidFile9p 0 w = (Ret e, u)"
    and k2: "killFromPidFile ctx pidFilePriv 0 u = (Ret None, v)"
    and sv: "saveState StateStopped (args_Get ctx 0) ctx v = (Ret x, w')"
    using killCommand_None [OF assms(1)] assms(2) by metis
  have "w_procs v = w_procs w"
    using killFromPidFile_zero [OF k1] killFromPidFile_zero [OF k2] by simp
  moreover have "w_fs v = w_fs w"
    using keepsE [OF kill_keeps(1) k1] keepsE [OF kill_keeps(1) k2] by (simp add: fs_kept_def)
  moreover have "w_procs w' = w_procs v"
    using keepsE [OF saveState_keeps(4) sv] by (simp add: procs_kept_def)
  ultimately show ?thesis using sv by auto
qed


subsection \<open>create\<close>

text \<open>No call of \<open>doMounts\<close> removes a directory, leaves the working directory or the fixed parts
  of the machine.\<close>

definition dirs_kept :: "world \<Rightarrow> world \<Rightarrow> bool" where
  "dirs_kept w w' \<longleftrightarrow> (\<forall>p. w_fs w p = Some Dir \<longrightarrow> w_fs w' p = Some Dir) \<and> place_kept w w' \<and>
     (wf_world w \<longrightarrow> wf_world w')"

interpretation drk: frame_rel dirs_kept
  by unfold_locales (auto simp: dirs_kept_def intro: plk.frame_trans plk.frame_refl)

lemma dirs_keptI: "(\<And>p. w_fs w p = Some Dir \<Longrightarrow> w_fs w' p = Some Dir) \<Longrightarrow> place_kept w w' \<Longrightarrow>
    wf_kept w w' \<Longrightarrow> dirs_kept w w'"
  by (simp add: dirs_kept_def wf_kept_def)

lemma mount_calls_dirs [keeps_intros]:
  "keeps dirs_kept (os_Stat p)" "keeps dirs_kept (os_MkdirAll p m)" "keeps dirs_kept (os_OpenCreate x p m)"
  "keeps dirs_kept (unix_Mount s d t fl)"
proof -
  show "keeps dirs_kept (os_Stat p)"
    by (rule look_keeps) (rule drk.frame_refl)
  show "keeps dirs_kept (os_MkdirAll p m)"
    by (rule keepsI, rule dirs_keptI [OF _ keepsD [OF calls_keep_place(6)] keepsD [OF tree_keeps_wf(1)]])
       (auto simp: os_MkdirAll_def Let_def split: option.splits)
  show "keeps dirs_kept (os_OpenCreate x p m)"
    by (rule keepsI, rule dirs_keptI [OF _ keepsD [OF calls_keep_place(2)] keepsD [OF write_keeps_wf(2)]])
       (auto simp: os_OpenCreate_def Let_def dest: walk_ENOENT split: option.splits sum.splits oserr.splits)
  show "keeps dirs_kept (unix_Mount s d t fl)"
    by (rule keepsI, rule dirs_keptI [OF _ keepsD [OF calls_keep_place(9)] keepsD [OF other_keeps_wf(2)]])
       (auto simp: unix_Mount_def split: option.splits)
qed

lemma doMounts_loop_dirs [keeps_intros]: "keeps dirs_kept (doMounts_loop r b ms v)"
  by (induction ms arbitrary: v)
     (auto simp: Let_def prepareMount_def doMount_def intro!: drk.kp_rules keeps_intros)

lemma doMounts_unsupported_loop_dirs [keeps_intros]: "keeps dirs_kept (doMounts_unsupported_loop os ms)"
  by (induction ms) (auto intro!: drk.kp_rules drk.frame_refl simp: keeps_def)

lemma doMounts_dirs [keeps_intros]: "keeps dirs_kept (doMounts spec)"
  unfolding doMounts_def doMounts_linux_def checkFsFlags_def doMounts_unsupported_def Let_def
  by (auto intro!: drk.kp_rules keeps_intros split: goos.splits)

lemma create_begin_exists:
  assumes "wf_world w" and "g_root ctx \<noteq> []" and "plain_name (args_First ctx)"
    and "w_fs w (cdir w (g_root ctx) (args_First ctx)) = Some Dir"
    and "w_fault w (OpStat (cdir w (g_root ctx) (args_First ctx))) = None"
  shows "\<exists>e. create_begin ctx w = (Ret (Inl e), w)"
proof -
  obtain r where ld: "loadSpec (filepath_Join [f_bundle ctx, specConfig]) w = (Ret r, w)"
    using loadSpec_outcome by blast
  show ?thesis
  proof (cases r)
    case (Inl e)
    with ld show ?thesis by (simp add: create_begin_def Let_def bnd_def)
  next
    case (Inr spec)
    with ld createContainer_refuses [OF assms(1-3,5,4), of "f_bundle ctx" spec] show ?thesis
      by (simp add: create_begin_def Let_def bnd_def)
  qed
qed

text \<open>A \<open>create\<close> that fails at its mounts has already made the state directory and leaves it:
  the next \<open>create\<close> with the same id fails too, whatever has been repaired in the meantime.\<close>

theorem create_not_retryable:
  assumes "wf_world w" and "g_root ctx \<noteq> []" and "plain_name (args_First ctx)" and "args_Present ctx"
    and "w_fault w (OpStat (cdir w (g_root ctx) (args_First ctx))) = None"
    and "loadSpec (filepath_Join [f_bundle ctx, specConfig]) w = (Ret (Inr spec), w)"
    and "createContainer (args_First ctx) (f_bundle ctx) (g_root ctx) spec w = (Ret None, u)"
    and "doMounts spec u = (Ret (Inl err), w')"
  shows "createCommand other ctx w = (Ret (Some err), w') \<and>
    (\<exists>e. createCommand other' ctx w' = (Ret (Some e), w'))"
proof -
  let ?c = "args_First ctx" let ?root = "g_root ctx"
  have "?c \<noteq> []" using assms(3) by (auto simp: plain_name_def)
  with assms have first: "createCommand other ctx w = (Ret (Some err), w')"
    by (simp add: createCommand_def cmdCreateUkon_def create_begin_def Let_def bnd_def)
  have cwd: "w_cwd u = w_cwd w" and fault: "w_fault u = w_fault w" and wfu: "wf_world u"
    using createContainer_cases [OF assms(7)] keepsE [OF createContainer_keeps(1) assms(7)]
      keepsE [OF createContainer_keeps(2) assms(7)] assms(1)
    by (auto simp: static_kept_def wf_kept_def)
  have "dirs_kept u w'" by (rule keepsE [OF doMounts_dirs assms(8)])
  then have "w_fs w' (cdir w ?root ?c) = Some Dir" "wf_world w'" "w_cwd w' = w_cwd w" "w_fault w' = w_fault w"
    using createContainer_makes(1) [OF assms(1-3,7)] wfu cwd fault
    by (auto simp: dirs_kept_def place_kept_def static_kept_def)
  then have "\<exists>e. create_begin ctx w' = (Ret (Inl e), w')"
    using assms(2,3,5) by (intro create_begin_exists) (auto simp: at_def)
  then show ?thesis using first assms(4)
    by (auto simp: createCommand_def cmdCreateUkon_def bnd_def)
qed

text \<open>\<open>run\<close> creates the container and continues it, but records nothing: the files are those
  that \<open>create\<close> left, so the recorded state stays created.\<close>

theorem run_records_nothing:
  assumes "runCommand other ctx w = (Ret None, w')"
  shows "\<exists>u. createCommand other ctx w = (Ret None, u) \<and>
    resumeUkontainer ctx (args_Get ctx 0) u = (Ret None, w') \<and> w_fs w' = w_fs u"
proof -
  from assms obtain u where cr: "cmdCreateUkon other ctx w = (Ret None, u)"
    and re: "resumeUkontainer ctx (args_Get ctx 0) u = (Ret None, w')" and ar: "args_Present ctx"
    by (auto simp: runCommand_def Let_def bnd_iffs split: if_splits)
  have "w_fs w' = w_fs u" using keepsE [OF kill_keeps(4) re] by (simp add: fs_kept_def)
  with cr re ar show ?thesis by (simp add: createCommand_def)
qed

subsection \<open>The end of boot\<close>

text \<open>When the unikernel has ended, \<open>boot\<close> records the state as stopped and returns what the
  wait for it returned; in a bundle without a readable \<open>shim.pid\<close> and with no 9p server it sends the
  child signal to its whole process group, because an unreadable pid counts as 0.\<close>

theorem boot_finish_signals_group:
  assumes "boot_finish ctx child waitres w = (Ret r, w')"
    and "ioutil_ReadFile (filepath_Join [f_bundle ctx, ''shim.pid'']) w = (Ret (Inl e), w)"
    and "readPidFile ctx pidFile9p w = (Ret (Inl e9), w)"
    and "w_fault w (OpKill 0) = None"
  shows "r = waitres \<and> w_procs w' = (w_procs w)(child := None) \<and>
    w_trace w' = w_trace w @ [EvKill 0 (sigchld (w_goos w))] \<and>
    (\<exists>u x. w_fs u = w_fs w \<and> saveState StateStopped (args_First ctx) ctx u = (Ret x, w'))"
proof -
  let ?v = "w\<lparr>w_procs := (w_procs w)(child := None)\<rparr>"
  let ?u = "emit (EvKill 0 (sigchld (w_goos w))) ?v"
  have rd: "ioutil_ReadFile p ?v = (r, ?v)" if "ioutil_ReadFile p w = (r, w)" for p r
    using that by (auto simp: ioutil_ReadFile_def fault_at_def at_def walk_def
        cong: if_cong split: option.splits sum.splits node.splits if_splits)
  have k9: "killFromPidFile ctx pidFile9p 15 ?v = (Ret None, ?v)"
  proof -
    obtain y where y: "ioutil_ReadFile (filepath_Join [g_root ctx, args_Get ctx 0, pidFile9p]) w = (Ret y, w)"
      using ioutil_ReadFile_outcome by blast
    with assms(3) rd [OF y] have "readPidFile ctx pidFile9p ?v = (Ret (Inl e9), ?v)"
      by (simp add: readPidFile_def bnd_def)
    then show ?thesis by (simp add: killFromPidFile_def bnd_def)
  qed
  have zero: "fst (atoi []) = 0" by (simp add: atoi_def Let_def)
  have ki: "unix_Kill 0 (sigchld (w_goos w)) ?v = (Ret None, ?u)"
    using assms(4) by (cases "w_goos w") (simp_all add: unix_Kill_def)
  from assms(1) obtain x where sv: "saveState StateStopped (args_First ctx) ctx ?u = (Ret x, w')" and "r = waitres"
    by (auto simp: boot_finish_def cmd_Wait_def rd [OF assms(2)] bnd_iffs k9 Let_def zero ki)
  then show ?thesis
    using keepsE [OF saveState_keeps(3) sv] keepsE [OF saveState_keeps(4) sv]
    by (auto simp: trace_kept_def procs_kept_def intro!: exI [of _ ?u])
qed

subsection \<open>Witnesses\<close>

lemma demo_read_pid: "readPidFile demo_ctx pidFilePriv demo_world = (Ret (Inr 42), demo_world)"
proof -
  have "fst (readPidFile demo_ctx pidFilePriv demo_world) = Ret (Inr 42)" by code_simp
  then show ?thesis using readPidFile_state by (metis prod.collapse)
qed

lemma demo_proc_42: "w_procs demo_world 42 = Some demo_proc" "p_State demo_proc = PStopped"
  by (simp_all add: demo_world_def demo_proc_def)

lemma start_continues_process_witness:
  "\<exists>w'. startCommand demo_ctx demo_world = (Ret None, w') \<and>
     w_procs w' 42 = Some (demo_proc\<lparr>p_State := PRunning\<rparr>)"
proof -
  have "fst (startCommand demo_ctx demo_world) = Ret None" by code_simp
  then obtain w' where run: "startCommand demo_ctx demo_world = (Ret None, w')" by (metis prod.collapse)
  from start_continues_process [OF run _ demo_read_pid _ demo_proc_42(1)] run show ?thesis
    by (simp add: args_Present_def demo_proc_42)
qed

definition demo_no_pid :: world where
  "demo_no_pid = demo_world\<lparr>w_fs := (w_fs demo_world)([''run'', ''runu'', ''c1'', ''runu.pid''] := None)\<rparr>"

lemma start_without_process_witness:
  "\<exists>w'. startCommand demo_ctx demo_no_pid = (Ret None, w') \<and> w_procs w' = w_procs demo_no_pid"
proof -
  have "fst (startCommand demo_ctx demo_no_pid) = Ret None" by code_simp
  then obtain w' where run: "startCommand demo_ctx demo_no_pid = (Ret None, w')" by (metis prod.collapse)
  have "fst (readPidFile demo_ctx pidFilePriv demo_no_pid) = Ret (Inl (EOs ENOENT))" by code_simp
  then have "readPidFile demo_ctx pidFilePriv demo_no_pid = (Ret (Inl (EOs ENOENT)), demo_no_pid)"
    using readPidFile_state by (metis prod.collapse)
  from start_without_process [OF run _ this] run show ?thesis by (simp add: args_Present_def)
qed

abbreviation demo_kill_ctx :: "string \<Rightarrow> cli_ctx" where
  "demo_kill_ctx sig \<equiv> demo_ctx\<lparr>ctx_cmd := ''kill'', ctx_args := [''c1'', sig]\<rparr>"

lemma kill_by_name_records_stopped_witness:
  "\<exists>w'. killCommand (demo_kill_ctx ''SIGTERM'') demo_world = (Ret None, w') \<and>
     w_procs w' = w_procs demo_world"
proof -
  have "fst (killCommand (demo_kill_ctx ''SIGTERM'') demo_world) = Ret None" by code_simp
  then obtain w' where run: "killCommand (demo_kill_ctx ''SIGTERM'') demo_world = (Ret None, w')"
    by (metis prod.collapse)
  have "fst (atoi (args_Get (demo_kill_ctx ''SIGTERM'') 1)) = 0" by code_simp
  from kill_by_name_records_stopped [OF run this] run show ?thesis by blast
qed

definition demo_9p :: world where
  "demo_9p = demo_world\<lparr>w_fs := (w_fs demo_world)
       ([''run'', ''runu'', ''c1'', ''runu-9p.pid''] \<mapsto> File (Text ''41'') 438),
     w_procs := (w_procs demo_world)(41 \<mapsto> demo_proc)\<rparr>"


definition demo_bad_spec :: oci_spec where
  "demo_bad_spec = demo_spec\<lparr>sp_Mounts := [\<lparr>m_Destination = ''/data'', m_Type = ''bind'',
     m_Source = ''/missing'', m_Options = []\<rparr>]\<rparr>"

definition demo_bad_mount :: world where
  "demo_bad_mount = demo_world\<lparr>w_fs := map_of
     (([''b'', ''config.json''], File (SpecDoc demo_bad_spec) 438) # demo_nodes)\<rparr>"

abbreviation demo_c2 :: cli_ctx where
  "demo_c2 \<equiv> demo_ctx\<lparr>ctx_cmd := ''create'', ctx_args := [''c2'']\<rparr>"

lemma demo_bad_wf: "wf_world demo_bad_mount"
  using wf_fs_map_of [of "([''b'', ''config.json''], File (SpecDoc demo_bad_spec) 438) # demo_nodes"]
  by (simp add: wf_world_def demo_bad_mount_def demo_world_def) (simp add: demo_nodes_def)

lemma create_not_retryable_witness:
  "\<exists>err w' e. createCommand (\<lambda>_. hang) demo_c2 demo_bad_mount = (Ret (Some err), w') \<and>
     createCommand (\<lambda>_. hang) demo_c2 w' = (Ret (Some e), w')"
proof -
  let ?w = demo_bad_mount
  have "fst (loadSpec (filepath_Join [f_bundle demo_c2, specConfig]) ?w) = Ret (Inr demo_bad_spec)" by code_simp
  then have ld: "loadSpec (filepath_Join [f_bundle demo_c2, specConfig]) ?w = (Ret (Inr demo_bad_spec), ?w)"
    using loadSpec_outcome [of "filepath_Join [f_bundle demo_c2, specConfig]" ?w] by auto
  let ?cc = "createContainer (args_First demo_c2) (f_bundle demo_c2) (g_root demo_c2) demo_bad_spec ?w"
  have "fst ?cc = Ret None" by code_simp
  then obtain u where cc: "?cc = (Ret None, u)" by (metis prod.collapse)
  have "fst (doMounts demo_bad_spec (snd ?cc)) = Ret (Inl (EOs ENOENT))" by code_simp
  then obtain w' where dm: "doMounts demo_bad_spec u = (Ret (Inl (EOs ENOENT)), w')"
    by (metis cc prod.collapse snd_conv)
  have pn: "plain_name (args_First demo_c2)" "args_Present demo_c2" by code_simp+
  have nf: "w_fault ?w op = None" for op by (simp add: demo_bad_mount_def)
  from create_not_retryable [OF demo_bad_wf _ pn nf ld cc dm] show ?thesis by auto
qed

definition demo_run_world :: world where
  "demo_run_world = demo_world\<lparr>w_fs := map_of
     (([''proc''], Dir) # ([''proc'', ''self''], Dir) # ([''proc'', ''self'', ''exe''], File (Text []) 493) # demo_nodes)\<rparr>"

text \<open>A boot process of which only its pid file and the byte in the pipe are seen.\<close>

definition demo_boot :: "int \<Rightarrow> pipe_outcome io" where
  "demo_boot pid = bnd (ioutil_WriteFile ''/run/runu/c2/runu.pid'' (Text ''42'') 438) (\<lambda>_. ret PipeByte)"

lemma run_records_nothing_witness:
  "\<exists>u w'. createCommand demo_boot demo_c2 demo_run_world = (Ret None, u) \<and>
     runCommand demo_boot demo_c2 demo_run_world = (Ret None, w') \<and> w_fs w' = w_fs u"
proof -
  have "fst (runCommand demo_boot demo_c2 demo_run_world) = Ret None" by code_simp
  then obtain w' where run: "runCommand demo_boot demo_c2 demo_run_world = (Ret None, w')"
    by (metis prod.collapse)
  from run_records_nothing [OF this] run show ?thesis by blast
qed

lemma boot_finish_signals_group_witness:
  "\<exists>w'. boot_finish demo_ctx 42 None demo_world = (Ret None, w') \<and> w_trace w' = [EvKill 0 17] \<and>
     w_procs w' 42 = None"
proof -
  have "fst (boot_finish demo_ctx 42 None demo_world) = Ret None" by code_simp
  then obtain w' where run: "boot_finish demo_ctx 42 None demo_world = (Ret None, w')"
    by (metis prod.collapse)
  have "fst (readPidFile demo_ctx pidFile9p demo_world) = Ret (Inl (EOs ENOENT))"
    and "fst (ioutil_ReadFile (filepath_Join [f_bundle demo_ctx, ''shim.pid'']) demo_world) = Ret (Inl ENOENT)"
    by code_simp+
  then have "readPidFile demo_ctx pidFile9p demo_world = (Ret (Inl (EOs ENOENT)), demo_world)"
    and "ioutil_ReadFile (filepath_Join [f_bundle demo_ctx, ''shim.pid'']) demo_world = (Ret (Inl ENOENT), demo_world)"
    using readPidFile_state ioutil_ReadFile_state by (metis prod.collapse)+
  from boot_finish_signals_group [OF run this(2,1)] run show ?thesis
    by (simp add: demo_world_def)
qed

end
