(* ===== verification/Life_Store.thy ===== *)
theory Life_Store
  imports Lifecycle
begin

text \<open>
  The recorded status of the containers under the commands: what \<open>create\<close>, \<open>boot\<close>, \<open>start\<close>,
  \<open>kill\<close> and \<open>delete\<close> do to the state directory, and what \<open>state\<close> prints afterwards. The commands
  are clients of the store of theory \<open>Container_Store\<close>: each is one of its operations, preceded by
  calls that leave the directory alone, or, where it drops the error of recording, none.
\<close>

subsection \<open>Runs of commands\<close>

text \<open>What acts on the state directory: \<open>create\<close> makes it, \<open>boot\<close> records that the container is
  created and, at its end, that it is stopped, the others are the commands of that name.\<close>

datatype life_op = Made string | Booted string | Started string | Killed string | Ended string | Deleted string

fun life_id :: "life_op \<Rightarrow> string" where
  "life_id (Made c) = c"
| "life_id (Booted c) = c"
| "life_id (Started c) = c"
| "life_id (Killed c) = c"
| "life_id (Ended c) = c"
| "life_id (Deleted c) = c"

definition on_container :: "string \<Rightarrow> string \<Rightarrow> cli_ctx \<Rightarrow> bool" where
  "on_container root c ctx \<longleftrightarrow> g_root ctx = root \<and> args_Present ctx \<and> args_Get ctx 0 = c"

fun life_step :: "string \<Rightarrow> world \<Rightarrow> life_op \<Rightarrow> world \<Rightarrow> bool" where
  "life_step root w (Made c) w' = (\<exists>bundle spec. createContainer c bundle root spec w = (Ret None, w'))"
| "life_step root w (Booted c) w' = (\<exists>ctx r. on_container root c ctx \<and> saveState StateCreated (args_First ctx) ctx w = (Ret r, w'))"
| "life_step root w (Started c) w' = (\<exists>ctx. on_container root c ctx \<and> startCommand ctx w = (Ret None, w'))"
| "life_step root w (Killed c) w' = (\<exists>ctx r. on_container root c ctx \<and> killCommand ctx w = (Ret r, w'))"
| "life_step root w (Ended c) w' = (\<exists>ctx child waitres r. on_container root c ctx \<and> boot_finish ctx child waitres w = (Ret r, w'))"
| "life_step root w (Deleted c) w' = (\<exists>ctx. on_container root c ctx \<and> deleteCommand ctx w = (Ret None, w'))"

text \<open>The same on a map: recording can be left out, but never happens for a container that is not there.\<close>

fun life_may :: "life_op \<Rightarrow> (string, container_status) store \<Rightarrow> (string, container_status) store \<Rightarrow> bool" where
  "life_may (Made c) m m' = (m c = None \<and> m' = m(c := Some None))"
| "life_may (Booted c) m m' = (m' = m \<or> m c \<noteq> None \<and> m' = m(c := Some (Some StateCreated)))"
| "life_may (Started c) m m' = (m' = m \<or> m c \<noteq> None \<and> m' = m(c := Some (Some StateRunning)))"
| "life_may (Killed c) m m' = (m' = m \<or> m c \<noteq> None \<and> m' = m(c := Some (Some StateStopped)))"
| "life_may (Ended c) m m' = (m' = m \<or> m c \<noteq> None \<and> m' = m(c := Some (Some StateStopped)))"
| "life_may (Deleted c) m m' = (m' = m(c := None))"

fun may_run :: "(string, container_status) store \<Rightarrow> life_op list \<Rightarrow> (string, container_status) store \<Rightarrow> bool" where
  "may_run m [] m' = (m' = m)"
| "may_run m (e # es) m' = (\<exists>n. life_may e m n \<and> may_run n es m')"

fun life_run :: "string \<Rightarrow> world \<Rightarrow> life_op list \<Rightarrow> world \<Rightarrow> bool" where
  "life_run root w [] w' = (w' = w)"
| "life_run root w (e # es) w' = (\<exists>u. life_step root w e u \<and> life_run root u es w')"

subsection \<open>Every command is an operation of the store\<close>

text \<open>What a command does before it records: the directories and the fixed parts stay.\<close>

definition store_kept :: "world \<Rightarrow> world \<Rightarrow> bool" where
  "store_kept w w' \<longleftrightarrow> fs_kept w w' \<and> static_kept w w' \<and> wf_kept w w'"

lemma store_kept_view: "store_kept w w' \<Longrightarrow> store_view root w' = store_view root w"
  by (rule ext) (simp add: store_kept_def fs_kept_def store_view_def Let_def)

lemma store_kept_inv: "store_kept w w' \<Longrightarrow> store_inv root w \<Longrightarrow> store_inv root w'"
  by (rule store_inv_keep) (simp_all add: store_kept_def fs_kept_def)

lemma store_keptI:
  assumes "keeps fs_kept m" and "keeps static_kept m" and "keeps wf_kept m" and "m w = (r, w')"
  shows "store_kept w w'"
  using assms(1-3) [THEN keepsE, OF assms(4)] by (simp add: store_kept_def)

lemma store_kept_trans: "store_kept u v \<Longrightarrow> store_kept v w \<Longrightarrow> store_kept u w"
  unfolding store_kept_def by (blast intro: fsk.frame_trans stk.frame_trans wfk.frame_trans)

text \<open>One step: nothing, or one operation of the store.\<close>

definition records :: "string \<Rightarrow> world \<Rightarrow> container_status \<Rightarrow> string \<Rightarrow> world \<Rightarrow> bool" where
  "records root w st c w' \<longleftrightarrow> (\<exists>u. store_kept w u \<and> (store_kept u w' \<or> store_step root u (Save c st) w'))"

lemma saveState_records:
  assumes "on_container root c ctx" and "store_kept w u" and "wf_world w" and "saveState st c ctx u = (Ret r, w')"
  shows "records root w st c w'"
proof (cases r)
  case None
  with assms show ?thesis by (auto simp: records_def on_container_def)
next
  case (Some e)
  have "wf_world u" using assms(2,3) by (simp add: store_kept_def wf_kept_def)
  with saveState_cases [OF assms(4)] Some have "fs_kept u w'" by (auto simp: fs_kept_def)
  with keepsE [OF saveState_keeps(1) assms(4)] keepsE [OF saveState_keeps(2) assms(4)] have "store_kept u w'"
    by (simp add: store_kept_def)
  with assms(2) show ?thesis by (auto simp: records_def)
qed

lemma store_kept_refl [simp]: "store_kept w w"
  by (simp add: store_kept_def fs_kept_def static_kept_def wf_kept_def)

lemma start_records:
  assumes "on_container root c ctx" and "wf_world w" and "startCommand ctx w = (Ret r, w')"
  shows "records root w StateRunning c w'"
proof -
  have c: "args_Present ctx" "args_Get ctx 0 = c" using assms(1) by (auto simp: on_container_def)
  obtain e u x where r: "resumeUkontainer ctx c w = (Ret e, u)" and s: "saveState StateRunning c ctx u = (Ret x, w')"
    using startCommand_Ret [OF assms(3) c(1)] c(2) by metis
  show ?thesis by (rule saveState_records [OF assms(1) store_keptI [OF kill_keeps(4-6) r] assms(2) s])
qed

lemma kill_records:
  assumes "on_container root c ctx" and "wf_world w" and "killCommand ctx w = (Ret r, w')"
  shows "records root w StateStopped c w'"
proof -
  obtain e u where k1: "killFromPidFile ctx pidFile9p (fst (atoi (args_Get ctx 1))) w = (Ret e, u)"
    and rest: "bnd (killFromPidFile ctx pidFilePriv (fst (atoi (args_Get ctx 1)))) (\<lambda>err. case err of
          Some e \<Rightarrow> ret (Some (EWrap ''killing main process error %s'' [] e))
        | None \<Rightarrow> bnd (saveState StateStopped c ctx) (\<lambda>_. ret None)) u = (Ret r, w')"
    using assms(1,3) by (auto simp: killCommand_def on_container_def Let_def bnd_Ret_iff)
  then obtain e' v where k2: "killFromPidFile ctx pidFilePriv (fst (atoi (args_Get ctx 1))) u = (Ret e', v)"
    and s: "(case e' of Some e \<Rightarrow> ret (Some (EWrap ''killing main process error %s'' [] e))
        | None \<Rightarrow> bnd (saveState StateStopped c ctx) (\<lambda>_. ret None)) v = (Ret r, w')"
    by (auto simp: bnd_Ret_iff)
  have kept: "store_kept w v"
    by (rule store_kept_trans [OF store_keptI [OF kill_keeps(1-3) k1] store_keptI [OF kill_keeps(1-3) k2]])
  show ?thesis
  proof (cases e')
    case None
    with s obtain x where "saveState StateStopped c ctx v = (Ret x, w')" by (auto simp: bnd_Ret_iff)
    then show ?thesis by (rule saveState_records [OF assms(1) kept assms(2)])
  next
    case (Some err)
    with s kept show ?thesis by (auto simp: records_def)
  qed
qed

lemma cmd_Wait_keeps [keeps_intros]:
  "keeps fs_kept (cmd_Wait pid res)" "keeps static_kept (cmd_Wait pid res)" "keeps wf_kept (cmd_Wait pid res)"
  by (simp_all add: keeps_def cmd_Wait_def thn_def bnd_def fs_kept_def static_kept_def wf_kept_def wf_world_def)

lemma end_records:
  assumes "on_container root c ctx" and "wf_world w" and "boot_finish ctx child waitres w = (Ret r, w')"
  shows "records root w StateStopped c w'"
proof -
  obtain e1 u1 e2 u2 d u3 where u1: "cmd_Wait child waitres w = (Ret e1, u1)"
    and u2: "killFromPidFile ctx pidFile9p 15 u1 = (Ret e2, u2)"
    and u3: "ioutil_ReadFile (filepath_Join [f_bundle ctx, ''shim.pid'']) u2 = (Ret d, u3)"
    and rest: "thn (unix_Kill (fst (atoi (case d of Inl e \<Rightarrow> [] | Inr d \<Rightarrow> doc_text d))) (sigchld (w_goos u3)))
      (bnd (saveState StateStopped (args_First ctx) ctx) (\<lambda>_. ret e1)) u3 = (Ret r, w')"
    using assms(3) by (auto simp: boot_finish_def Let_def bnd_Ret_iff)
  from rest obtain e4 u4 x where u4: "unix_Kill (fst (atoi (case d of Inl e \<Rightarrow> [] | Inr d \<Rightarrow> doc_text d))) (sigchld (w_goos u3)) u3 = (Ret e4, u4)"
    and s: "saveState StateStopped (args_First ctx) ctx u4 = (Ret x, w')" by (auto simp: bnd_iffs)
  have c: "args_First ctx = c" using assms(1) by (simp add: on_container_def args_First_def)
  have "store_kept w u1" by (rule store_keptI [OF cmd_Wait_keeps u1])
  moreover have "store_kept u1 u2" by (rule store_keptI [OF kill_keeps(1-3) u2])
  moreover have "u3 = u2" using ioutil_ReadFile_outcome [of "filepath_Join [f_bundle ctx, ''shim.pid'']" u2] u3 by auto
  moreover have "store_kept u3 u4" using u4 by (rule store_keptI [rotated 3]) (intro keeps_intros)+
  ultimately have "store_kept w u4" by (blast intro: store_kept_trans)
  then show ?thesis by (rule saveState_records [OF assms(1) _ assms(2) s [unfolded c]])
qed

lemma records_may:
  assumes "store_inv root w" and "plain_name c" and "records root w st c w'"
  shows "store_inv root w'" and "(\<forall>d. plain_name d \<longrightarrow> store_view root w' d = store_view root w d) \<or>
    store_view root w c \<noteq> None \<and>
    (\<forall>d. plain_name d \<longrightarrow> store_view root w' d = ((store_view root w)(c := Some (Some st))) d)"
proof -
  from assms(3) obtain u where u: "store_kept w u" and v: "store_kept u w' \<or> store_step root u (Save c st) w'"
    by (auto simp: records_def)
  have i: "store_inv root u" and eq: "store_view root u = store_view root w"
    using store_kept_inv [OF u assms(1)] store_kept_view [OF u] by auto
  show "store_inv root w'" using v i assms(2) store_kept_inv save_step(1) by blast
  show "(\<forall>d. plain_name d \<longrightarrow> store_view root w' d = store_view root w d) \<or>
    store_view root w c \<noteq> None \<and>
    (\<forall>d. plain_name d \<longrightarrow> store_view root w' d = ((store_view root w)(c := Some (Some st))) d)"
    using v
  proof
    assume "store_kept u w'"
    then show ?thesis using store_kept_view eq by metis
  next
    assume st: "store_step root u (Save c st) w'"
    from save_step(2,3) [OF i assms(2) st] show ?thesis by (auto simp: eq)
  qed
qed

lemma records_map:
  assumes "store_inv root w" and "plain_name c" and "records root w st c w'"
    and "\<And>d. plain_name d \<Longrightarrow> store_view root w d = m d"
  shows "store_inv root w' \<and> (\<exists>m'. (m' = m \<or> m c \<noteq> None \<and> m' = m(c := Some (Some st))) \<and>
    (\<forall>d. plain_name d \<longrightarrow> store_view root w' d = m' d))"
proof (rule conjI [OF records_may(1) [OF assms(1-3)]])
  from records_may(2) [OF assms(1-3)]
  show "\<exists>m'. (m' = m \<or> m c \<noteq> None \<and> m' = m(c := Some (Some st))) \<and> (\<forall>d. plain_name d \<longrightarrow> store_view root w' d = m' d)"
  proof
    assume "\<forall>d. plain_name d \<longrightarrow> store_view root w' d = store_view root w d"
    then show ?thesis using assms(4) by (intro exI [of _ m]) simp
  next
    assume "store_view root w c \<noteq> None \<and>
      (\<forall>d. plain_name d \<longrightarrow> store_view root w' d = ((store_view root w)(c := Some (Some st))) d)"
    then show ?thesis using assms(2,4) by (intro exI [of _ "m(c := Some (Some st))"]) auto
  qed
qed

text \<open>Each step of a run, on the ids that name containers.\<close>

lemma life_step_may:
  assumes "store_inv root w" and "plain_name (life_id e)" and "life_step root w e w'"
    and "\<And>d. plain_name d \<Longrightarrow> store_view root w d = m d"
  shows "store_inv root w'" and "\<exists>m'. life_may e m m' \<and> (\<forall>d. plain_name d \<longrightarrow> store_view root w' d = m' d)"
proof -
  have wf: "wf_world w" using assms(1) by (rule store_inv_wf)
  have "store_inv root w' \<and> (\<exists>m'. life_may e m m' \<and> (\<forall>d. plain_name d \<longrightarrow> store_view root w' d = m' d))"
  proof (cases e)
    case (Made c)
    with assms have c: "plain_name c" "store_step root w (Create c) w'" by auto
    from create_step [OF assms(1) this] c(1) assms(4) Made show ?thesis by auto
  next
    case (Deleted c)
    with assms obtain ctx where ctx: "on_container root c ctx" "deleteCommand ctx w = (Ret None, w')" by auto
    then have "store_step root w (Delete c) w'" by (simp add: on_container_def deleteCommand_def args_First_def)
    with delete_step [OF assms(1) _ this] assms(2,4) Deleted show ?thesis by auto
  next
    case (Booted c)
    with assms obtain ctx r where "on_container root c ctx" "saveState StateCreated c ctx w = (Ret r, w')"
      by (auto simp: on_container_def args_First_def)
    then have "records root w StateCreated c w'" by (rule saveState_records [OF _ store_kept_refl wf])
    from records_map [OF assms(1) _ this assms(4)] assms(2) show ?thesis by (simp add: Booted)
  next
    case (Started c)
    with assms(3) start_records [OF _ wf] have "records root w StateRunning c w'" by auto
    from records_map [OF assms(1) _ this assms(4)] assms(2) show ?thesis by (simp add: Started)
  next
    case (Killed c)
    with assms(3) kill_records [OF _ wf] have "records root w StateStopped c w'" by auto
    from records_map [OF assms(1) _ this assms(4)] assms(2) show ?thesis by (simp add: Killed)
  next
    case (Ended c)
    with assms(3) end_records [OF _ wf] have "records root w StateStopped c w'" by auto
    from records_map [OF assms(1) _ this assms(4)] assms(2) show ?thesis by (simp add: Ended)
  qed
  then show "store_inv root w'" "\<exists>m'. life_may e m m' \<and> (\<forall>d. plain_name d \<longrightarrow> store_view root w' d = m' d)" by auto
qed

text \<open>\<open>state\<close> prints what is recorded.\<close>

lemma state_prints_view:
  assumes "store_inv root w" and "plain_name c" and "on_container root c ctx" and "store_view root w c = Some (Some st)"
    and "w_fault w (OpOpen (state_path w root c)) = None"
  shows "\<exists>cs. stateCommand ctx w = (Ret None, w\<lparr>w_stdout := w_stdout w @ [StateDoc cs]\<rparr>) \<and> st_Status cs = st"
proof -
  have ctx: "g_root ctx = root" "args_Present ctx" "args_First ctx = c"
    using assms(3) by (auto simp: on_container_def args_First_def)
  have wf: "wf_world w" and ne: "root \<noteq> []" using store_inv_wf [OF assms(1)] store_inv_root [OF assms(1)] .
  obtain cs m where f: "w_fs w (state_path w root c) = Some (File (StateDoc cs) m)" and st: "st_Status cs = st"
    using assms(4) store_inv_at [OF assms(1)]
    by (auto simp: store_view_def status_of_def Let_def split: if_splits option.splits node.splits doc.splits)
  have at: "at w (filepath_Join [root, c, stateJSON]) = state_path w root c"
    using at_Join_names [OF wf ne assms(2), of stateJSON] by simp
  moreover have "walk w (state_path w root c) = Inr (File (StateDoc cs) m)"
    using wf f by (intro walk_Some) (simp_all add: wf_world_def)
  ultimately have "ioutil_ReadFile (filepath_Join [root, c, stateJSON]) w = (Ret (Inr (StateDoc cs)), w)"
    using assms(5) ne by (simp add: ioutil_ReadFile_def fault_at_def)
  then have "stateCommand ctx w = (Ret None, w\<lparr>w_stdout := w_stdout w @ [StateDoc cs]\<rparr>)"
    using ctx by (simp add: stateCommand_def Let_def bnd_RetI stdout_Write_def)
  with st show ?thesis by blast
qed

lemma life_run_may:
  assumes "life_run root w es w'" and "store_inv root w" and "\<forall>e\<in>set es. plain_name (life_id e)"
    and "\<And>d. plain_name d \<Longrightarrow> store_view root w d = m d"
  shows "store_inv root w' \<and> (\<exists>m'. may_run m es m' \<and> (\<forall>d. plain_name d \<longrightarrow> store_view root w' d = m' d))"
  using assms
proof (induction es arbitrary: w m)
  case (Cons e es)
  then obtain u where u: "life_step root w e u" "life_run root u es w'" by auto
  from life_step_may [OF Cons.prems(2) _ u(1) Cons.prems(4)] Cons.prems(3) obtain n where
    i: "store_inv root u" and n: "life_may e m n" "\<And>d. plain_name d \<Longrightarrow> store_view root u d = n d" by auto
  from Cons.IH [OF u(2) i _ n(2)] Cons.prems(3) n(1) show ?case by auto
qed auto

subsection \<open>The status of the containers\<close>


subsection \<open>A container that is not there\<close>

text \<open>What \<open>setupSpec\<close> answers depends on the files, the working directory and the faults only.\<close>

definition same_place :: "world \<Rightarrow> world \<Rightarrow> bool" where
  "same_place w u \<longleftrightarrow> fs_kept w u \<and> place_kept w u \<and> wf_kept w u"

lemma same_place_trans: "same_place u v \<Longrightarrow> same_place v w \<Longrightarrow> same_place u w"
  unfolding same_place_def by (blast intro: fsk.frame_trans plk.frame_trans wfk.frame_trans)

lemma same_placeI:
  assumes "m w = (r, w')" and "keeps fs_kept m" and "keeps place_kept m" and "keeps wf_kept m"
  shows "same_place w w'"
  using assms(2-4) [THEN keepsE, OF assms(1)] by (simp add: same_place_def)

lemma same_walk: "same_place w u \<Longrightarrow> at u p = at w p \<and> fault_at opk u p = fault_at opk w p \<and> walk u q = walk w q"
  by (simp add: same_place_def fs_kept_def place_kept_def static_kept_def at_def fault_at_def walk_def)

lemma cwd_eq [simp]: "w\<lparr>w_cwd := a\<rparr> = w\<lparr>w_cwd := b\<rparr> \<longleftrightarrow> a = b"
proof
  assume "w\<lparr>w_cwd := a\<rparr> = w\<lparr>w_cwd := b\<rparr>"
  then have "w_cwd (w\<lparr>w_cwd := a\<rparr>) = w_cwd (w\<lparr>w_cwd := b\<rparr>)" by (rule arg_cong)
  then show "a = b" by simp
qed simp

lemma setupSpec_same:
  assumes "same_place w u" and "setupSpec ctx w = (Ret r, w\<lparr>w_cwd := cwd\<rparr>)"
  shows "setupSpec ctx u = (Ret r, u\<lparr>w_cwd := cwd\<rparr>)"
proof -
  have look: "ioutil_ReadFile p (u\<lparr>w_cwd := c\<rparr>) = (fst (ioutil_ReadFile p (w\<lparr>w_cwd := c\<rparr>)), u\<lparr>w_cwd := c\<rparr>)" for p c
    using assms(1) by (simp add: ioutil_ReadFile_def same_place_def fs_kept_def place_kept_def static_kept_def at_def
        fault_at_def walk_def split: option.splits sum.splits node.splits)
  have cwd: "w\<lparr>w_cwd := w_cwd w\<rparr> = w" "u\<lparr>w_cwd := w_cwd w\<rparr> = u"
    using assms(1) by (auto simp: same_place_def place_kept_def)
  have load: "loadSpec p (u\<lparr>w_cwd := c\<rparr>) = (fst (loadSpec p (w\<lparr>w_cwd := c\<rparr>)), u\<lparr>w_cwd := c\<rparr>)" for p c
    using look [of p c] ioutil_ReadFile_outcome [of p "w\<lparr>w_cwd := c\<rparr>"] by (auto simp: loadSpec_def bnd_def)
  have dir: "os_Chdir p u = (fst (os_Chdir p w), u\<lparr>w_cwd := w_cwd (snd (os_Chdir p w))\<rparr>)" for p
    using same_walk [OF assms(1)] cwd by (simp add: os_Chdir_def split: option.splits sum.splits node.splits)
  show ?thesis
  proof (cases "f_bundle ctx = []")
    case True
    have l: "loadSpec specConfig w = (Ret r, w\<lparr>w_cwd := cwd\<rparr>)" using assms(2) True by (simp add: setupSpec_def)
    with loadSpec_outcome [of specConfig w] have "w\<lparr>w_cwd := cwd\<rparr> = w" by auto
    then have "w_cwd (w\<lparr>w_cwd := cwd\<rparr>) = w_cwd w" by (rule arg_cong)
    then have "cwd = w_cwd w" by simp
    with l load [of specConfig cwd] cwd True show ?thesis by (simp add: setupSpec_def)
  next
    case False
    obtain e c where ch: "os_Chdir (f_bundle ctx) w = (Ret e, w\<lparr>w_cwd := c\<rparr>)" using os_Chdir_outcome by blast
    with dir [of "f_bundle ctx"] have ch': "os_Chdir (f_bundle ctx) u = (Ret e, u\<lparr>w_cwd := c\<rparr>)" by simp
    show ?thesis
      using assms(2) ch ch' False load [of specConfig c] loadSpec_outcome [of specConfig "w\<lparr>w_cwd := c\<rparr>"]
      by (auto simp: setupSpec_def Let_def bnd_def split: option.splits)
  qed
qed

lemma saveState_missing:
  assumes "store_inv root w" and "plain_name c" and "on_container root c ctx" and "store_view root w c = None"
    and "setupSpec ctx w = (Ret (Inr spec), w\<lparr>w_cwd := cwd\<rparr>)" and "sp_Root spec = Some rt"
  shows "fst (saveState st c ctx w) = Panic ''write state file''"
proof -
  let ?w = "w\<lparr>w_cwd := cwd\<rparr>" let ?f = "filepath_Join [filepath_Abs (w_cwd w) root, c, stateJSON]"
  have root: "g_root ctx = root" using assms(3) by (simp add: on_container_def)
  have wf: "wf_world w" and ne: "root \<noteq> []" using store_inv_wf [OF assms(1)] store_inv_root [OF assms(1)] .
  have wf': "wf_world ?w" using keepsE [OF setupSpec_keeps(5) assms(5)] wf by (simp add: wf_kept_def)
  then have at: "at ?w ?f = at w root @ [c, stateJSON]"
    using at_state_file [OF wf ne assms(2), of cwd] by (simp add: wf_world_def)
  have dir: "w_fs ?w (at w root @ [c]) = None"
    using assms(4) store_inv_at [OF assms(1)] by (simp add: store_view_def Let_def split: if_splits)
  have nofile: "w_fs ?w (at w root @ [c, stateJSON]) = None"
  proof (rule ccontr)
    assume "w_fs ?w (at w root @ [c, stateJSON]) \<noteq> None"
    with wf_fs_parent [of "w_fs ?w" "at w root @ [c, stateJSON]"] wf' dir show False
      by (auto simp: wf_world_def butlast_append)
  qed
  obtain e where "walk ?w (at w root @ [c, stateJSON]) = Inl e" and "e = ENOENT \<or> e = ENOTDIR"
    using walk_missing [OF nofile] by (auto simp: walk_def nofile split: if_splits)
  then obtain e' where "ioutil_WriteFile ?f d m ?w = (Ret (Some e'), ?w)" for d m
    using dir unfolding ioutil_WriteFile_def by (cases "fault_at OpOpen ?w ?f") (auto simp: at Let_def butlast_append)
  with assms(5,6) root show ?thesis
    by (simp add: saveState_def abs_path_def Let_def bnd_def)
qed

lemma unix_Kill_returns: "\<exists>r u. unix_Kill pid sig w = (Ret r, u)"
  by (auto simp: unix_Kill_def split: option.splits)

lemma proc_Signal_returns: "\<exists>r u. proc_Signal pid sig w = (Ret r, u)"
  using unix_Kill_returns [of pid sig w] by (auto simp: proc_Signal_def bnd_def)

lemma readPidFile_returns: "\<exists>r. readPidFile ctx f w = (Ret r, w)"
  using ioutil_ReadFile_outcome [of "filepath_Join [g_root ctx, args_Get ctx 0, f]" w] by (auto simp: readPidFile_def bnd_def)

lemma kill_returns: "\<exists>r u. killFromPidFile ctx f sig w = (Ret r, u)"
  using readPidFile_returns [of ctx f w] proc_Signal_returns
  by (auto simp: killFromPidFile_def os_FindProcess_def bnd_def split: sum.split)

lemma resume_returns: "\<exists>r u. resumeUkontainer ctx c w = (Ret r, u)"
proof -
  obtain r where r: "readPidFile ctx pidFilePriv w = (Ret r, w)" using readPidFile_returns by blast
  show ?thesis
  proof (cases r)
    case (Inr pid)
    obtain e u where "proc_Signal pid (sigcont (w_goos w)) w = (Ret e, u)" using proc_Signal_returns by blast
    with r Inr show ?thesis by (simp add: resumeUkontainer_def os_FindProcess_def bnd_def)
  qed (use r in \<open>simp add: resumeUkontainer_def bnd_def\<close>)
qed

lemma signals_place [keeps_intros]: "keeps place_kept (resumeUkontainer ctx c)" "keeps place_kept (killFromPidFile ctx f sig)"
proof -
  have look: "keeps place_kept (readPidFile ctx f)" for f by (rule pure_keeps [OF readPidFile_look plk.frame_refl])
  show "keeps place_kept (resumeUkontainer ctx c)" "keeps place_kept (killFromPidFile ctx f sig)"
    unfolding resumeUkontainer_def killFromPidFile_def by (intro plk.kp_rules look keeps_intros)+
qed

lemma signals_same_place:
  "resumeUkontainer ctx c w = (r, u) \<Longrightarrow> same_place w u" "killFromPidFile ctx f sig w = (r', u) \<Longrightarrow> same_place w u"
  "unix_Kill pid sig w = (r'', u) \<Longrightarrow> same_place w u" "cmd_Wait pid res w = (r', u) \<Longrightarrow> same_place w u"
  by (erule same_placeI; intro keeps_intros)+
    (auto simp: cmd_Wait_def thn_def bnd_def same_place_def fs_kept_def place_kept_def static_kept_def wf_kept_def wf_world_def)

text \<open>C15: a container that is not there cannot be recorded: \<open>start\<close> of an unknown id, and the end of a
  boot process whose container has been deleted in the meantime, panic instead of reporting an error.\<close>

theorem missing_container_panics:
  assumes "store_inv root w" and "plain_name c" and "on_container root c ctx" and "store_view root w c = None"
    and "setupSpec ctx w = (Ret (Inr spec), w\<lparr>w_cwd := cwd\<rparr>)" and "sp_Root spec = Some rt"
  shows "fst (startCommand ctx w) = Panic ''write state file'' \<and>
    fst (boot_finish ctx child waitres w) = Panic ''write state file''"
proof -
  have c: "args_Present ctx" "args_Get ctx 0 = c" "args_First ctx = c"
    using assms(3) by (auto simp: on_container_def args_First_def)
  have panic: "fst (saveState st c ctx u) = Panic ''write state file''" if "same_place w u" for u st
  proof (rule saveState_missing [OF _ assms(2,3) _ setupSpec_same [OF that assms(5)] assms(6)])
    have "store_kept w u" using that by (simp add: same_place_def store_kept_def place_kept_def)
    then show "store_inv root u" "store_view root u c = None"
      using store_kept_inv assms(1) store_kept_view [of w u root] assms(4) by simp_all
  qed
  obtain e u where u: "resumeUkontainer ctx c w = (Ret e, u)" using resume_returns by blast
  have "fst (startCommand ctx w) = Panic ''write state file''"
  proof -
    obtain v where "saveState StateRunning c ctx u = (Panic ''write state file'', v)"
      using panic [OF signals_same_place(1) [OF u], of StateRunning] by (metis prod.collapse)
    with u c show ?thesis by (simp add: startCommand_def Let_def bnd_def)
  qed
  moreover have "fst (boot_finish ctx child waitres w) = Panic ''write state file''"
  proof -
    obtain e1 u1 where u1: "cmd_Wait child waitres w = (Ret e1, u1)" by (simp add: cmd_Wait_def thn_def bnd_def)
    obtain e2 u2 where u2: "killFromPidFile ctx pidFile9p 15 u1 = (Ret e2, u2)" using kill_returns by blast
    obtain d where d: "ioutil_ReadFile (filepath_Join [f_bundle ctx, ''shim.pid'']) u2 = (Ret d, u2)"
      using ioutil_ReadFile_outcome by blast
    let ?pid = "fst (atoi (case d of Inl e \<Rightarrow> [] | Inr d \<Rightarrow> doc_text d))"
    obtain e3 u3 where u3: "unix_Kill ?pid (sigchld (w_goos u2)) u2 = (Ret e3, u3)" using unix_Kill_returns by blast
    have "same_place w u3"
      using signals_same_place(4) [OF u1] signals_same_place(2) [OF u2] signals_same_place(3) [OF u3] same_place_trans
      by blast
    from panic [OF this, of StateStopped] obtain v where
      "saveState StateStopped c ctx u3 = (Panic ''write state file'', v)" by (metis prod.collapse)
    with u1 u2 d u3 c show ?thesis by (simp add: boot_finish_def Let_def bnd_def thn_def)
  qed
  ultimately show ?thesis by blast
qed

subsection \<open>Witness\<close>

text \<open>The container of the small machine is continued and killed.\<close>

definition demo_started :: world where
  "demo_started = snd (startCommand demo_ctx demo_world)"

definition demo_killed :: world where
  "demo_killed = snd (killCommand (demo_kill_ctx ''9'') demo_started)"

lemma demo_life:
  "fst (startCommand demo_ctx demo_world) = Ret None" "fst (killCommand (demo_kill_ctx ''9'') demo_started) = Ret None"
  "store_view ''/run/runu'' demo_killed ''c1'' = Some (Some StateStopped)"
  by code_simp+


text \<open>There is no container \<open>c2\<close>.\<close>

definition demo_unknown :: cli_ctx where
  "demo_unknown = demo_ctx\<lparr>ctx_args := [''c2'']\<rparr>"

lemma demo_setup: "setupSpec demo_unknown demo_world = (Ret (Inr demo_spec), demo_world\<lparr>w_cwd := [''b'']\<rparr>)"
  by (simp add: demo_unknown_def setupSpec_def demo_ctx_def os_Chdir_def fault_at_def demo_at resolve_def push.simps
      walk_def loadSpec_def ioutil_ReadFile_def at_def demo_world_def demo_nodes_def bnd_def specConfig_def Let_def isAbs_def hasPrefix_def)

lemma missing_container_panics_witness:
  "fst (startCommand demo_unknown demo_world) = Panic ''write state file'' \<and>
   fst (boot_finish demo_unknown 42 None demo_world) = Panic ''write state file''"
proof (rule missing_container_panics [OF demo_store_inv _ _ _ demo_setup])
  show "plain_name ''c2''" by (simp add: plain_name_def)
  show "on_container ''/run/runu'' ''c2'' demo_unknown"
    by (simp add: on_container_def demo_unknown_def args_Present_def args_Get_def)
  show "store_view ''/run/runu'' demo_world ''c2'' = None"
    by (simp add: store_view_def demo_root demo_world_def demo_nodes_def)
qed (simp add: demo_spec_def)

end
