(* ===== verification/Start_Launched.thy ===== *)
theory Start_Launched
  imports Lifecycle
begin

text \<open>
  \<open>create\<close> and \<open>start\<close> meet in the pid file: \<open>prepareUkontainer\<close> (\<open>utils.go\<close>) writes the pid of
  the process it has started and stopped, \<open>resumeUkontainer\<close> (\<open>start.go\<close>) reads it back. The
  lemmas follow the number through the file and show that \<open>start\<close> continues the process that
  was launched.
\<close>

abbreviation pid_file :: "cli_ctx \<Rightarrow> string" where
  "pid_file ctx \<equiv> filepath_Join [g_root ctx, args_Get ctx 0, pidFilePriv]"

lemma pid_file_not_empty: "pid_file ctx \<noteq> []"
  by (simp add: filepath_Join_def file_names Let_def)

lemma cmd_Start_Ret_fs:
  "cmd_Start c w = (Ret r, w') \<Longrightarrow> w_fs w' = w_fs w \<and> w_cwd w' = w_cwd w \<and> w_fault w' = w_fault w"
  by (auto simp: cmd_Start_def Let_def split: option.splits sum.splits if_splits)

lemma walk_fs_put:
  assumes "walk w q = Inl ENOENT"
  shows "walk (fs_put q n w) q = Inr n"
proof -
  have "w_fs (fs_put q n w) (take i q) = w_fs w (take i q)" if "i < length q" for i
  proof -
    from that have "length (take i q) \<noteq> length q" by simp
    then have "take i q \<noteq> q" by (rule contrapos_nn) simp
    then show ?thesis by (simp add: fs_put_def)
  qed
  then have "list_ex (\<lambda>i. non_dir (w_fs (fs_put q n w) (take i q))) [0..<length q] =
      list_ex (\<lambda>i. non_dir (w_fs w (take i q))) [0..<length q]"
    by (auto simp: list_ex_iff)
  moreover have "\<not> list_ex (\<lambda>i. non_dir (w_fs w (take i q))) [0..<length q]"
    using assms by (auto simp: walk_def)
  moreover have "w_fs (fs_put q n w) q = Some n" by (simp add: fs_put_def)
  ultimately show ?thesis by (simp add: walk_def)
qed

text \<open>A new pid file holds the number that was written.\<close>

lemma write_pid_file_new:
  assumes "walk w (at w p) = Inl ENOENT" and "w_fs w (butlast (at w p)) = Some Dir" and "p \<noteq> []"
    and "\<And>op. w_fault w op = None"
  shows "write_pid_file p pid w = (Ret (), fs_put (at w p) (File (Text (itoa pid)) 438) w)"
proof -
  have "fs_put q x (fs_put q y w) = fs_put q x w" for q x y by (simp add: fs_put_def)
  moreover have "w_fault (fs_put q n w) = w_fault w" "w_fs (fs_put q n w) q = Some n" for q n
    by (simp_all add: fs_put_def)
  ultimately show ?thesis
    using assms by (simp add: write_pid_file_def os_OpenCreate_def f_Write_def fault_at_def bnd_def Let_def)
qed

lemma start_stopped_pid_file:
  assumes "start_stopped ctx cmd w = (Ret pid, w1)"
    and "walk w (at w (pid_file ctx)) = Inl ENOENT" and "w_fs w (butlast (at w (pid_file ctx))) = Some Dir"
    and "\<And>op. w_fault w op = None" and "int64_min \<le> pid" and "pid \<le> int64_max"
  shows "readPidFile ctx pidFilePriv w1 = (Ret (Inr pid), w1)"
proof -
  let ?q = "at w (pid_file ctx)" let ?n = "File (Text (itoa pid)) 438"
  from assms(1) obtain u v e where st: "cmd_Start cmd w = (Ret (Inr pid), u)"
    and wr: "write_pid_file (pid_file ctx) pid u = (Ret (), v)"
    and sg: "proc_Signal pid (sigstop (w_goos v)) v = (Ret e, w1)"
    by (auto simp: start_stopped_def bnd_iffs)
  note u = cmd_Start_Ret_fs [OF st]
  then have au: "at u (pid_file ctx) = ?q" "walk u ?q = walk w ?q" by (simp_all add: at_def walk_def)
  have v: "v = fs_put ?q ?n u"
    using write_pid_file_new [of u "pid_file ctx" pid] wr u au assms(2-4) pid_file_not_empty by simp
  have w1: "w_fs w1 = w_fs v" "w_cwd w1 = w_cwd v" "w_fault w1 = w_fault v"
    using sg by (auto simp: proc_Signal_def unix_Kill_def bnd_iffs split: if_splits option.splits)
  have "walk w1 ?q = walk v ?q" by (simp add: walk_def w1)
  also have "walk v ?q = Inr ?n" unfolding v by (rule walk_fs_put) (simp add: au assms(2))
  finally have "walk w1 ?q = Inr ?n" .
  moreover have "at w1 (pid_file ctx) = ?q" "w_fault w1 op = None" for op
    using u assms(4) by (simp_all add: at_def w1 v fs_put_def)
  ultimately have "ioutil_ReadFile (pid_file ctx) w1 = (Ret (Inr (Text (itoa pid))), w1)"
    using pid_file_not_empty by (simp add: ioutil_ReadFile_def fault_at_def)
  then show ?thesis
    using atoi_itoa [OF assms(5,6)] by (simp add: readPidFile_def bnd_def)
qed

text \<open>C6: \<open>start\<close> continues the process that the launch of the same container started and stopped,
  through the pid file between them: given a state directory without a pid file, the launch leaves
  the new process stopped under its number, and \<open>start\<close> makes exactly this process run.\<close>

theorem start_continues_launched:
  assumes "start_stopped ctx cmd w = (Ret pid, w1)" and "startCommand ctx w1 = (Ret r, w2)" and "args_Present ctx"
    and "walk w (at w (pid_file ctx)) = Inl ENOENT" and "w_fs w (butlast (at w (pid_file ctx))) = Some Dir"
    and "\<And>op. w_fault w op = None" and "0 < w_next_pid w" and "w_next_pid w \<le> int64_max"
  shows "r = None \<and> pid = w_next_pid w \<and> (\<exists>pr. w_procs w1 pid = Some pr \<and> p_State pr = PStopped \<and>
    p_Args pr = c_Args cmd \<and> w_procs w2 = (w_procs w1)(pid \<mapsto> pr\<lparr>p_State := PRunning\<rparr>) \<and>
    w_trace w2 = w_trace w1 @ [EvKill pid (sigcont (w_goos w1))])"
proof -
  from start_stopped_Ret [OF assms(1)] obtain pr where pid: "pid = w_next_pid w"
    and pr: "w_procs w1 pid = Some pr" "p_Args pr = c_Args cmd"
    and st: "0 < pid \<and> w_fault w (OpKill pid) = None \<longrightarrow> p_State pr = PStopped" by blast
  have stopped: "p_State pr = PStopped" using st assms(6,7) pid by simp
  have "keeps static_kept (start_stopped ctx cmd)"
    unfolding start_stopped_def by (intro stk.kp_rules keeps_intros)+
  from keepsE [OF this assms(1)] have f: "w_fault w1 (OpKill pid) = None"
    by (simp add: static_kept_def assms(6))
  have "int64_min \<le> pid" using assms(7) pid by (simp add: int64_min_def)
  from start_stopped_pid_file [OF assms(1,4-6) this] pid assms(8)
  have "readPidFile ctx pidFilePriv w1 = (Ret (Inr pid), w1)" by simp
  from startCommand_continues [OF assms(2,3) this _ pr(1) _ f] assms(7) pid pr stopped
  show ?thesis by auto
qed

text \<open>The container \<open>c3\<close> has its directory and no pid file yet.\<close>

definition demo_fresh_world :: world where
  "demo_fresh_world = demo_world\<lparr>w_fs := map_of (([''run'', ''runu'', ''c3''], Dir) # demo_nodes)\<rparr>"

definition demo_sh :: cmd where
  "demo_sh = \<lparr>c_Path = ''/b/rootfs/bin/sh'', c_LookErr = None, c_Args = [''sh''], c_Env = [], c_Dir = [],
     c_Chroot = None, c_ExtraFiles = []\<rparr>"

lemma start_continues_launched_witness:
  "\<exists>w1 w2 pr. start_stopped (demo_ctx\<lparr>ctx_args := [''c3'']\<rparr>) demo_sh demo_fresh_world = (Ret 43, w1) \<and>
     startCommand (demo_ctx\<lparr>ctx_args := [''c3'']\<rparr>) w1 = (Ret None, w2) \<and>
     w_procs w1 43 = Some pr \<and> p_State pr = PStopped \<and> w_procs w2 43 = Some (pr\<lparr>p_State := PRunning\<rparr>)"
proof -
  let ?ctx = "demo_ctx\<lparr>ctx_args := [''c3'']\<rparr>" let ?l = "start_stopped ?ctx demo_sh demo_fresh_world"
  have "fst ?l = Ret 43" by code_simp
  then obtain w1 where l: "?l = (Ret 43, w1)" by (metis prod.collapse)
  have "fst (startCommand ?ctx (snd ?l)) = Ret None" by code_simp
  then obtain w2 where st: "startCommand ?ctx w1 = (Ret None, w2)" using l by (metis prod.collapse snd_conv)
  have "case walk demo_fresh_world (at demo_fresh_world (pid_file ?ctx)) of Inl ENOENT \<Rightarrow> True | _ \<Rightarrow> False"
    and "case w_fs demo_fresh_world (butlast (at demo_fresh_world (pid_file ?ctx))) of Some Dir \<Rightarrow> True | _ \<Rightarrow> False"
    by code_simp+
  then have f: "walk demo_fresh_world (at demo_fresh_world (pid_file ?ctx)) = Inl ENOENT"
    "w_fs demo_fresh_world (butlast (at demo_fresh_world (pid_file ?ctx))) = Some Dir"
    by (auto split: sum.splits oserr.splits option.splits node.splits)
  have n: "args_Present ?ctx" "w_fault demo_fresh_world op = None" "w_next_pid demo_fresh_world = 43" for op
    by (simp_all add: args_Present_def demo_fresh_world_def demo_world_def)
  from start_continues_launched [OF l st n(1) f n(2)] n(3) l st show ?thesis
    by (auto simp: int64_max_def)
qed

end
