(* ===== verification/Handshake.thy ===== *)
theory Handshake
  imports Lifecycle
begin

text \<open>
  \<open>create\<close> and \<open>boot\<close> side by side. \<open>cmdCreateUkon\<close> starts a boot process that inherits the
  writing end of a pipe and waits for one byte; a goroutine waits for the boot process at the
  same time and panics if it fails. The step relation interleaves the two: every boot step is
  the model of the code between two visible points, run on the boot process's own view of the
  machine. The lemmas say that the descriptor the boot process is told about is the pipe, that
  \<open>create\<close> returns only after the unikernel was set up, and that it never waits for a boot
  process that has ended.
\<close>

subsection \<open>The boot process's view\<close>

definition env_of :: "string list \<Rightarrow> string \<Rightarrow> string option" where
  "env_of es k = map_option (\<lambda>e. drop (length k + 1) e) (List.find (\<lambda>e. hasPrefix e (k @ ''='')) es)"

text \<open>A process started by \<open>create\<close>: three standard descriptors, then the files passed.\<close>

definition child_view :: "world \<Rightarrow> int \<Rightarrow> proc \<Rightarrow> world" where
  "child_view w pid pr =
     w\<lparr>w_pid := pid, w_env := env_of (p_Env pr),
       w_fds := map (\<lambda>s. Some \<lparr>fd_obj = FStd s, fd_nonblock = False\<rparr>) [''stdin'', ''stdout'', ''stderr''] @
         map (map_option (\<lambda>ob. \<lparr>fd_obj = ob, fd_nonblock = False\<rparr>)) (p_Files pr)\<rparr>"

definition init_pipe_var :: string where
  "init_pipe_var = ''_LIBCONTAINER_INITPIPE''"

text \<open>What the boot process needs of its view to reach the waiting \<open>create\<close>.\<close>

definition pipe_ready :: "world \<Rightarrow> bool" where
  "pipe_ready w \<longleftrightarrow> w_env w init_pipe_var = Some ''3'' \<and> 3 < lowest_free (w_fds w) \<and>
     map_option fd_obj (fd_get (w_fds w) 3) = Some (FPipe 1)"

subsection \<open>Steps\<close>

datatype create_pc = CReading | CReturned | CPanicked
datatype boot_pc = BStart | BSetUp int | BNotified int | BEnded bool

record handshake =
  hs_world :: world
  hs_create :: create_pc
  hs_boot :: boot_pc
  hs_bytes :: nat

text \<open>The order in which a Go map is enumerated is any permutation.\<close>

definition map_order :: "((gofile \<times> bool) list \<Rightarrow> (gofile \<times> bool) list) \<Rightarrow> bool" where
  "map_order ord \<longleftrightarrow> (\<forall>xs. mset (ord xs) = mset xs)"

text \<open>
  An error that \<open>bootContainer\<close> returns makes \<open>main\<close> panic, so a failed run always ends with a
  status that \<open>cmd.Wait\<close> reports as an error.
\<close>

inductive hstep :: "netenv \<Rightarrow> cli_ctx \<Rightarrow> handshake \<Rightarrow> handshake \<Rightarrow> bool" for N ctx where
  setup_ok: "hs_boot s = BStart \<Longrightarrow> map_order ord1 \<Longrightarrow> map_order ord2 \<Longrightarrow>
     boot_setup N ord1 ord2 ctx (hs_world s) = (Ret (Inr (c, pid)), w') \<Longrightarrow>
     hstep N ctx s (s\<lparr>hs_world := w', hs_boot := BSetUp pid\<rparr>)"
| setup_err: "hs_boot s = BStart \<Longrightarrow> map_order ord1 \<Longrightarrow> map_order ord2 \<Longrightarrow>
     boot_setup N ord1 ord2 ctx (hs_world s) = (Ret (Inl e), w') \<Longrightarrow>
     hstep N ctx s (s\<lparr>hs_world := w', hs_boot := BEnded False\<rparr>)"
| setup_panic: "hs_boot s = BStart \<Longrightarrow> map_order ord1 \<Longrightarrow> map_order ord2 \<Longrightarrow>
     boot_setup N ord1 ord2 ctx (hs_world s) = (Panic p, w') \<Longrightarrow>
     hstep N ctx s (s\<lparr>hs_world := w', hs_boot := BEnded False\<rparr>)"
| notify_ok: "hs_boot s = BSetUp pid \<Longrightarrow> boot_notify (hs_world s) = (Ret (Inr d), w') \<Longrightarrow>
     hstep N ctx s (s\<lparr>hs_world := w', hs_boot := BNotified pid,
       hs_bytes := (if d then Suc (hs_bytes s) else hs_bytes s)\<rparr>)"
| notify_err: "hs_boot s = BSetUp pid \<Longrightarrow> boot_notify (hs_world s) = (Ret (Inl e), w') \<Longrightarrow>
     hstep N ctx s (s\<lparr>hs_world := w', hs_boot := BEnded False\<rparr>)"
| notify_panic: "hs_boot s = BSetUp pid \<Longrightarrow> boot_notify (hs_world s) = (Panic p, w') \<Longrightarrow>
     hstep N ctx s (s\<lparr>hs_world := w', hs_boot := BEnded False\<rparr>)"
| finish: "hs_boot s = BNotified pid \<Longrightarrow> boot_finish ctx pid res (hs_world s) = (Ret r, w') \<Longrightarrow>
     hstep N ctx s (s\<lparr>hs_world := w', hs_boot := BEnded (r = None)\<rparr>)"
| finish_panic: "hs_boot s = BNotified pid \<Longrightarrow> boot_finish ctx pid res (hs_world s) = (Panic p, w') \<Longrightarrow>
     hstep N ctx s (s\<lparr>hs_world := w', hs_boot := BEnded False\<rparr>)"
| read_byte: "hs_create s = CReading \<Longrightarrow> hs_bytes s = Suc n \<Longrightarrow>
     hstep N ctx s (s\<lparr>hs_create := CReturned, hs_bytes := n\<rparr>)"
| wait_failed: "hs_create s = CReading \<Longrightarrow> hs_boot s = BEnded False \<Longrightarrow>
     hstep N ctx s (s\<lparr>hs_create := CPanicked\<rparr>)"

inductive_cases hstep_cases: "hstep N ctx s t"

text \<open>The start: \<open>create_begin\<close> has started the boot process.\<close>

definition hinit :: "cli_ctx \<Rightarrow> handshake \<Rightarrow> bool" where
  "hinit cctx s \<longleftrightarrow> hs_create s = CReading \<and> hs_boot s = BStart \<and> hs_bytes s = 0 \<and>
     (\<exists>w pid rd wr w1 pr. create_begin cctx w = (Ret (Inr (pid, rd, wr)), w1) \<and>
        w_procs w1 pid = Some pr \<and> hs_world s = child_view w1 pid pr)"

subsection \<open>The pipe is passed on\<close>

lemma exec_Command_fields:
  "exec_Command name args w = (Ret c, w') \<Longrightarrow> c_ExtraFiles c = [] \<and> c_Env c = [] \<and> w' = w"
  by (auto simp: exec_Command_def exec_LookPath_def Let_def bnd_iffs split: if_splits option.splits sum.splits)

lemma prepareBootCommand_passes:
  assumes "prepareBootCommand ctx c (Some wr) v w = (Ret (Inr cmd), w')"
  shows "c_ExtraFiles cmd = [Some wr] \<and> hd (c_Env cmd) = ''_LIBCONTAINER_INITPIPE=3'' \<and> c_Env cmd \<noteq> [] \<and> w' = w"
proof -
  from assms obtain self u c0 where ex: "os_Executable w = (Ret (Inr self), u)"
    and cm: "exec_Command self (boot_args ctx c) u = (Ret c0, w')"
    and cmd: "cmd = c0\<lparr>c_ExtraFiles := c_ExtraFiles c0 @ [Some wr],
      c_Env := c_Env c0 @ [''_LIBCONTAINER_INITPIPE='' @ itoa (3 + int (length (c_ExtraFiles c0 @ [Some wr])) - 1)] @
         (if v then [''LKL_USE_9PFS=1''] else [])\<rparr>"
    by (auto simp: prepareBootCommand_def Let_def bnd_iffs)
  from ex have "u = w" by (auto simp: os_Executable_def split: option.splits)
  moreover have "itoa 3 = ''3''" by code_simp
  ultimately show ?thesis using exec_Command_fields [OF cm] by (simp add: cmd)
qed

lemma os_Pipe_writes:
  assumes "os_Pipe w = (Ret (Inr (rd, wr)), w')"
  shows "map_option fd_obj (fd_get (w_fds w') wr) = Some (FPipe 1)"
  using assms by (auto simp: os_Pipe_def bnd_iffs open_fd_def Let_def fd_get_open split: option.splits)

lemma create_begin_passes:
  assumes "create_begin ctx w = (Ret (Inr (pid, rd, wr)), w')"
  shows "\<exists>pr. w_procs w' pid = Some pr \<and> hd (p_Env pr) = ''_LIBCONTAINER_INITPIPE=3'' \<and> p_Env pr \<noteq> [] \<and>
    p_Files pr = [Some (FPipe 1)]"
proof -
  from assms obtain v u u' vol cmd where pp: "os_Pipe u = (Ret (Inr (rd, wr)), v)"
    and pb: "prepareBootCommand ctx (args_First ctx) (Some wr) vol v = (Ret (Inr cmd), u')"
    and st: "cmd_Start cmd u' = (Ret (Inr pid), w')"
    by (auto simp: create_begin_def Let_def bnd_iffs split: if_splits)
  from prepareBootCommand_passes [OF pb] have cmd: "c_ExtraFiles cmd = [Some wr]"
      "hd (c_Env cmd) = ''_LIBCONTAINER_INITPIPE=3''" "c_Env cmd \<noteq> []" "u' = v" by auto
  from cmd_Start_Inr [OF st] cmd os_Pipe_writes [OF pp] show ?thesis by auto
qed

lemma child_view_ready:
  assumes "hd (p_Env pr) = ''_LIBCONTAINER_INITPIPE=3''" and "p_Env pr \<noteq> []" and "p_Files pr = [Some (FPipe 1)]"
  shows "pipe_ready (child_view w pid pr)"
proof -
  obtain es where "p_Env pr = ''_LIBCONTAINER_INITPIPE=3'' # es" using assms(1,2) by (cases "p_Env pr") auto
  then show ?thesis
    using assms(3) by (simp add: pipe_ready_def child_view_def init_pipe_var_def env_of_def hasPrefix_def fd_get_def)
qed

subsection \<open>The set-up keeps the pipe\<close>

lemma init_pipe_not_path [simp]: "init_pipe_var \<noteq> ''PATH''"
  by (simp add: init_pipe_var_def)

text \<open>No step touches the variable.\<close>

lemma setupNetwork_var [keeps_intros]: "keeps (var_kept k) (setupNetwork N spec)"
  by (rule keeps_weaken [OF setupNetwork_keeps(1)]) (simp add: net_kept_def var_kept_def)

lemma spec_calls_var [keeps_intros]:
  "keeps (var_kept k) (loadSpec p)" "keeps (var_kept k) (setupSpec ctx)" "keeps (var_kept k) (saveState st c ctx)"
  unfolding saveState_def setupSpec_def loadSpec_def Let_def
  by (intro vrk.kp_rules keeps_intros)+

lemma generate_var [keeps_intros]: "keeps (var_kept k) (generateLklJsonFile N j out spec)"
  unfolding generateLklJsonFile_def Let_def
  by (auto intro!: vrk.kp_rules keeps_intros split: option.splits prod.splits list.splits sum.splits)

lemma basic_var [keeps_intros]:
  "keeps (var_kept k) (modify (emit ev))" "keeps (var_kept k) (ioctl r s a)"
  "keeps (var_kept k) (fd_becomes n ob nb)" "keeps (var_kept k) (must m e)" "keeps (var_kept k) (sys_must op m)"
  by (auto simp: keeps_def var_kept_def ioctl_def fd_becomes_def must_def sys_must_def bnd_def split: option.splits)

lemma opens_var [keeps_intros]:
  "keeps (var_kept k) (openRootfsFd f)" "keeps (var_kept k) (openJsonFd f)" "keeps (var_kept k) connect9pfs"
  "keeps (var_kept k) (openNetFd n env)"
proof -
  show "keeps (var_kept k) (openNetFd n env)"
    unfolding openNetFd_def openNetFd_linux_def openNetFd_darwin_def openNetRawsockFd_def
      openNetTapFd_def Let_def
    by (auto intro!: vrk.kp_rules keeps_intros split: goos.splits)
qed (unfold openRootfsFd_def openJsonFd_def connect9pfs_def, (intro vrk.kp_rules keeps_intros)+)

lemma parse_var [keeps_intros]:
  "keeps (var_kept k) (copyFile s d m)" "keeps (var_kept k) (parse_env rootfs pe env st)"
  "keeps (var_kept k) (parse_generated N spec ctx rootfs pe st)" "keeps (var_kept k) (parse_9pfs ctx rootfs st)"
  unfolding copyFile_def parse_env_def parse_rootfs_def parse_net_def parse_config_def import_rootfs_def
    parse_generated_def parse_9pfs_def start_9p_child_def Let_def
  by (intro vrk.kp_rules keeps_intros)+

lemma parse_loop_var [keeps_intros]: "keeps (var_kept k) (parse_loop rootfs pe envs st)"
  by (induction envs arbitrary: st) (auto intro!: vrk.kp_rules keeps_intros)

lemma launch_steps_var [keeps_intros]:
  "keeps (var_kept k) (parseEnvs N spec ctx rootfs)" "keeps (var_kept k) (changeLdso spec rootfs)"
  "keeps (var_kept k) (createDeviceNode rootfs node)" "keeps (var_kept k) (start_stopped ctx cmd)"
  unfolding parseEnvs_def changeLdso_def createDeviceNode_def mknodDevice_def start_stopped_def
    write_pid_file_def Let_def
  by (intro vrk.kp_rules keeps_intros)+

lemma make_devices_var [keeps_intros]: "keeps (var_kept k) (make_devices rootfs nodes)"
  by (induction nodes) (simp_all only: make_devices.simps, (intro vrk.kp_rules keeps_intros | assumption)+)

lemma make_command_var: "k \<noteq> ''PATH'' \<Longrightarrow> keeps (var_kept k) (make_command p rootfs)"
  unfolding make_command_def enter_chroot_def Let_def
  by (auto intro!: vrk.kp_rules keeps_intros Setenv_keeps_var isAlpineImage_look vrk.frame_refl split: list.splits)

lemma restore_modes_var [keeps_intros]: "keeps (var_kept k) (restore_modes fds)"
  by (induction fds rule: restore_modes.induct)
    (simp_all only: restore_modes.simps file_SetNonblock_def, (intro vrk.kp_rules keeps_intros | assumption)+)

lemma boot_setup_var: "k \<noteq> ''PATH'' \<Longrightarrow> keeps (var_kept k) (boot_setup N ord1 ord2 ctx)"
  unfolding boot_setup_def prepareUkontainer_def launch_def write_containerd_pid_def Let_def
  by (intro vrk.kp_rules keeps_intros make_command_var | assumption)+

text \<open>Every run of the set-up that returns leaves the older descriptors what they are.\<close>

lemma fobj_fds: "fobj_kept w w' \<Longrightarrow> fds_kept w w'"
  by (simp add: fobj_kept_def fds_kept_def)

lemma rk_opens:
  "returns_keep fds_kept (openRootfsFd f)" "returns_keep fds_kept (openJsonFd f)"
  "returns_keep fds_kept (openNetFd n env)" "returns_keep fds_kept connect9pfs"
proof -
  show "returns_keep fds_kept (openRootfsFd f)"
    by (rule returns_keepI) (auto dest: openRootfsFd_opens opened_fds_kept)
  show "returns_keep fds_kept (openJsonFd f)"
    by (rule returns_keepI) (auto dest: openJsonFd_opens opened_fds_kept)
  show "returns_keep fds_kept connect9pfs"
    by (rule returns_keepI) (metis connect9pfs_opens surj_pair)
  have "fds_kept w w'" if "openNetFd n env w = (Ret x, w')" for w x w'
    using openNetFd_opens [of n env w "fst x" "snd x" w'] that
    by (cases "net_object (w_goos w) n") (auto dest: opened_fds_kept intro: fdk.frame_refl)
  then show "returns_keep fds_kept (openNetFd n env)" by (rule returns_keepI)
qed

lemmas fds_steps = fdk.rk_rules rk_opens returns_keep_keeps [OF start_9p_child_fds]
  returns_keep_keeps [OF generateLklJsonFile_keeps(2)] returns_keep_keeps [OF copyFile_keeps(3)]
  returns_keep_keeps [OF import_rootfs_keeps(2)]

lemma rk_parse_env: "returns_keep fds_kept (parse_env rootfs pe env st)"
  unfolding parse_env_def parse_rootfs_def parse_net_def parse_config_def Let_def
  by (intro fds_steps)+

lemma rk_parse_loop: "returns_keep fds_kept (parse_loop rootfs pe envs st)"
  by (induction envs arbitrary: st)
    (simp_all only: parse_loop.simps, (intro fds_steps rk_parse_env | assumption)+)

lemma rk_parseEnvs: "returns_keep fds_kept (parseEnvs N spec ctx rootfs)"
  unfolding parseEnvs_def parse_generated_def parse_9pfs_def Let_def
  by (intro fds_steps rk_parse_loop | rule returns_keep_keeps, rule keeps_intros)+

lemma rk_boot_setup: "returns_keep fds_kept (boot_setup N ord1 ord2 ctx)"
proof -
  have fobj: "returns_keep fds_kept m" if "keeps fobj_kept m" for m :: "'x io"
    using that fobj_fds keeps_weaken returns_keep_keeps by blast
  have se: "keeps fobj_kept (setupSpec ctx)" "keeps fobj_kept (saveState st c ctx)"
    "keeps fobj_kept (write_containerd_pid f i)" for st c f i
    unfolding saveState_def setupSpec_def loadSpec_def write_containerd_pid_def Let_def
    by (intro fok.kp_rules keeps_intros)+
  show ?thesis
    unfolding boot_setup_def prepareUkontainer_def launch_def Let_def
    by (intro fdk.rk_rules rk_parseEnvs fobj [OF changeLdso_fobj] fobj [OF make_devices_fobj]
        fobj [OF make_command_fobj] fobj [OF start_stopped_fobj] fobj [OF restore_modes_keeps(1)]
        fobj [OF se(1)] fobj [OF se(2)] fobj [OF se(3)] fobj [OF look_keep_fobj(4)] fobj [OF look_keep_fobj(5)])+
qed

lemma boot_setup_ready:
  assumes "pipe_ready w" and "boot_setup N ord1 ord2 ctx w = (Ret x, w')"
  shows "pipe_ready w'"
proof -
  have v: "w_env w' init_pipe_var = w_env w init_pipe_var"
    using keepsE [OF boot_setup_var [OF init_pipe_not_path] assms(2)] by (simp add: var_kept_def)
  have fds: "fds_kept w w'" by (rule returns_keepE [OF rk_boot_setup assms(2)])
  with assms(1) v fds_kept_lowest [OF fds] show ?thesis
    by (auto simp: pipe_ready_def fds_kept_def)
qed

text \<open>With the pipe in place the boot process always delivers its byte.\<close>

lemma boot_notify_delivers:
  assumes "pipe_ready w" shows "\<exists>w'. boot_notify w = (Ret (Inr True), w')"
proof -
  have a: "atoi ''3'' = (3, None)" by code_simp
  have "os_Getenv ''_LIBCONTAINER_INITPIPE'' w = (Ret ''3'', w)"
    using assms by (simp add: pipe_ready_def init_pipe_var_def os_Getenv_def)
  moreover have "map_option fd_obj (fd_get (w_fds w) (nat 3)) = Some (FPipe 1)"
    using assms by (simp add: pipe_ready_def)
  ultimately show ?thesis
    by (auto simp: boot_notify_def bnd_def thn_def a close_fd_def)
qed

subsection \<open>The invariant\<close>

text \<open>The unikernel process of a set-up that succeeded is there and stopped.\<close>

definition child_stopped :: "world \<Rightarrow> int \<Rightarrow> bool" where
  "child_stopped w pid \<longleftrightarrow> (0 < pid \<and> w_fault w (OpKill pid) = None \<longrightarrow>
     (\<exists>pr. w_procs w pid = Some pr \<and> p_State pr = PStopped))"

definition hinv :: "handshake \<Rightarrow> bool" where
  "hinv s \<longleftrightarrow> (case hs_boot s of
      BStart \<Rightarrow> hs_create s = CReading \<and> hs_bytes s = 0 \<and> pipe_ready (hs_world s)
    | BSetUp pid \<Rightarrow> hs_create s = CReading \<and> hs_bytes s = 0 \<and> pipe_ready (hs_world s) \<and>
        child_stopped (hs_world s) pid
    | BNotified pid \<Rightarrow> child_stopped (hs_world s) pid \<and>
        (hs_create s = CReading \<and> hs_bytes s = 1 \<or> hs_create s = CReturned \<and> hs_bytes s = 0)
    | BEnded ok \<Rightarrow> (if ok then hs_create s = CReading \<and> hs_bytes s = 1 \<or> hs_create s = CReturned
        else True))"

lemma containerd_pid_keeps:
  "keeps procs_kept (write_containerd_pid f i)" "keeps static_kept (write_containerd_pid f i)"
  unfolding write_containerd_pid_def by (intro prk.kp_rules stk.kp_rules keeps_intros)+

lemma boot_setup_stopped:
  assumes "boot_setup N ord1 ord2 ctx w = (Ret (Inr (c, pid)), w')"
    and "\<And>xs. mset (ord1 xs) = mset xs" and "\<And>xs. mset (ord2 xs) = mset xs"
  shows "child_stopped w' pid"
proof -
  from assms(1) obtain u v e x where pu: "prepareUkontainer N ord1 ord2 ctx w = (Ret (Inr (c, pid)), u)"
    and wr: "(if f_pid_file ctx \<noteq> [] then write_containerd_pid (f_pid_file ctx) pid else ret None) u = (Ret e, v)"
    and sv: "saveState StateCreated (args_First ctx) ctx v = (Ret x, w')"
    by (auto simp: boot_setup_def bnd_iffs split_paired_Ex)
  obtain spec rt w1 where la: "launch N ord1 ord2 ctx spec (filepath_Abs (w_cwd w1) (rt_Path rt)) w1 = (Ret (c, pid), u)"
    and rt: "sp_Root spec = Some rt"
    by (rule prepareUkontainer_launch [OF pu])
  have "keeps place_kept (launch N ord1 ord2 ctx spec rootfs)" for rootfs
    unfolding launch_def Let_def by (intro plk.kp_rules keeps_intros)+
  from keepsE [OF this la] have f1: "w_fault u = w_fault w1" by (simp add: place_kept_def static_kept_def)
  from launch_result [OF la assms(2,3)] f1 have "child_stopped u pid" by (auto simp: child_stopped_def)
  moreover have "w_procs v = w_procs u" "w_fault v = w_fault u"
    using wr by (auto simp: procs_kept_def static_kept_def split: if_splits
        dest: keepsE [OF containerd_pid_keeps(1)] keepsE [OF containerd_pid_keeps(2)])
  moreover have "w_procs w' = w_procs v" "w_fault w' = w_fault v"
    using keepsE [OF saveState_keeps(4) sv] keepsE [OF saveState_keeps(2) sv]
    by (simp_all add: procs_kept_def static_kept_def)
  ultimately show ?thesis by (simp add: child_stopped_def)
qed

lemma boot_notify_procs: "boot_notify w = (r, w') \<Longrightarrow> w_procs w' = w_procs w \<and> w_fault w' = w_fault w"
  by (auto simp: boot_notify_def os_Getenv_def bnd_def thn_def close_fd_def
      split: prod.splits option.splits if_splits)

lemma hinv_init: "hinit cctx s \<Longrightarrow> hinv s"
  using create_begin_passes child_view_ready by (fastforce simp: hinit_def hinv_def)

lemma hinv_step: "hinv s \<Longrightarrow> hstep N ctx s t \<Longrightarrow> hinv t"
proof (erule hstep_cases)
  fix ord1 ord2 c pid w'
  assume "hinv s" and t: "t = s\<lparr>hs_world := w', hs_boot := BSetUp pid\<rparr>" "hs_boot s = BStart"
    and ord: "map_order ord1" "map_order ord2"
    and run: "boot_setup N ord1 ord2 ctx (hs_world s) = (Ret (Inr (c, pid)), w')"
  then show "hinv t"
    using boot_setup_ready [OF _ run] boot_setup_stopped [OF run]
    by (simp add: hinv_def map_order_def)
next
  fix pid d w'
  assume "hinv s" and "hs_boot s = BSetUp pid" and run: "boot_notify (hs_world s) = (Ret (Inr d), w')"
    and "t = s\<lparr>hs_world := w', hs_boot := BNotified pid,
       hs_bytes := (if d then Suc (hs_bytes s) else hs_bytes s)\<rparr>"
  then show "hinv t"
    using boot_notify_delivers [of "hs_world s"] boot_notify_procs [OF run]
    by (auto simp: hinv_def child_stopped_def)
qed (auto simp: hinv_def split: boot_pc.splits if_splits)

interpretation hs: step_invariant "hinit cctx" "hstep N ctx" hinv for cctx N ctx
  by unfold_locales (auto intro: hinv_init hinv_step)

subsection \<open>What create can rely on\<close>


text \<open>C18: \<open>create\<close> never waits for a boot process that has ended: if it succeeded, its byte is in
  the pipe, and if it failed, the wait for the process reports it; either way \<open>create\<close> has a
  step that ends its wait.\<close>

theorem create_never_stuck:
  assumes "hinit cctx s" and "(hstep N ctx)\<^sup>*\<^sup>* s t" and "hs_create t = CReading" and "hs_boot t = BEnded ok"
  shows "\<exists>t'. hstep N ctx t t' \<and> hs_create t' \<noteq> CReading \<and> (ok \<longrightarrow> hs_create t' = CReturned)"
proof (cases ok)
  case True
  with hs.inv_reach [OF assms(1,2)] assms(3,4) have "hs_bytes t = Suc 0" by (simp add: hinv_def)
  with read_byte [OF assms(3)] show ?thesis by (metis create_pc.distinct(1) handshake.select_convs(2)
        handshake.surjective handshake.update_convs(2,4))
next
  case False
  with wait_failed [OF assms(3), of N ctx] assms(4) show ?thesis by fastforce
qed

subsection \<open>Witnesses\<close>

definition demo_boot_proc :: "world \<times> int \<times> proc" where
  "demo_boot_proc = (case create_begin demo_c2 demo_run_world of
      (Ret (Inr (pid, rd, wr)), w1) \<Rightarrow> (w1, pid, the (w_procs w1 pid))
    | (_, w1) \<Rightarrow> (w1, 0, demo_proc))"

definition demo_hs :: handshake where
  "demo_hs = (case demo_boot_proc of (w1, pid, pr) \<Rightarrow>
     \<lparr>hs_world = child_view w1 pid pr, hs_create = CReading, hs_boot = BStart, hs_bytes = 0\<rparr>)"

lemma demo_hinit: "hinit demo_c2 demo_hs"
proof -
  let ?r = "create_begin demo_c2 demo_run_world"
  have "case fst ?r of Ret (Inr p) \<Rightarrow> True | _ \<Rightarrow> False" by code_simp
  then obtain pid rd wr w1 where run: "?r = (Ret (Inr (pid, rd, wr)), w1)"
    by (cases ?r) (auto split: outcome.splits sum.splits)
  from create_begin_passes [OF this] obtain pr where "w_procs w1 pid = Some pr" by blast
  with run show ?thesis
    by (auto simp: hinit_def demo_hs_def demo_boot_proc_def intro!: exI)
qed

lemma map_order_id: "map_order (\<lambda>xs. xs)"
  by (simp add: map_order_def)

lemma create_never_stuck_witness:
  "\<exists>t t'. (hstep demo_net (demo_c2\<lparr>f_bundle := ''/missing''\<rparr>))\<^sup>*\<^sup>* demo_hs t \<and> hs_boot t = BEnded False \<and>
     hstep demo_net (demo_c2\<lparr>f_bundle := ''/missing''\<rparr>) t t' \<and> hs_create t' \<noteq> CReading"
proof -
  let ?ctx = "demo_c2\<lparr>f_bundle := ''/missing''\<rparr>"
  let ?b = "boot_setup demo_net (\<lambda>xs. xs) (\<lambda>xs. xs) ?ctx (hs_world demo_hs)"
  have "case fst ?b of Ret (Inl e) \<Rightarrow> True | _ \<Rightarrow> False" by code_simp
  then obtain e w' where run: "?b = (Ret (Inl e), w')"
    by (cases ?b) (auto split: outcome.splits sum.splits)
  have start: "hs_boot demo_hs = BStart" "hs_create demo_hs = CReading"
    using demo_hinit by (auto simp: hinit_def)
  let ?t = "demo_hs\<lparr>hs_world := w', hs_boot := BEnded False\<rparr>"
  from setup_err [OF start(1) map_order_id map_order_id run]
  have reach: "(hstep demo_net ?ctx)\<^sup>*\<^sup>* demo_hs ?t" by (rule r_into_rtranclp)
  have t: "hs_create ?t = CReading" "hs_boot ?t = BEnded False" using start by simp_all
  obtain t' where "hstep demo_net ?ctx ?t t'" "hs_create t' \<noteq> CReading"
    using create_never_stuck [OF demo_hinit reach t] by blast
  with reach t(2) show ?thesis by blast
qed


end
