(* ===== verification/Command_Line.thy ===== *)
theory Command_Line
  imports Lifecycle
begin

text \<open>
  The command line: the flags of \<open>main.go\<close> and of the commands with their defaults, and the
  table of the commands. \<open>urfave/cli\<close> is not part of the repository; command lines are read in
  the syntax of Go's package \<open>flag\<close>, for which the tables are written. What \<open>create\<close> puts on the
  command line of \<open>boot\<close> is read back with the tables of the program.
\<close>

subsection \<open>Flags\<close>

datatype flag_kind = BoolFlag | StringFlag string

record cli_flag =
  fl_Name :: string
  fl_Kind :: flag_kind

definition app_Flags :: "cli_flag list" where
  "app_Flags =
     [\<lparr>fl_Name = ''debug'', fl_Kind = BoolFlag\<rparr>,
      \<lparr>fl_Name = ''log'', fl_Kind = StringFlag ''/tmp/runu.log''\<rparr>,
      \<lparr>fl_Name = ''debug-log'', fl_Kind = StringFlag []\<rparr>,
      \<lparr>fl_Name = ''log-format'', fl_Kind = StringFlag ''text''\<rparr>,
      \<lparr>fl_Name = ''root'', fl_Kind = StringFlag ''/run/runu''\<rparr>,
      \<lparr>fl_Name = ''9ps'', fl_Kind = StringFlag []\<rparr>,
      \<lparr>fl_Name = ''systemd-cgroup'', fl_Kind = BoolFlag\<rparr>]"

definition bundle_Flag :: cli_flag where
  "bundle_Flag = \<lparr>fl_Name = ''bundle, b'', fl_Kind = StringFlag []\<rparr>"

definition pid_file_Flag :: cli_flag where
  "pid_file_Flag = \<lparr>fl_Name = ''pid-file'', fl_Kind = StringFlag []\<rparr>"

definition boot_Flags :: "cli_flag list" where
  "boot_Flags = [bundle_Flag, pid_file_Flag]"

definition create_Flags :: "cli_flag list" where
  "create_Flags = [bundle_Flag, pid_file_Flag]"

definition run_Flags :: "cli_flag list" where
  "run_Flags = [bundle_Flag]"

definition spec_Flags :: "cli_flag list" where
  "spec_Flags = [bundle_Flag]"

definition kill_Flags :: "cli_flag list" where
  "kill_Flags = [\<lparr>fl_Name = ''all'', fl_Kind = BoolFlag\<rparr>]"

definition delete_Flags :: "cli_flag list" where
  "delete_Flags = [\<lparr>fl_Name = ''force, f'', fl_Kind = BoolFlag\<rparr>]"

subsection \<open>Commands\<close>

record command =
  cm_Name :: string
  cm_Flags :: "cli_flag list"
  cm_Action :: "cli_ctx \<Rightarrow> (goerr option) io"

text \<open>What the commands depend on outside: the version of the specification, the two processes of
  \<open>create\<close> and \<open>run\<close>, and for \<open>boot\<close> the network, the map orders and the end of the unikernel.\<close>

definition app_Commands :: "string \<Rightarrow> (int \<Rightarrow> pipe_outcome io) \<Rightarrow> (cli_ctx \<Rightarrow> (goerr option) io) \<Rightarrow> command list" where
  "app_Commands specs_Version other boot =
     [\<lparr>cm_Name = ''create'', cm_Flags = create_Flags, cm_Action = createCommand other\<rparr>,
      \<lparr>cm_Name = ''run'', cm_Flags = run_Flags, cm_Action = runCommand other\<rparr>,
      \<lparr>cm_Name = ''spec'', cm_Flags = spec_Flags, cm_Action = specCommand specs_Version\<rparr>,
      \<lparr>cm_Name = ''start'', cm_Flags = [], cm_Action = startCommand\<rparr>,
      \<lparr>cm_Name = ''state'', cm_Flags = [], cm_Action = stateCommand\<rparr>,
      \<lparr>cm_Name = ''exec'', cm_Flags = [], cm_Action = execCommand\<rparr>,
      \<lparr>cm_Name = ''kill'', cm_Flags = kill_Flags, cm_Action = killCommand\<rparr>,
      \<lparr>cm_Name = ''delete'', cm_Flags = delete_Flags, cm_Action = deleteCommand\<rparr>,
      \<lparr>cm_Name = ''boot'', cm_Flags = boot_Flags, cm_Action = boot\<rparr>]"

definition bootCommand ::
  "netenv \<Rightarrow> ((gofile \<times> bool) list \<Rightarrow> (gofile \<times> bool) list) \<Rightarrow> ((gofile \<times> bool) list \<Rightarrow> (gofile \<times> bool) list)
     \<Rightarrow> goerr option \<Rightarrow> command" where
  "bootCommand N ord1 ord2 waitres =
     \<lparr>cm_Name = ''boot'', cm_Flags = boot_Flags, cm_Action = bootContainer N ord1 ord2 waitres\<rparr>"

text \<open>The version of the program, on two lines.\<close>

definition app_Version :: "string \<Rightarrow> string \<Rightarrow> string" where
  "app_Version version specs_Version = version @ [CHR 0x0A] @ ''spec: '' @ specs_Version"

subsection \<open>Command lines\<close>

text \<open>The names of a flag: its name is a list separated by commas.\<close>

fun split_comma :: "string \<Rightarrow> string list" where
  "split_comma [] = [[]]"
| "split_comma (c # cs) = (if c = CHR '','' then [] # split_comma cs
     else (case split_comma cs of [] \<Rightarrow> [[c]] | x # xs \<Rightarrow> (c # x) # xs))"

definition flag_names :: "cli_flag \<Rightarrow> string list" where
  "flag_names f = map (dropWhile (\<lambda>c. c = CHR '' '')) (split_comma (fl_Name f))"

definition find_flag :: "cli_flag list \<Rightarrow> string \<Rightarrow> cli_flag option" where
  "find_flag fs name = List.find (\<lambda>f. name \<in> set (flag_names f)) fs"

text \<open>An argument as Go's package \<open>flag\<close> reads it: one dash or two, a name, and maybe a value after
  an equals sign.\<close>

datatype flag_arg_kind = NotAFlag | EndOfFlags | BadSyntax | FlagArg string "string option"

fun split_equals :: "string \<Rightarrow> string \<times> string option" where
  "split_equals [] = ([], None)"
| "split_equals (c # cs) = (if c = CHR ''='' then ([], Some cs)
     else (case split_equals cs of (n, v) \<Rightarrow> (c # n, v)))"

definition flag_body :: "string \<Rightarrow> flag_arg_kind" where
  "flag_body name = (case name of
      [] \<Rightarrow> BadSyntax
    | c # cs \<Rightarrow> if c = CHR ''-'' \<or> c = CHR ''='' then BadSyntax
        else (case split_equals cs of (n, v) \<Rightarrow> FlagArg (c # n) v))"

definition read_arg :: "string \<Rightarrow> flag_arg_kind" where
  "read_arg s =
     (if length s < 2 \<or> s ! 0 \<noteq> CHR ''-'' then NotAFlag
      else if s = ''--'' then EndOfFlags
      else flag_body (drop (if s ! 1 = CHR ''-'' then 2 else 1) s))"

definition ParseBool :: "string \<Rightarrow> bool option" where
  "ParseBool s =
     (if s \<in> {''1'', ''t'', ''T'', ''TRUE'', ''true'', ''True''} then Some True
      else if s \<in> {''0'', ''f'', ''F'', ''FALSE'', ''false'', ''False''} then Some False
      else None)"

text \<open>The flags that are set, in order, and the arguments that are left.\<close>

type_synonym flag_values = "(string \<times> string) list"

definition set_flag :: "string \<Rightarrow> string \<Rightarrow> goerr + flag_values \<times> string list \<Rightarrow> goerr + flag_values \<times> string list" where
  "set_flag name v r = (case r of Inl e \<Rightarrow> Inl e | Inr (vs, rest) \<Rightarrow> Inr ((name, v) # vs, rest))"

fun parse_flags :: "cli_flag list \<Rightarrow> string list \<Rightarrow> goerr + flag_values \<times> string list" where
  "parse_flags fs [] = Inr ([], [])"
| "parse_flags fs (s # args) = (case read_arg s of
      NotAFlag \<Rightarrow> Inr ([], s # args)
    | EndOfFlags \<Rightarrow> Inr ([], args)
    | BadSyntax \<Rightarrow> Inl (EFmt ''bad flag syntax: %s'' [s])
    | FlagArg name val \<Rightarrow> (case find_flag fs name of
          None \<Rightarrow> Inl (EFmt ''flag provided but not defined: -%s'' [name])
        | Some f \<Rightarrow> (case fl_Kind f of
              BoolFlag \<Rightarrow> (case ParseBool (case val of None \<Rightarrow> ''true'' | Some v \<Rightarrow> v) of
                  None \<Rightarrow> Inl (EFmt ''invalid boolean value %q for -%s'' [the val, name])
                | Some b \<Rightarrow> set_flag name (if b then ''true'' else ''false'') (parse_flags fs args))
            | StringFlag d \<Rightarrow> (case val of
                  Some v \<Rightarrow> set_flag name v (parse_flags fs args)
                | None \<Rightarrow> (case args of
                      [] \<Rightarrow> Inl (EFmt ''flag needs an argument: -%s'' [name])
                    | v # args' \<Rightarrow> set_flag name v (parse_flags fs args'))))))"

text \<open>The value of a flag: the last one that was set, or the default. A flag that is not defined
  reads as the empty string.\<close>

definition flag_String :: "cli_flag list \<Rightarrow> flag_values \<Rightarrow> string \<Rightarrow> string" where
  "flag_String fs vs name = (case map_of (rev vs) name of
      Some v \<Rightarrow> v
    | None \<Rightarrow> (case find_flag fs name of
          Some f \<Rightarrow> (case fl_Kind f of StringFlag d \<Rightarrow> d | BoolFlag \<Rightarrow> ''false'')
        | None \<Rightarrow> []))"

definition flag_Bool :: "cli_flag list \<Rightarrow> flag_values \<Rightarrow> string \<Rightarrow> bool" where
  "flag_Bool fs vs name \<longleftrightarrow> flag_String fs vs name = ''true''"

subsection \<open>From create to boot\<close>

text \<open>A flag with a value is read back as that flag, and the rest of the line as the rest.\<close>

lemma parse_flag_arg:
  assumes "read_arg s = FlagArg name None" and "find_flag fs name = Some f" and "fl_Kind f = StringFlag d"
  shows "parse_flags fs (flag_arg s v @ args) =
    (if v = [] then parse_flags fs args else set_flag name v (parse_flags fs args))"
  using assms by (simp add: flag_arg_def)

lemma read_names:
  "read_arg ''-log-format'' = FlagArg ''log-format'' None" "read_arg ''-log'' = FlagArg ''log'' None"
  "read_arg ''-root'' = FlagArg ''root'' None" "read_arg ''-debug'' = FlagArg ''debug'' None"
  "read_arg ''-bundle'' = FlagArg ''bundle'' None" "read_arg ''-pid-file'' = FlagArg ''pid-file'' None"
  "read_arg ''boot'' = NotAFlag"
  by code_simp+

lemma find_names:
  "find_flag app_Flags ''log-format'' = Some \<lparr>fl_Name = ''log-format'', fl_Kind = StringFlag ''text''\<rparr>"
  "find_flag app_Flags ''log'' = Some \<lparr>fl_Name = ''log'', fl_Kind = StringFlag ''/tmp/runu.log''\<rparr>"
  "find_flag app_Flags ''root'' = Some \<lparr>fl_Name = ''root'', fl_Kind = StringFlag ''/run/runu''\<rparr>"
  "find_flag app_Flags ''debug'' = Some \<lparr>fl_Name = ''debug'', fl_Kind = BoolFlag\<rparr>"
  "find_flag app_Flags ''debug-log'' = Some \<lparr>fl_Name = ''debug-log'', fl_Kind = StringFlag []\<rparr>"
  "find_flag app_Flags ''9ps'' = Some \<lparr>fl_Name = ''9ps'', fl_Kind = StringFlag []\<rparr>"
  "find_flag boot_Flags ''bundle'' = Some bundle_Flag" "find_flag boot_Flags ''pid-file'' = Some pid_file_Flag"
  by code_simp+


text \<open>Every command but \<open>spec\<close>, \<open>exec\<close> and \<open>boot\<close> that is called without a container id
  returns an error and has done nothing.\<close>

theorem commands_need_id:
  assumes "c \<in> set (app_Commands specs_Version other boot)" and "cm_Name c \<notin> {''spec'', ''exec'', ''boot''}"
    and "ctx_args ctx = []"
  shows "cm_Action c ctx w = (Ret (Some missing_id), w)"
  using assms
  by (auto simp: app_Commands_def createCommand_def runCommand_def startCommand_def stateCommand_def killCommand_def
      deleteCommand_def args_Present_def)


lemma commands_need_id_witness:
  "cm_Action \<lparr>cm_Name = ''kill'', cm_Flags = kill_Flags, cm_Action = killCommand\<rparr> (demo_ctx\<lparr>ctx_args := []\<rparr>) demo_world =
     (Ret (Some missing_id), demo_world)"
  by (rule commands_need_id [of _ "''1.0.2''" "\<lambda>pid. ret PipeByte" execCommand]) (simp_all add: app_Commands_def)

end
