(* ===== verification/Shim_Service.thy ===== *)
theory Shim_Service
  imports Demo OS_Facts "HOL-Library.AList" "HOL-Library.Word" "HOL-Library.Multiset"
begin

text \<open>
  \<open>cmd/containerd-shim-runu-v1/service.go\<close>: the shim's task service. It keeps the containers it
  has created, hands every request to the process of its container and queues the events for
  containerd. The package \<open>process\<close> of containerd, its mounts and its error conversion are not
  part of the repository: they are the operations of the record \<open>pkg\<close>, on a state of their own
  and the machine. Here requests, exits and the forwarding of events come one after the
  other, and a call that has to wait for a lock or for room among the events is \<open>Hang\<close>; the
  theory \<open>Shim_Threads\<close> takes them apart into the actions that other requests see.
\<close>

subsection \<open>What the shim calls\<close>

record options =
  op_BinaryName :: string
  op_Root :: string
  op_CriuPath :: string
  op_CriuWorkPath :: string
  op_IoUid :: "32 word"
  op_IoGid :: "32 word"
  op_NoPivotRoot :: bool
  op_NoNewKeyring :: bool

definition no_options :: options where
  "no_options = \<lparr>op_BinaryName = [], op_Root = [], op_CriuPath = [], op_CriuWorkPath = [], op_IoUid = 0,
     op_IoGid = 0, op_NoPivotRoot = False, op_NoNewKeyring = False\<rparr>"

text \<open>An encoded message: its type's URL and its bytes; decoded it is options or another type.\<close>

record any =
  any_url :: string
  any_value :: string

datatype message = MOptions options | MOther

record mnt =
  mn_Type :: string
  mn_Source :: string
  mn_Target :: string
  mn_Options :: "string list"

record create_request =
  rq_ID :: string
  rq_Bundle :: string
  rq_Rootfs :: "mnt list"
  rq_Terminal :: bool
  rq_Stdin :: string
  rq_Stdout :: string
  rq_Stderr :: string
  rq_Checkpoint :: string
  rq_ParentCheckpoint :: string
  rq_Options :: "any option"

record create_config =
  cc_ID :: string
  cc_Bundle :: string
  cc_Runtime :: string
  cc_Rootfs :: "mnt list"
  cc_Terminal :: bool
  cc_Stdin :: string
  cc_Stdout :: string
  cc_Stderr :: string
  cc_Checkpoint :: string
  cc_ParentCheckpoint :: string
  cc_Options :: "any option"

record stdio =
  io_Stdin :: string
  io_Stdout :: string
  io_Stderr :: string
  io_Terminal :: bool

text \<open>What \<open>newInit\<close> gives the new process: the runtime it will call and its fields.\<close>

record init_config =
  ic_Root :: string
  ic_Path :: string
  ic_Namespace :: string
  ic_Command :: string
  ic_Criu :: string
  ic_SystemdCgroup :: bool
  ic_ID :: string
  ic_Stdio :: stdio
  ic_Bundle :: string
  ic_Platform :: bool
  ic_Rootfs :: string
  ic_WorkDir :: string
  ic_IoUID :: int
  ic_IoGID :: int
  ic_NoPivotRoot :: bool
  ic_NoNewKeyring :: bool
  ic_CriuWorkPath :: string

text \<open>
  The operations of the packages the shim calls, on their state and the machine. A process is
  its number; what it says of itself does not change anything.
\<close>

type_synonym ('x, 'a) ext = "('x \<times> world, 'a) go"

record 'x pkg =
  pk_ToGRPC :: "goerr \<Rightarrow> goerr"
  pk_NotFound :: goerr
  pk_FailedPrecondition :: goerr
  pk_MarshalOptions :: "options \<Rightarrow> goerr + any"
  pk_UnmarshalAny :: "any \<Rightarrow> goerr + message"
  pk_MarshalDetails :: "string \<Rightarrow> goerr + any"
  pk_New :: "init_config \<Rightarrow> ('x, nat) ext"
  pk_Create :: "nat \<Rightarrow> create_config \<Rightarrow> ('x, goerr option) ext"
  pk_Start :: "nat \<Rightarrow> ('x, goerr option) ext"
  pk_Delete :: "nat \<Rightarrow> ('x, goerr option) ext"
  pk_Pause :: "nat \<Rightarrow> ('x, goerr option) ext"
  pk_Resume :: "nat \<Rightarrow> ('x, goerr option) ext"
  pk_Kill :: "nat \<Rightarrow> 32 word \<Rightarrow> bool \<Rightarrow> ('x, goerr option) ext"
  pk_SetExited :: "nat \<Rightarrow> int \<Rightarrow> ('x, unit) ext"
  pk_Wait :: "nat \<Rightarrow> ('x, unit) ext"
  pk_Status :: "nat \<Rightarrow> ('x, goerr + string) ext"
  pk_Ps :: "nat \<Rightarrow> string \<Rightarrow> ('x, goerr + int list) ext"
  pk_StdinClose :: "nat \<Rightarrow> ('x, goerr option) ext"
  pk_Mount :: "mnt \<Rightarrow> string \<Rightarrow> ('x, goerr option) ext"
  pk_UnmountAll :: "string \<Rightarrow> ('x, goerr option) ext"
  pk_Pid :: "nat \<Rightarrow> 'x \<times> world \<Rightarrow> int"
  pk_PID :: "nat \<Rightarrow> 'x \<times> world \<Rightarrow> string"
  pk_ExitStatus :: "nat \<Rightarrow> 'x \<times> world \<Rightarrow> int"
  pk_ExitedAt :: "nat \<Rightarrow> 'x \<times> world \<Rightarrow> int"
  pk_Stdio :: "nat \<Rightarrow> 'x \<times> world \<Rightarrow> stdio"
  pk_HasStdin :: "nat \<Rightarrow> 'x \<times> world \<Rightarrow> bool"

subsection \<open>State\<close>

datatype event =
    TaskCreate string string "mnt list" stdio string "32 word"
  | TaskStart | TaskOOM
  | TaskExit string string "32 word" "32 word" int
  | TaskDelete string "32 word" "32 word" int
  | TaskExecAdded | TaskExecStarted
  | TaskPaused string | TaskResumed string
  | TaskCheckpointed | OtherEvent

datatype topic = TaskCreateEventTopic | TaskStartEventTopic | TaskOOMEventTopic | TaskExitEventTopic
  | TaskDeleteEventTopic | TaskExecAddedEventTopic | TaskExecStartedEventTopic | TaskPausedEventTopic
  | TaskResumedEventTopic | TaskCheckpointedEventTopic | TaskUnknownTopic

record darwinContainer =
  ct_mu :: bool
  ct_ID :: string
  ct_Bundle :: string
  ct_process :: "nat option"
  ct_processes :: "(string \<times> nat) list"

text \<open>The locks are held or free; \<open>sv_published\<close> is what the publisher has been given.\<close>

record 'x service =
  sv_mu :: bool
  sv_sendMu :: bool
  sv_events :: "event list"
  sv_eventsClosed :: bool
  sv_platform :: bool
  sv_id :: string
  sv_containers :: "(string \<times> darwinContainer) list"
  sv_cancelled :: bool
  sv_published :: "(topic \<times> event) list"
  sv_ext :: "'x \<times> world"

type_synonym ('x, 'a) svc = "('x service, 'a) go"

definition RunuRoot :: string where
  "RunuRoot = ''/var/run/containerd/runu''"

definition eventsCapacity :: nat where
  "eventsCapacity = 128"

definition u32 :: "int \<Rightarrow> 32 word" where
  "u32 = word_of_int"

text \<open>An operation outside, on the part of the state it works on.\<close>

definition on_ext :: "('x, 'a) ext \<Rightarrow> ('x, 'a) svc" where
  "on_ext f = (\<lambda>s. case f (sv_ext s) of (r, e) \<Rightarrow> (r, s\<lparr>sv_ext := e\<rparr>))"

definition on_world :: "'a io \<Rightarrow> ('x, 'a) ext" where
  "on_world f = (\<lambda>(x, w). case f w of (r, w') \<Rightarrow> (r, (x, w')))"

abbreviation ask :: "('x \<times> world \<Rightarrow> 'a) \<Rightarrow> ('x, 'a) svc" where
  "ask f \<equiv> gets (\<lambda>s. f (sv_ext s))"

subsection \<open>Locks and events\<close>

definition lock_mu :: "('x, unit) svc" where
  "lock_mu = (\<lambda>s. if sv_mu s then (Hang, s) else (Ret (), s\<lparr>sv_mu := True\<rparr>))"

definition unlock_mu :: "('x, unit) svc" where
  "unlock_mu = (\<lambda>s. if sv_mu s then (Ret (), s\<lparr>sv_mu := False\<rparr>) else (Panic ''unlock of unlocked mutex'', s))"

definition lock_send :: "('x, unit) svc" where
  "lock_send = (\<lambda>s. if sv_sendMu s then (Hang, s) else (Ret (), s\<lparr>sv_sendMu := True\<rparr>))"

definition unlock_send :: "('x, unit) svc" where
  "unlock_send = (\<lambda>s. if sv_sendMu s then (Ret (), s\<lparr>sv_sendMu := False\<rparr>) else (Panic ''unlock of unlocked mutex'', s))"

definition send :: "event \<Rightarrow> ('x, unit) svc" where
  "send evt = (\<lambda>s. if sv_eventsClosed s then (Panic ''send on closed channel'', s)
     else if eventsCapacity \<le> length (sv_events s) then (Hang, s)
     else (Ret (), s\<lparr>sv_events := sv_events s @ [evt]\<rparr>))"

definition sendL :: "event \<Rightarrow> ('x, unit) svc" where
  "sendL evt = thn lock_send (thn (send evt) unlock_send)"

definition close_events :: "('x, unit) svc" where
  "close_events = (\<lambda>s. if sv_eventsClosed s then (Panic ''close of closed channel'', s)
     else (Ret (), s\<lparr>sv_eventsClosed := True\<rparr>))"

fun getTopic :: "event \<Rightarrow> topic" where
  "getTopic (TaskCreate a b c d e f) = TaskCreateEventTopic"
| "getTopic TaskStart = TaskStartEventTopic"
| "getTopic TaskOOM = TaskOOMEventTopic"
| "getTopic (TaskExit a b c d e) = TaskExitEventTopic"
| "getTopic (TaskDelete a b c d) = TaskDeleteEventTopic"
| "getTopic TaskExecAdded = TaskExecAddedEventTopic"
| "getTopic TaskExecStarted = TaskExecStartedEventTopic"
| "getTopic (TaskPaused a) = TaskPausedEventTopic"
| "getTopic (TaskResumed a) = TaskResumedEventTopic"
| "getTopic TaskCheckpointed = TaskCheckpointedEventTopic"
| "getTopic OtherEvent = TaskUnknownTopic"

text \<open>One turn of \<open>forward\<close>: the oldest event is given to the publisher, whose error is only
  logged. Without an event it waits, or is over when the channel is closed.\<close>

definition forward_one :: "('x, bool) svc" where
  "forward_one = (\<lambda>s. case sv_events s of
      [] \<Rightarrow> if sv_eventsClosed s then (Ret False, s) else (Hang, s)
    | e # es \<Rightarrow> (Ret True, s\<lparr>sv_events := es, sv_published := sv_published s @ [(getTopic e, e)]\<rparr>))"

subsection \<open>Finding containers and processes\<close>

definition getContainer :: "'x pkg \<Rightarrow> string \<Rightarrow> ('x, goerr + darwinContainer) svc" where
  "getContainer P cid =
     thn lock_mu
     (bnd (gets (\<lambda>s. map_of (sv_containers s) cid)) (\<lambda>container.
       thn unlock_mu
       (case container of
          None \<Rightarrow> ret (Inl (pk_ToGRPC P (EWrap ''container not created'' [] (pk_NotFound P))))
        | Some c \<Rightarrow> ret (Inr c))))"

definition find_in :: "'x pkg \<Rightarrow> darwinContainer \<Rightarrow> string \<Rightarrow> goerr + nat" where
  "find_in P c pid =
     (if pid = [] then
        (case ct_process c of
           None \<Rightarrow> Inl (EWrap ''container must be created'' [] (pk_FailedPrecondition P))
         | Some p \<Rightarrow> Inr p)
      else
        (case map_of (ct_processes c) pid of
           None \<Rightarrow> Inl (EWrap ''process does not exist %s'' [pid] (pk_NotFound P))
         | Some p \<Rightarrow> Inr p))"

definition getProcess :: "'x pkg \<Rightarrow> darwinContainer \<Rightarrow> string \<Rightarrow> ('x, goerr + nat) svc" where
  "getProcess P c pid = (if ct_mu c then hang else ret (find_in P c pid))"

text \<open>The container of the id, and the process in it that a request names.\<close>

definition with_process :: "'x pkg \<Rightarrow> string \<Rightarrow> string \<Rightarrow> (goerr \<Rightarrow> goerr) \<Rightarrow>
    (darwinContainer \<Rightarrow> nat \<Rightarrow> ('x, goerr + 'r) svc) \<Rightarrow> ('x, goerr + 'r) svc" where
  "with_process P cid eid conv k = bnd (getContainer P cid) (\<lambda>r. case r of
      Inl err \<Rightarrow> ret (Inl err)
    | Inr container \<Rightarrow> bnd (getProcess P container eid) (\<lambda>r. case r of
          Inl err \<Rightarrow> ret (Inl (conv err))
        | Inr p \<Rightarrow> k container p))"

subsection \<open>New containers\<close>

definition init_config_of :: "string \<Rightarrow> string \<Rightarrow> string \<Rightarrow> bool \<Rightarrow> create_config \<Rightarrow> options \<Rightarrow> string \<Rightarrow>
    init_config" where
  "init_config_of path workDir namespace platform r opts rootfs =
     \<lparr>ic_Root = op_Root opts, ic_Path = path, ic_Namespace = namespace, ic_Command = op_BinaryName opts,
      ic_Criu = op_CriuPath opts, ic_SystemdCgroup = False, ic_ID = cc_ID r,
      ic_Stdio = \<lparr>io_Stdin = cc_Stdin r, io_Stdout = cc_Stdout r, io_Stderr = cc_Stderr r, io_Terminal = cc_Terminal r\<rparr>,
      ic_Bundle = cc_Bundle r, ic_Platform = platform, ic_Rootfs = rootfs, ic_WorkDir = workDir,
      ic_IoUID = uint (op_IoUid opts), ic_IoGID = uint (op_IoGid opts),
      ic_NoPivotRoot = op_NoPivotRoot opts, ic_NoNewKeyring = op_NoNewKeyring opts,
      ic_CriuWorkPath = (if op_CriuWorkPath opts = [] then workDir else op_CriuWorkPath opts)\<rparr>"

definition newInit :: "'x pkg \<Rightarrow> string \<Rightarrow> string \<Rightarrow> string \<Rightarrow> bool \<Rightarrow> create_config \<Rightarrow> options \<Rightarrow> string \<Rightarrow>
    ('x, nat) svc" where
  "newInit P path workDir namespace platform r opts rootfs =
     on_ext (pk_New P (init_config_of path workDir namespace platform r opts rootfs))"

definition request_options :: "'x pkg \<Rightarrow> any option \<Rightarrow> ('x, goerr + options) svc" where
  "request_options P o1 = (case o1 of
      None \<Rightarrow> ret (Inr no_options)
    | Some a \<Rightarrow> if any_url a = [] then ret (Inr no_options)
        else (case pk_UnmarshalAny P a of
            Inl err \<Rightarrow> ret (Inl err)
          | Inr (MOptions opts) \<Rightarrow> ret (Inr opts)
          | Inr MOther \<Rightarrow> go_panic ''interface conversion''))"

definition rootfs_dir :: "create_request \<Rightarrow> ('x, goerr + string) svc" where
  "rootfs_dir r =
     (if rq_Rootfs r = [] then ret (Inr [])
      else let rootfs = filepath_Join [rq_Bundle r, ''rootfs''] in
        bnd (on_ext (on_world (os_Mkdir rootfs 457))) (\<lambda>err. case err of
            Some e \<Rightarrow> if os_IsExist e then ret (Inr rootfs) else ret (Inl (EOs e))
          | None \<Rightarrow> ret (Inr rootfs)))"

text \<open>The mount of each component drops its target; the error's text names the component.\<close>

fun mount_all :: "'x pkg \<Rightarrow> mnt list \<Rightarrow> string \<Rightarrow> ('x, goerr option) svc" where
  "mount_all P [] rootfs = ret None"
| "mount_all P (rm # ms) rootfs = bnd (on_ext (pk_Mount P (rm\<lparr>mn_Target := []\<rparr>) rootfs)) (\<lambda>r. case r of
      Some err \<Rightarrow> ret (Some (EWrap ''failed to mount rootfs component %v'' [mn_Source rm] err))
    | None \<Rightarrow> mount_all P ms rootfs)"

definition create_config_of :: "create_request \<Rightarrow> options \<Rightarrow> create_config" where
  "create_config_of r opts = \<lparr>cc_ID = rq_ID r, cc_Bundle = rq_Bundle r, cc_Runtime = op_BinaryName opts,
     cc_Rootfs = rq_Rootfs r, cc_Terminal = rq_Terminal r, cc_Stdin = rq_Stdin r, cc_Stdout = rq_Stdout r,
     cc_Stderr = rq_Stderr r, cc_Checkpoint = rq_Checkpoint r, cc_ParentCheckpoint = rq_ParentCheckpoint r,
     cc_Options = rq_Options r\<rparr>"

text \<open>The part of \<open>newContainer\<close> under its deferred clean-up.\<close>

definition mount_and_create :: "'x pkg \<Rightarrow> string \<Rightarrow> bool \<Rightarrow> create_request \<Rightarrow> options \<Rightarrow> string \<Rightarrow>
    ('x, goerr + darwinContainer) svc" where
  "mount_and_create P ns platform r opts rootfs =
     bnd (mount_all P (rq_Rootfs r) rootfs) (\<lambda>m. case m of
       Some err \<Rightarrow> ret (Inl err)
     | None \<Rightarrow>
         bnd (newInit P (rq_Bundle r) (filepath_Join [rq_Bundle r, ''work'']) ns platform
               (create_config_of r opts) opts rootfs) (\<lambda>p.
         bnd (on_ext (pk_Create P p (create_config_of r opts))) (\<lambda>c. case c of
           Some err \<Rightarrow> ret (Inl (pk_ToGRPC P err))
         | None \<Rightarrow> ret (Inr \<lparr>ct_mu = False, ct_ID = rq_ID r, ct_Bundle = rq_Bundle r,
             ct_process = Some p, ct_processes = []\<rparr>))))"

text \<open>\<open>ns\<close> is what the request's context says of its namespace.\<close>

definition newContainer :: "'x pkg \<Rightarrow> goerr + string \<Rightarrow> bool \<Rightarrow> create_request \<Rightarrow> ('x, goerr + darwinContainer) svc" where
  "newContainer P ns platform r = (case ns of
      Inl err \<Rightarrow> ret (Inl (EWrap ''create namespace'' [] err))
    | Inr namespace \<Rightarrow> bnd (request_options P (rq_Options r)) (\<lambda>ro. case ro of
          Inl err \<Rightarrow> ret (Inl err)
        | Inr opts \<Rightarrow> bnd (rootfs_dir r) (\<lambda>rf. case rf of
              Inl err \<Rightarrow> ret (Inl err)
            | Inr rootfs \<Rightarrow> bnd (mount_and_create P namespace platform r opts rootfs) (\<lambda>res. case res of
                  Inl err \<Rightarrow> thn (on_ext (pk_UnmountAll P rootfs)) (ret (Inl err))
                | Inr container \<Rightarrow> ret (Inr container)))))"

subsection \<open>Requests\<close>

definition put_container :: "string \<Rightarrow> darwinContainer \<Rightarrow> ('x, unit) svc" where
  "put_container cid c = modify (\<lambda>s. s\<lparr>sv_containers := AList.update cid c (sv_containers s)\<rparr>)"

definition runu_options :: options where
  "runu_options = no_options\<lparr>op_BinaryName := ''runu'', op_Root := RunuRoot\<rparr>"

text \<open>The container is recorded, without the lock, and its event is sent.\<close>

definition announce_created :: "'x pkg \<Rightarrow> create_request \<Rightarrow> darwinContainer \<Rightarrow> ('x, goerr + 32 word) svc" where
  "announce_created P r container =
     thn (put_container (rq_ID r) container)
     (bnd (deref (ct_process container)) (\<lambda>p.
      bnd (ask (\<lambda>x. u32 (pk_Pid P p x))) (\<lambda>pid.
        thn (send (TaskCreate (rq_ID r) (rq_Bundle r) (rq_Rootfs r)
          \<lparr>io_Stdin = rq_Stdin r, io_Stdout = rq_Stdout r, io_Stderr = rq_Stderr r, io_Terminal = rq_Terminal r\<rparr>
          (rq_Checkpoint r) pid))
        (ret (Inr pid)))))"

definition Create :: "'x pkg \<Rightarrow> goerr + string \<Rightarrow> create_request \<Rightarrow> ('x, goerr + 32 word) svc" where
  "Create P ns r = (case pk_MarshalOptions P runu_options of
      Inl err \<Rightarrow> ret (Inl err)
    | Inr a \<Rightarrow>
        bnd (gets sv_platform) (\<lambda>platform.
        bnd (newContainer P ns platform (r\<lparr>rq_Options := Some a\<rparr>)) (\<lambda>res. case res of
            Inl err \<Rightarrow> ret (Inl err)
          | Inr container \<Rightarrow> announce_created P (r\<lparr>rq_Options := Some a\<rparr>) container)))"

definition Start :: "'x pkg \<Rightarrow> string \<Rightarrow> string \<Rightarrow> ('x, goerr + 32 word) svc" where
  "Start P cid eid = bnd (getContainer P cid) (\<lambda>r. case r of
      Inl err \<Rightarrow> ret (Inl err)
    | Inr container \<Rightarrow>
        thn lock_send
        (bnd (getProcess P container eid) (\<lambda>r. case r of
            Inl err \<Rightarrow> thn unlock_send (ret (Inl (pk_ToGRPC P err)))
          | Inr p \<Rightarrow> bnd (on_ext (pk_Start P p)) (\<lambda>e. case e of
                Some err \<Rightarrow> thn unlock_send (ret (Inl (pk_ToGRPC P err)))
              | None \<Rightarrow> thn unlock_send (bnd (ask (\<lambda>x. u32 (pk_Pid P p x))) (\<lambda>pid. ret (Inr pid)))))))"

definition exit_info :: "'x pkg \<Rightarrow> nat \<Rightarrow> 'x \<times> world \<Rightarrow> 32 word \<times> int \<times> 32 word" where
  "exit_info P p x = (u32 (pk_ExitStatus P p x), pk_ExitedAt P p x, u32 (pk_Pid P p x))"

text \<open>What \<open>Delete\<close> does after the process has been deleted.\<close>

definition forget :: "'x pkg \<Rightarrow> string \<Rightarrow> string \<Rightarrow> darwinContainer \<Rightarrow> nat \<Rightarrow> ('x, unit) svc" where
  "forget P cid eid container p =
     (if eid = [] then
        thn lock_mu
        (thn (modify (\<lambda>s. s\<lparr>sv_containers := AList.delete cid (sv_containers s)\<rparr>))
        (thn unlock_mu
        (bnd (ask (exit_info P p)) (\<lambda>(st, at1, pid). send (TaskDelete (ct_ID container) pid st at1)))))
      else if ct_mu container then hang
      else put_container cid (container\<lparr>ct_processes := AList.delete eid (ct_processes container)\<rparr>))"

definition Delete :: "'x pkg \<Rightarrow> string \<Rightarrow> string \<Rightarrow> ('x, goerr + 32 word \<times> int \<times> 32 word) svc" where
  "Delete P cid eid = with_process P cid eid (pk_ToGRPC P) (\<lambda>container p.
     bnd (on_ext (pk_Delete P p)) (\<lambda>e. case e of
         Some err \<Rightarrow> ret (Inl (pk_ToGRPC P err))
       | None \<Rightarrow> thn (forget P cid eid container p)
           (bnd (ask (exit_info P p)) (\<lambda>i. ret (Inr i)))))"

datatype task_status = StatusUnknown | StatusCreated | StatusRunning | StatusStopped | StatusPaused | StatusPausing

definition status_of :: "string \<Rightarrow> task_status" where
  "status_of st =
     (if st = ''created'' then StatusCreated
      else if st = ''running'' then StatusRunning
      else if st = ''stopped'' then StatusStopped
      else if st = ''paused'' then StatusPaused
      else if st = ''pausing'' then StatusPausing
      else StatusUnknown)"

record state_response =
  sr_ID :: string
  sr_Bundle :: string
  sr_Pid :: "32 word"
  sr_Status :: task_status
  sr_Stdio :: stdio
  sr_ExitStatus :: "32 word"
  sr_ExitedAt :: int

definition State :: "'x pkg \<Rightarrow> string \<Rightarrow> string \<Rightarrow> ('x, goerr + state_response) svc" where
  "State P cid eid = with_process P cid eid (\<lambda>err. err) (\<lambda>container p.
     bnd (on_ext (pk_Status P p)) (\<lambda>r. case r of
         Inl err \<Rightarrow> ret (Inl err)
       | Inr st \<Rightarrow> ask (\<lambda>x. Inr \<lparr>sr_ID = pk_PID P p x, sr_Bundle = ct_Bundle container,
           sr_Pid = u32 (pk_Pid P p x), sr_Status = status_of st, sr_Stdio = pk_Stdio P p x,
           sr_ExitStatus = u32 (pk_ExitStatus P p x), sr_ExitedAt = pk_ExitedAt P p x\<rparr>)))"

definition Pause :: "'x pkg \<Rightarrow> string \<Rightarrow> ('x, goerr + unit) svc" where
  "Pause P cid = bnd (getContainer P cid) (\<lambda>r. case r of
      Inl err \<Rightarrow> ret (Inl err)
    | Inr container \<Rightarrow> bnd (deref (ct_process container)) (\<lambda>p.
        bnd (on_ext (pk_Pause P p)) (\<lambda>e. case e of
          Some err \<Rightarrow> ret (Inl (pk_ToGRPC P err))
        | None \<Rightarrow> thn (send (TaskPaused (ct_ID container))) (ret (Inr ())))))"

definition Resume :: "'x pkg \<Rightarrow> string \<Rightarrow> ('x, goerr + unit) svc" where
  "Resume P cid = bnd (getContainer P cid) (\<lambda>r. case r of
      Inl err \<Rightarrow> ret (Inl err)
    | Inr container \<Rightarrow> bnd (deref (ct_process container)) (\<lambda>p.
        bnd (on_ext (pk_Resume P p)) (\<lambda>e. case e of
          Some err \<Rightarrow> ret (Inl (pk_ToGRPC P err))
        | None \<Rightarrow> thn (send (TaskResumed (ct_ID container))) (ret (Inr ())))))"

definition Kill :: "'x pkg \<Rightarrow> string \<Rightarrow> string \<Rightarrow> 32 word \<Rightarrow> bool \<Rightarrow> ('x, goerr + unit) svc" where
  "Kill P cid eid sig all1 = with_process P cid eid (\<lambda>err. err) (\<lambda>container p.
     bnd (on_ext (pk_Kill P p sig all1)) (\<lambda>e. case e of
         Some err \<Rightarrow> ret (Inl (pk_ToGRPC P err))
       | None \<Rightarrow> ret (Inr ())))"

definition getContainerPids :: "'x pkg \<Rightarrow> string \<Rightarrow> ('x, goerr + 32 word list) svc" where
  "getContainerPids P cid = with_process P cid [] (pk_ToGRPC P) (\<lambda>container p.
     bnd (on_ext (pk_Ps P p cid)) (\<lambda>r. case r of
         Inl err \<Rightarrow> ret (Inl err)
       | Inr ps \<Rightarrow> ret (Inr (map u32 ps))))"

text \<open>The details of a pid: the first process of the container, in the order the map is enumerated
  for it, that has it.\<close>

fun pid_details :: "'x pkg \<Rightarrow> 'x \<times> world \<Rightarrow> (32 word \<Rightarrow> (string \<times> nat) list \<Rightarrow> (string \<times> nat) list) \<Rightarrow> (string \<times> nat) list \<Rightarrow> 32 word list \<Rightarrow>
    goerr + (32 word \<times> any option) list" where
  "pid_details P x ord ps [] = Inr []"
| "pid_details P x ord ps (pid # pids) =
     (case (case List.find (\<lambda>(i, p). pk_Pid P p x = uint pid) (ord pid ps) of
          None \<Rightarrow> Inr None
        | Some (i, p) \<Rightarrow> (case pk_MarshalDetails P (pk_PID P p x) of
              Inl err \<Rightarrow> Inl (EWrap ''failed to marshal process %d info'' [itoa (uint pid)] err)
            | Inr a \<Rightarrow> Inr (Some a))) of
        Inl err \<Rightarrow> Inl err
      | Inr i \<Rightarrow> (case pid_details P x ord ps pids of Inl err \<Rightarrow> Inl err | Inr is1 \<Rightarrow> Inr ((pid, i) # is1)))"

definition Pids :: "'x pkg \<Rightarrow> (32 word \<Rightarrow> (string \<times> nat) list \<Rightarrow> (string \<times> nat) list) \<Rightarrow> string \<Rightarrow>
    ('x, goerr + (32 word \<times> any option) list) svc" where
  "Pids P ord cid = bnd (getContainer P cid) (\<lambda>r. case r of
      Inl err \<Rightarrow> ret (Inl err)
    | Inr container \<Rightarrow> bnd (getContainerPids P cid) (\<lambda>r. case r of
          Inl err \<Rightarrow> ret (Inl (pk_ToGRPC P err))
        | Inr pids \<Rightarrow> ask (\<lambda>x. pid_details P x ord (ct_processes container) pids)))"

definition CloseIO :: "'x pkg \<Rightarrow> string \<Rightarrow> string \<Rightarrow> ('x, goerr + unit) svc" where
  "CloseIO P cid eid = with_process P cid eid (\<lambda>err. err) (\<lambda>container p.
     bnd (ask (pk_HasStdin P p)) (\<lambda>has.
       if \<not> has then ret (Inr ())
       else bnd (on_ext (pk_StdinClose P p)) (\<lambda>e. case e of
           Some err \<Rightarrow> ret (Inl (EWrap ''close stdin'' [] err))
         | None \<Rightarrow> ret (Inr ()))))"

definition Wait :: "'x pkg \<Rightarrow> string \<Rightarrow> string \<Rightarrow> ('x, goerr + 32 word \<times> int) svc" where
  "Wait P cid eid = with_process P cid eid (pk_ToGRPC P) (\<lambda>container p.
     thn (on_ext (pk_Wait P p))
       (ask (\<lambda>x. Inr (u32 (pk_ExitStatus P p x), pk_ExitedAt P p x))))"

definition Connect :: "'x pkg \<Rightarrow> string \<Rightarrow> ('x, goerr + 32 word \<times> 32 word) svc" where
  "Connect P cid = bnd (getContainer P cid) (\<lambda>r.
     bnd (case r of
         Inl err \<Rightarrow> ret 0
       | Inr container \<Rightarrow> bnd (deref (ct_process container)) (\<lambda>p. ask (pk_Pid P p))) (\<lambda>pid.
     ask (\<lambda>(x, w). Inr (u32 (w_pid w), u32 pid))))"

text \<open>\<open>platform.go\<close>: on Darwin the platform has no consoles to look after.\<close>

definition initPlatform :: "('x, goerr option) svc" where
  "initPlatform = thn (modify (\<lambda>s. s\<lparr>sv_platform := True\<rparr>)) (ret None)"

definition CopyConsole :: "('x, goerr + nat option) svc" where
  "CopyConsole = ret (Inr None)"

definition ShutdownConsole :: "('x, goerr option) svc" where
  "ShutdownConsole = ret None"

definition platform_Close :: "('x, goerr option) svc" where
  "platform_Close = ret None"

text \<open>The lock is not released on the path that ends the service.\<close>

definition Shutdown :: "('x, goerr + unit) svc" where
  "Shutdown = thn lock_mu (bnd (gets sv_containers) (\<lambda>cs.
     if cs \<noteq> [] then thn unlock_mu (ret (Inr ()))
     else thn (modify (\<lambda>s. s\<lparr>sv_cancelled := True\<rparr>))
       (thn close_events
       (bnd (gets sv_platform) (\<lambda>platform.
        thn (if platform then platform_Close else ret None) (ret (Inr ())))))))"

text \<open>The operations that are not implemented answer with success.\<close>

definition Exec :: "('x, goerr + unit) svc" where
  "Exec = ret (Inr ())"

definition ResizePty :: "('x, goerr + unit) svc" where
  "ResizePty = ret (Inr ())"

definition Checkpoint :: "('x, goerr + unit) svc" where
  "Checkpoint = ret (Inr ())"

definition Update :: "('x, goerr + unit) svc" where
  "Update = ret (Inr ())"

definition Stats :: "('x, goerr + unit option) svc" where
  "Stats = ret (Inr None)"

subsection \<open>Exits\<close>

text \<open>The first process of a list with the pid; a method of one that is not there is a panic.\<close>

fun find_process :: "'x pkg \<Rightarrow> int \<Rightarrow> nat option list \<Rightarrow> ('x, nat option) svc" where
  "find_process P pid [] = ret None"
| "find_process P pid (p0 # ps) = bnd (deref p0) (\<lambda>p. bnd (ask (pk_Pid P p)) (\<lambda>q.
     if q \<noteq> pid then find_process P pid ps else ret (Some p)))"

definition container_processes :: "((string \<times> nat) list \<Rightarrow> (string \<times> nat) list) \<Rightarrow> darwinContainer \<Rightarrow> nat option list" where
  "container_processes pord c = map (\<lambda>(i, p). Some p) (pord (ct_processes c)) @ [ct_process c]"

definition exited :: "'x pkg \<Rightarrow> darwinContainer \<Rightarrow> nat \<Rightarrow> int \<Rightarrow> int \<Rightarrow> ('x, unit) svc" where
  "exited P container p pid status =
     thn (on_ext (pk_SetExited P p status))
     (bnd (ask (\<lambda>x. (pk_PID P p x, pk_ExitedAt P p x))) (\<lambda>(i, at1).
       sendL (TaskExit (ct_ID container) i (u32 pid) (u32 status) at1)))"

text \<open>
  \<open>checkProcesses\<close> with the enumeration orders of the two maps: both \<open>return\<close>s are inside the
  loop over the containers, so that only its first turn is ever run.
\<close>

definition checkProcesses :: "'x pkg \<Rightarrow> ((string \<times> darwinContainer) list \<Rightarrow> (string \<times> darwinContainer) list) \<Rightarrow>
    ((string \<times> nat) list \<Rightarrow> (string \<times> nat) list) \<Rightarrow> int \<Rightarrow> int \<Rightarrow> ('x, unit) svc" where
  "checkProcesses P ord pord pid status = bnd (gets (\<lambda>s. ord (sv_containers s))) (\<lambda>cs. case cs of
      [] \<Rightarrow> ret ()
    | (i, container) # rest \<Rightarrow>
        bnd (find_process P pid (container_processes pord container)) (\<lambda>r. case r of
            Some p \<Rightarrow> exited P container p pid status
          | None \<Rightarrow> ret ()))"

end
