(* ===== verification/Shim_Calls.thy ===== *)
theory Shim_Calls
  imports Shim_Service
begin

text \<open>
  The task service over time: requests, exits of processes and the forwarding of events, in any
  order. A call is quiet when all it does to the service itself is to send events; the three that
  are not (\<open>Create\<close>, \<open>Delete\<close>, \<open>Shutdown\<close>) have a lemma that says what else they change. With
  them the invariant of a running service is kept by every step.
\<close>

subsection \<open>Requests as a type\<close>

datatype request =
    RqCreate "goerr + string" create_request | RqStart string string | RqDelete string string
  | RqExec | RqResizePty | RqState string string | RqPause string | RqResume string
  | RqKill string string "32 word" bool | RqPids "32 word \<Rightarrow> (string \<times> nat) list \<Rightarrow> (string \<times> nat) list" string
  | RqCloseIO string string | RqCheckpoint | RqUpdate | RqWait string string | RqConnect string
  | RqShutdown | RqStats

definition answer :: "('x, goerr + 'r) svc \<Rightarrow> ('x, goerr option) svc" where
  "answer m = bnd m (\<lambda>r. ret (case r of Inl e \<Rightarrow> Some e | Inr x \<Rightarrow> None))"

fun serve :: "'x pkg \<Rightarrow> request \<Rightarrow> ('x, goerr option) svc" where
  "serve P (RqCreate ns r) = answer (Create P ns r)"
| "serve P (RqStart cid eid) = answer (Start P cid eid)"
| "serve P (RqDelete cid eid) = answer (Delete P cid eid)"
| "serve P RqExec = answer Exec"
| "serve P RqResizePty = answer ResizePty"
| "serve P (RqState cid eid) = answer (State P cid eid)"
| "serve P (RqPause cid) = answer (Pause P cid)"
| "serve P (RqResume cid) = answer (Resume P cid)"
| "serve P (RqKill cid eid sig all1) = answer (Kill P cid eid sig all1)"
| "serve P (RqPids ord cid) = answer (Pids P ord cid)"
| "serve P (RqCloseIO cid eid) = answer (CloseIO P cid eid)"
| "serve P RqCheckpoint = answer Checkpoint"
| "serve P RqUpdate = answer Update"
| "serve P (RqWait cid eid) = answer (Wait P cid eid)"
| "serve P (RqConnect cid) = answer (Connect P cid)"
| "serve P RqShutdown = answer Shutdown"
| "serve P RqStats = answer Stats"

text \<open>What happens to a service: a request is served, an exit comes from the reaper, an event is
  forwarded. The maps are enumerated in any order.\<close>

inductive svc_step :: "'x pkg \<Rightarrow> 'x service \<Rightarrow> 'x service \<Rightarrow> bool" for P where
  request: "serve P rq s = (Ret r, t) \<Longrightarrow> svc_step P s t"
| exit_event: "(\<And>xs. mset (ord xs) = mset xs) \<Longrightarrow> (\<And>xs. mset (pord xs) = mset xs) \<Longrightarrow>
     checkProcesses P ord pord pid status s = (Ret (), t) \<Longrightarrow> svc_step P s t"
| forwarded: "forward_one s = (Ret b, t) \<Longrightarrow> svc_step P s t"

inductive_cases svc_step_cases: "svc_step P s t"

text \<open>A new service has no container and no event; \<open>New\<close> (theory \<open>Shim_Start\<close>) gives it a platform.\<close>

definition blank_service :: "string \<Rightarrow> 'x \<times> world \<Rightarrow> 'x service" where
  "blank_service sid x = \<lparr>sv_mu = False, sv_sendMu = False, sv_events = [], sv_eventsClosed = False,
     sv_platform = False, sv_id = sid, sv_containers = [], sv_cancelled = False, sv_published = [], sv_ext = x\<rparr>"

definition new_service :: "string \<Rightarrow> 'x \<times> world \<Rightarrow> 'x service" where
  "new_service sid x = snd (initPlatform (blank_service sid x))"

lemma new_service_eq:
  "new_service sid x = \<lparr>sv_mu = False, sv_sendMu = False, sv_events = [], sv_eventsClosed = False,
     sv_platform = True, sv_id = sid, sv_containers = [], sv_cancelled = False, sv_published = [], sv_ext = x\<rparr>"
  by (simp add: new_service_def initPlatform_def blank_service_def thn_def bnd_def)

subsection \<open>Quiet calls: at most events are sent\<close>

definition quiet :: "'x service \<Rightarrow> 'x service \<Rightarrow> bool" where
  "quiet s t \<longleftrightarrow> sv_mu t = sv_mu s \<and> sv_sendMu t = sv_sendMu s \<and> sv_eventsClosed t = sv_eventsClosed s \<and>
     sv_platform t = sv_platform s \<and> sv_id t = sv_id s \<and> sv_containers t = sv_containers s \<and>
     sv_cancelled t = sv_cancelled s \<and> sv_published t = sv_published s \<and>
     prefix (sv_events s) (sv_events t) \<and>
     (sv_events t = sv_events s \<or> length (sv_events t) \<le> eventsCapacity \<and> \<not> sv_eventsClosed s)"

interpretation qk: frame_rel quiet
  by unfold_locales (auto simp: quiet_def)

lemma on_ext_quiet: "returns_keep quiet (on_ext f)"
  by (rule returns_keepI) (auto simp: on_ext_def quiet_def split: prod.splits)

lemma send_quiet: "returns_keep quiet (send evt)"
  by (rule returns_keepI) (auto simp: send_def quiet_def split: if_splits)

lemma sendL_quiet: "returns_keep quiet (sendL evt)"
  by (rule returns_keepI)
    (auto simp: sendL_def send_def lock_send_def unlock_send_def quiet_def bnd_iffs split: if_splits)

lemma getContainer_Ret:
  "getContainer P cid s = (Ret r, t) \<longleftrightarrow> \<not> sv_mu s \<and> t = s \<and>
     r = (case map_of (sv_containers s) cid of
        None \<Rightarrow> Inl (pk_ToGRPC P (EWrap ''container not created'' [] (pk_NotFound P))) | Some c \<Rightarrow> Inr c)"
  by (auto simp: getContainer_def lock_mu_def unlock_mu_def bnd_iffs bnd_def thn_def split: option.splits)

lemma getContainer_quiet: "returns_keep quiet (getContainer P cid)"
  by (rule returns_keepI) (simp add: getContainer_Ret qk.frame_refl)

lemma getProcess_quiet: "returns_keep quiet (getProcess P c eid)"
  unfolding getProcess_def by (intro qk.rk_rules)+

lemma with_process_quiet:
  "(\<And>c p. returns_keep quiet (k c p)) \<Longrightarrow> returns_keep quiet (with_process P cid eid conv k)"
  unfolding with_process_def by (intro qk.rk_rules getContainer_quiet getProcess_quiet | assumption)+

lemmas quiet_rules = qk.rk_rules on_ext_quiet send_quiet sendL_quiet getContainer_quiet
  getProcess_quiet with_process_quiet

lemma quiet_requests:
  "returns_keep quiet (State P cid eid)" "returns_keep quiet (Pause P cid)"
  "returns_keep quiet (Resume P cid)" "returns_keep quiet (Kill P cid eid sig all1)"
  "returns_keep quiet (CloseIO P cid eid)" "returns_keep quiet (Wait P cid eid)"
  "returns_keep quiet (Connect P cid)" "returns_keep quiet Exec" "returns_keep quiet ResizePty"
  "returns_keep quiet Checkpoint" "returns_keep quiet Update" "returns_keep quiet Stats"
  unfolding State_def Pause_def Resume_def Kill_def CloseIO_def Wait_def Connect_def Exec_def
    ResizePty_def Checkpoint_def Update_def Stats_def
  by (intro quiet_rules | simp only: split: prod.splits)+

lemma Pids_quiet: "returns_keep quiet (Pids P ord cid)"
  unfolding Pids_def getContainerPids_def by (intro quiet_rules)+

lemma getProcess_pure:
  "getProcess P c eid = hang \<or> (\<exists>x. getProcess P c eid = ret x)"
  by (auto simp: getProcess_def)

lemma Start_quiet: "returns_keep quiet (Start P cid eid)"
proof (rule returns_keepI)
  fix s r t assume run: "Start P cid eid s = (Ret r, t)"
  have gp: "getProcess P c e u = (Ret x, v) \<Longrightarrow> v = u" for c e u x v
    by (auto simp: getProcess_def split: if_splits)
  from run show "quiet s t"
    by (auto simp: Start_def bnd_iffs getContainer_Ret lock_send_def unlock_send_def on_ext_def quiet_def
        split: if_splits option.splits prod.splits dest!: gp)
qed

lemma find_process_quiet: "returns_keep quiet (find_process P pid ps)"
  by (induction ps) (simp_all only: find_process.simps, (intro quiet_rules | assumption)+)

lemma checkProcesses_quiet: "returns_keep quiet (checkProcesses P ord pord pid status)"
  unfolding checkProcesses_def exited_def
  by (intro quiet_rules find_process_quiet | simp only: split: list.splits prod.splits | safe)+

lemma answer_Ret: "answer m s = (Ret r, t) \<Longrightarrow> \<exists>x. m s = (Ret x, t)"
  by (auto simp: answer_def bnd_iffs split: sum.splits)

lemma answer_quiet: "returns_keep quiet m \<Longrightarrow> returns_keep quiet (answer m)"
  unfolding answer_def by (intro quiet_rules | assumption)+

subsection \<open>Calls that change the containers\<close>

lemma mount_all_quiet: "returns_keep quiet (mount_all P ms rootfs)"
  by (induction ms) (simp_all only: mount_all.simps, (intro quiet_rules | assumption)+)

lemma newContainer_quiet: "returns_keep quiet (newContainer P ns platform r)"
proof -
  have "returns_keep quiet (request_options P o1)" for o1
    unfolding request_options_def by (auto intro!: quiet_rules split: option.splits sum.splits message.splits)
  moreover have "returns_keep quiet (rootfs_dir r)"
    unfolding rootfs_dir_def Let_def by (intro quiet_rules)+
  moreover have "returns_keep quiet (mount_and_create P n platform r opts rootfs)" for n opts rootfs
    unfolding mount_and_create_def newInit_def by (intro quiet_rules mount_all_quiet)+
  ultimately show ?thesis
    unfolding newContainer_def by (intro quiet_rules | assumption)+
qed

text \<open>A container the service made: it has its first process, no other, and a free lock.\<close>

definition fresh_container :: "string \<Rightarrow> darwinContainer \<Rightarrow> bool" where
  "fresh_container cid c \<longleftrightarrow> ct_ID c = cid \<and> ct_process c \<noteq> None \<and> ct_processes c = [] \<and> \<not> ct_mu c"

lemma newContainer_fresh:
  "newContainer P ns platform r s = (Ret (Inr c), t) \<Longrightarrow> fresh_container (rq_ID r) c"
  by (auto simp: newContainer_def mount_and_create_def fresh_container_def bnd_iffs
      split: sum.splits option.splits)

lemma put_container_Ret:
  "put_container cid c s = (Ret x, t) \<longleftrightarrow> t = s\<lparr>sv_containers := AList.update cid c (sv_containers s)\<rparr>"
  by (auto simp: put_container_def)

lemma announce_created_Ret:
  assumes "announce_created P r c u = (Ret x, t)"
  obtains p pid evt where "ct_process c = Some p" and "pid = u32 (pk_Pid P p (sv_ext u))" and "x = Inr pid"
    and "evt = TaskCreate (rq_ID r) (rq_Bundle r) (rq_Rootfs r) \<lparr>io_Stdin = rq_Stdin r,
      io_Stdout = rq_Stdout r, io_Stderr = rq_Stderr r, io_Terminal = rq_Terminal r\<rparr> (rq_Checkpoint r) pid"
    and "send evt (u\<lparr>sv_containers := AList.update (rq_ID r) c (sv_containers u)\<rparr>) = (Ret (), t)"
  using assms by (auto simp: announce_created_def bnd_iffs put_container_Ret deref_def split: option.splits)

text \<open>What a returning \<open>Create\<close> did: made a container and sent its event, or only made attempts.\<close>

lemma Create_effect:
  assumes "Create P ns r s = (Ret x, t)"
  obtains (failed) err where "x = Inl err" and "quiet s t"
  | (created) u c pid where "x = Inr pid" and "quiet s u" and "fresh_container (rq_ID r) c"
      and "\<not> sv_eventsClosed t" and "quiet (u\<lparr>sv_containers := AList.update (rq_ID r) c (sv_containers u)\<rparr>) t"
proof (cases "pk_MarshalOptions P runu_options")
  case (Inl err)
  with assms show thesis by (intro failed [of err]) (simp_all add: Create_def qk.frame_refl)
next
  case (Inr a)
  let ?r = "r\<lparr>rq_Options := Some a\<rparr>"
  from assms Inr obtain res u where nc: "newContainer P ns (sv_platform s) ?r s = (Ret res, u)"
    and rest: "(case res of Inl err \<Rightarrow> ret (Inl err) | Inr c \<Rightarrow> announce_created P ?r c) u = (Ret x, t)"
    unfolding Create_def by (auto simp: bnd_Ret_iff)
  have q: "quiet s u" by (rule returns_keepE [OF newContainer_quiet nc])
  show thesis
  proof (cases res)
    case (Inl err)
    with rest q show thesis by (intro failed [of err]) auto
  next
    case (Inr c)
    have f: "fresh_container (rq_ID r) c" using newContainer_fresh nc Inr by fastforce
    from rest Inr have "announce_created P ?r c u = (Ret x, t)" by simp
    then show thesis
    proof (rule announce_created_Ret)
      fix pid evt
      assume x: "x = Inr pid"
        and send: "send evt (u\<lparr>sv_containers := AList.update (rq_ID ?r) c (sv_containers u)\<rparr>) = (Ret (), t)"
      from send have "\<not> sv_eventsClosed t" by (auto simp: send_def split: if_splits)
      with x q f returns_keepE [OF send_quiet send] show thesis by (intro created [of pid u c]) simp_all
    qed
  qed
qed

lemma getProcess_fresh:
  assumes "fresh_container cid c"
  shows "getProcess P c eid = (if eid = [] then ret (Inr (the (ct_process c)))
    else ret (Inl (EWrap ''process does not exist %s'' [eid] (pk_NotFound P))))"
  using assms by (auto simp: getProcess_def find_in_def fresh_container_def)

lemma forget_container:
  assumes "forget P cid [] c p s = (Ret x, t)"
  shows "quiet (s\<lparr>sv_containers := AList.delete cid (sv_containers s)\<rparr>) t" and "\<not> sv_eventsClosed t"
proof -
  from assms obtain evt where mu: "\<not> sv_mu s"
    and send: "send evt (s\<lparr>sv_containers := AList.delete cid (sv_containers s), sv_mu := False\<rparr>) = (Ret (), t)"
    by (auto simp: forget_def lock_mu_def unlock_mu_def bnd_iffs split: if_splits prod.splits)
  from returns_keepE [OF send_quiet send] send mu
  show "quiet (s\<lparr>sv_containers := AList.delete cid (sv_containers s)\<rparr>) t" "\<not> sv_eventsClosed t"
    by (auto simp: send_def quiet_def split: if_splits)
qed

lemma Delete_effect:
  assumes "Delete P cid eid s = (Ret x, t)"
    and "\<And>c. map_of (sv_containers s) cid = Some c \<Longrightarrow> fresh_container cid c"
  obtains (failed) err where "x = Inl err" and "quiet s t"
  | (deleted) i u where "x = Inr i" and "eid = []" and "quiet s u" and "\<not> sv_eventsClosed t"
      and "quiet (u\<lparr>sv_containers := AList.delete cid (sv_containers u)\<rparr>) t"
proof (cases "map_of (sv_containers s) cid")
  case None
  with assms(1) have "\<exists>err. x = Inl err" "t = s"
    by (auto simp: Delete_def with_process_def bnd_iffs getContainer_Ret)
  then show thesis using failed qk.frame_refl by blast
next
  case (Some c)
  note f = assms(2) [OF Some]
  show thesis
  proof (cases "eid = []")
    case False
    with assms(1) Some have "\<exists>err. x = Inl err" "t = s"
      by (auto simp: Delete_def with_process_def bnd_iffs getContainer_Ret getProcess_fresh [OF f])
    then show thesis using failed qk.frame_refl by blast
  next
    case True
    from assms(1) Some True obtain e u where pd: "on_ext (pk_Delete P (the (ct_process c))) s = (Ret e, u)"
      and rest: "(case e of Some err \<Rightarrow> ret (Inl (pk_ToGRPC P err))
        | None \<Rightarrow> thn (forget P cid [] c (the (ct_process c)))
           (bnd (ask (exit_info P (the (ct_process c)))) (\<lambda>i. ret (Inr i)))) u = (Ret x, t)"
      by (auto simp: Delete_def with_process_def bnd_iffs getContainer_Ret getProcess_fresh [OF f])
    have q: "quiet s u" by (rule returns_keepE [OF on_ext_quiet pd])
    show thesis
    proof (cases e)
      case (Some err)
      with rest q show thesis by (intro failed) auto
    next
      case None
      with rest have fg: "forget P cid [] c (the (ct_process c)) u = (Ret (), t)"
        and "x = Inr (exit_info P (the (ct_process c)) (sv_ext t))"
        by (auto simp: bnd_iffs)
      with forget_container [OF fg] True q show thesis by (intro deleted)
    qed
  qed
qed

lemma Shutdown_Ret:
  "Shutdown s = (Ret x, t) \<longleftrightarrow> x = Inr () \<and> \<not> sv_mu s \<and>
     (if sv_containers s \<noteq> [] then t = s
      else \<not> sv_eventsClosed s \<and> t = s\<lparr>sv_mu := True, sv_cancelled := True, sv_eventsClosed := True\<rparr>)"
  by (auto simp: Shutdown_def platform_Close_def lock_mu_def unlock_mu_def close_events_def bnd_iffs bnd_def thn_def)

subsection \<open>The invariant of a running service\<close>

definition sinv :: "'x service \<Rightarrow> bool" where
  "sinv s \<longleftrightarrow> distinct (map fst (sv_containers s)) \<and>
     (\<forall>(cid, c)\<in>set (sv_containers s). fresh_container cid c) \<and>
     \<not> sv_sendMu s \<and> sv_mu s = sv_eventsClosed s \<and>
     (sv_eventsClosed s \<longrightarrow> sv_cancelled s \<and> sv_containers s = []) \<and>
     length (sv_events s) \<le> eventsCapacity"

lemma sinv_fresh: "sinv s \<Longrightarrow> map_of (sv_containers s) cid = Some c \<Longrightarrow> fresh_container cid c"
  by (auto simp: sinv_def dest!: map_of_SomeD)

lemma sinv_quiet: "quiet s t \<Longrightarrow> sinv s \<Longrightarrow> sinv t"
  by (auto simp: quiet_def sinv_def)

lemma set_update_subset: "set (AList.update k v xs) \<subseteq> insert (k, v) (set xs)"
  by (induction xs) auto

lemma sinv_put:
  assumes "sinv s" and "\<not> sv_eventsClosed s" and "fresh_container cid c"
  shows "sinv (s\<lparr>sv_containers := AList.update cid c (sv_containers s)\<rparr>)"
  using assms set_update_subset [of cid c "sv_containers s"]
  by (auto simp: sinv_def distinct_update)

lemma sinv_delete:
  "sinv s \<Longrightarrow> sinv (s\<lparr>sv_containers := AList.delete cid (sv_containers s)\<rparr>)"
  by (auto simp: sinv_def AList.delete_eq distinct_map_filter)

lemma sinv_Create: "sinv s \<Longrightarrow> Create P ns r s = (Ret x, t) \<Longrightarrow> sinv t"
  by (erule Create_effect) (auto intro: sinv_quiet, rule sinv_quiet, assumption, rule sinv_put,
    auto intro: sinv_quiet simp: quiet_def)

lemma sinv_Delete:
  assumes "sinv s" and "Delete P cid eid s = (Ret x, t)"
  shows "sinv t"
  using assms(2)
proof (rule Delete_effect)
  show "map_of (sv_containers s) cid = Some c \<Longrightarrow> fresh_container cid c" for c by (rule sinv_fresh [OF assms(1)])
next
  fix u assume "quiet s u" and "quiet (u\<lparr>sv_containers := AList.delete cid (sv_containers u)\<rparr>) t"
  then show "sinv t" using sinv_delete sinv_quiet assms(1) by blast
qed (rule sinv_quiet [OF _ assms(1)])

lemma serve_quiet:
  assumes "serve P rq s = (Ret r, t)"
  shows "quiet s t \<or> (\<exists>ns rq' x. rq = RqCreate ns rq' \<and> Create P ns rq' s = (Ret x, t)) \<or>
    (\<exists>cid eid x. rq = RqDelete cid eid \<and> Delete P cid eid s = (Ret x, t)) \<or>
    (\<exists>x. rq = RqShutdown \<and> Shutdown s = (Ret x, t))"
  using assms returns_keepE [OF answer_quiet, OF quiet_requests(1)] returns_keepE [OF answer_quiet, OF Pids_quiet]
    returns_keepE [OF answer_quiet, OF Start_quiet]
  by (cases rq; auto dest!: answer_Ret intro: returns_keepE [OF quiet_requests(2)] returns_keepE [OF quiet_requests(3)]
      returns_keepE [OF quiet_requests(4)] returns_keepE [OF quiet_requests(5)] returns_keepE [OF quiet_requests(6)]
      returns_keepE [OF quiet_requests(7)] returns_keepE [OF quiet_requests(8)] returns_keepE [OF quiet_requests(9)]
      returns_keepE [OF quiet_requests(10)] returns_keepE [OF quiet_requests(11)] returns_keepE [OF quiet_requests(12)]
      returns_keepE [OF quiet_requests(1)] returns_keepE [OF Pids_quiet] returns_keepE [OF Start_quiet])

lemma forward_one_Ret:
  "forward_one s = (Ret b, t) \<longleftrightarrow>
     (case sv_events s of [] \<Rightarrow> sv_eventsClosed s \<and> \<not> b \<and> t = s
      | e # es \<Rightarrow> b \<and> t = s\<lparr>sv_events := es, sv_published := sv_published s @ [(getTopic e, e)]\<rparr>)"
  by (auto simp: forward_one_def split: list.splits)

lemma sinv_step: "sinv s \<Longrightarrow> svc_step P s t \<Longrightarrow> sinv t"
proof (erule svc_step_cases)
  fix rq r assume "sinv s" "serve P rq s = (Ret r, t)"
  from serve_quiet [OF this(2)] show "sinv t"
  proof (elim disjE exE conjE)
    assume "quiet s t" then show ?thesis using \<open>sinv s\<close> by (rule sinv_quiet)
  next
    fix x assume "Shutdown s = (Ret x, t)"
    with \<open>sinv s\<close> show ?thesis by (cases "sv_containers s = []") (simp_all add: Shutdown_Ret sinv_def)
  qed (use \<open>sinv s\<close> in \<open>auto intro: sinv_Create sinv_Delete\<close>)
next
  fix ord pord pid status assume "sinv s" "checkProcesses P ord pord pid status s = (Ret (), t)"
  then show "sinv t" using returns_keepE [OF checkProcesses_quiet] sinv_quiet by blast
next
  fix b assume "sinv s" "forward_one s = (Ret b, t)"
  then show "sinv t" by (auto simp: forward_one_Ret sinv_def split: list.splits)
qed

lemma sinv_new: "sinv (new_service sid x)"
  by (simp add: sinv_def new_service_eq)

interpretation sv: step_invariant "\<lambda>s. s = new_service sid x" "svc_step P" sinv for sid x P
  by unfold_locales (auto intro: sinv_new sinv_step)

lemma sv_reach: "(svc_step P)\<^sup>*\<^sup>* (new_service sid x) t \<Longrightarrow> sinv t"
  by (rule sv.inv_reach [OF refl])

subsection \<open>Only the outside changes\<close>

definition ext_only :: "'x service \<Rightarrow> 'x service \<Rightarrow> bool" where
  "ext_only s t \<longleftrightarrow> t = s\<lparr>sv_ext := sv_ext t\<rparr>"

interpretation ek: frame_rel ext_only
proof
  show "ext_only s u" if "ext_only s t" "ext_only t u" for s t u :: "'x service"
  proof -
    from that have "u = (s\<lparr>sv_ext := sv_ext t\<rparr>)\<lparr>sv_ext := sv_ext u\<rparr>" by (simp add: ext_only_def)
    then show ?thesis by (simp add: ext_only_def)
  qed
qed (simp add: ext_only_def)

lemma on_ext_only: "keeps ext_only (on_ext f)"
  by (auto simp: keeps_def on_ext_def ext_only_def split: prod.splits)

lemma mount_all_only: "keeps ext_only (mount_all P ms rootfs)"
  by (induction ms) (simp_all only: mount_all.simps, (intro ek.kp_rules on_ext_only | assumption)+)

lemma newContainer_only: "keeps ext_only (newContainer P ns platform r)"
proof -
  have "keeps ext_only (request_options P o1)" for o1
    unfolding request_options_def by (auto intro!: ek.kp_rules split: option.splits sum.splits message.splits)
  moreover have "keeps ext_only (rootfs_dir r)"
    unfolding rootfs_dir_def Let_def by (intro ek.kp_rules on_ext_only)+
  moreover have "keeps ext_only (mount_and_create P n platform r opts rootfs)" for n opts rootfs
    unfolding mount_and_create_def newInit_def by (intro ek.kp_rules mount_all_only on_ext_only)+
  ultimately show ?thesis
    unfolding newContainer_def by (intro ek.kp_rules on_ext_only | assumption)+
qed

lemma ext_onlyD:
  assumes "ext_only s t"
  shows "sv_events t = sv_events s" and "sv_containers t = sv_containers s" and "sv_mu t = sv_mu s"
    and "sv_eventsClosed t = sv_eventsClosed s" and "sv_sendMu t = sv_sendMu s"
  using assms unfolding ext_only_def by (metis service.select_convs service.surjective service.update_convs(10))+

end
