(* ===== verification/Shim_Reaper.thy ===== *)
theory Shim_Reaper
  imports Demo OS_Facts
begin

text \<open>
  \<open>cmd/containerd-shim-runu-v1/reaper.go\<close>: the shim's reaper without \<open>notify\<close> (theory
  \<open>Shim_Notify\<close>). A monitor keeps the channels of its subscribers; a child signal makes the
  shim collect the exits of its children and look whether the process of the pid file is gone.
  The lemmas say which exits are announced, that a monitor stays consistent and never closes a
  channel twice, and what waiting for a process returns.
\<close>

subsection \<open>Data\<close>

record rexit =
  x_Pid :: int
  x_Status :: int

text \<open>A channel: what is buffered, and whether it is closed.\<close>

record channel =
  ch_buf :: "rexit list"
  ch_closed :: bool

record subscriber =
  s_c :: nat
  s_closed :: bool

text \<open>The monitor: the heap of channels and of subscriber objects, and the map from registered
  channels to objects. A subscriber object has the number of its channel.\<close>

record monitor =
  m_chans :: "nat \<Rightarrow> channel option"
  m_objs :: "nat \<Rightarrow> subscriber option"
  m_subscribers :: "nat list"
  m_next :: nat

definition bufferSize :: nat where
  "bufferSize = 32"

definition new_monitor :: monitor where
  "new_monitor = \<lparr>m_chans = (\<lambda>_. None), m_objs = (\<lambda>_. None), m_subscribers = [], m_next = 0\<rparr>"

subsection \<open>Subscribing\<close>

definition Subscribe :: "(monitor, nat) go" where
  "Subscribe = (\<lambda>m. let c = m_next m in
     (Ret c, m\<lparr>m_chans := (m_chans m)(c \<mapsto> \<lparr>ch_buf = [], ch_closed = False\<rparr>),
               m_objs := (m_objs m)(c \<mapsto> \<lparr>s_c = c, s_closed = False\<rparr>),
               m_subscribers := m_subscribers m @ [c], m_next := Suc c\<rparr>))"

text \<open>Closing a channel that is closed is a panic of the runtime; \<open>close\<close> avoids it.\<close>

definition chan_close :: "nat \<Rightarrow> (monitor, unit) go" where
  "chan_close c = (\<lambda>m. case m_chans m c of
      None \<Rightarrow> (Panic ''close of nil channel'', m)
    | Some ch \<Rightarrow> if ch_closed ch then (Panic ''close of closed channel'', m)
        else (Ret (), m\<lparr>m_chans := (m_chans m)(c \<mapsto> ch\<lparr>ch_closed := True\<rparr>)\<rparr>))"

definition subscriber_close :: "nat \<Rightarrow> (monitor, unit) go" where
  "subscriber_close c = bnd (gets (\<lambda>m. m_objs m c)) (\<lambda>r. bnd (deref r) (\<lambda>s.
     if s_closed s then ret ()
     else thn (chan_close (s_c s))
       (modify (\<lambda>m. m\<lparr>m_objs := (m_objs m)(c \<mapsto> s\<lparr>s_closed := True\<rparr>)\<rparr>))))"

definition Unsubscribe :: "nat \<Rightarrow> (monitor, unit) go" where
  "Unsubscribe c = bnd (gets (\<lambda>m. c \<in> set (m_subscribers m))) (\<lambda>ok.
     if \<not> ok then ret ()
     else thn (subscriber_close c) (modify (\<lambda>m. m\<lparr>m_subscribers := removeAll c (m_subscribers m)\<rparr>)))"

definition getSubscribers :: "(monitor, nat list) go" where
  "getSubscribers = gets m_subscribers"

subsection \<open>Start and Wait\<close>

definition Monitor_Start :: "(goerr option) \<Rightarrow> (monitor, goerr + nat) go" where
  "Monitor_Start started = bnd Subscribe (\<lambda>ec. case started of
      Some err \<Rightarrow> thn (Unsubscribe ec) (ret (Inl err))
    | None \<Rightarrow> ret (Inr ec))"

text \<open>\<open>Wait\<close> on the events that come out of the channel until it is closed.\<close>

fun Monitor_Wait :: "int \<Rightarrow> nat \<Rightarrow> rexit list \<Rightarrow> (monitor, int \<times> goerr option) go" where
  "Monitor_Wait pid ec [] = ret (-1, Some (EFmt ''no such process'' []))"
| "Monitor_Wait pid ec (e # es) =
     (if x_Pid e = pid then thn (Unsubscribe ec) (ret (x_Status e, None))
      else Monitor_Wait pid ec es)"

subsection \<open>Reaping\<close>

datatype wait_status = WExited int | WSignaled int | WStopped

definition exitSignalOffset :: int where
  "exitSignalOffset = 128"

fun exitStatus :: "wait_status \<Rightarrow> int" where
  "exitStatus (WSignaled sig) = exitSignalOffset + sig"
| "exitStatus (WExited st) = st"
| "exitStatus WStopped = -1"

text \<open>The results of \<open>wait4\<close>, one per call; when they are over the call is waiting.\<close>

datatype wait4_result = WPid int wait_status | WErr oserr bool

fun reap_loop :: "wait4_result list \<Rightarrow> rexit list \<Rightarrow> (rexit list \<times> goerr option) outcome" where
  "reap_loop [] exits = Hang"
| "reap_loop (WErr e echild # rs) exits = Ret (exits, if echild then None else Some (EOs e))"
| "reap_loop (WPid pid ws # rs) exits =
     (if pid \<le> 0 then Ret (exits, None)
      else reap_loop rs (exits @ [\<lparr>x_Pid = pid, x_Status = exitStatus ws\<rparr>]))"

text \<open>\<open>reapOS\<close>, given what reading the pid file answers.\<close>

definition finished_error :: goerr where
  "finished_error = EFmt ''os: process already finished'' []"

definition reapOS :: "int \<times> goerr option \<Rightarrow> rexit list \<Rightarrow> (rexit list \<times> goerr option) io" where
  "reapOS pidfile exits =
     (if fst pidfile \<le> 0 then ret (exits, Some (EFmt ''can't find pid=%d %s'' [itoa (fst pidfile)]))
      else bnd (proc_Signal (fst pidfile) 0) (\<lambda>err.
        ret (if err = Some finished_error
             then exits @ [\<lparr>x_Pid = fst pidfile, x_Status = 0\<rparr>] else exits, None)))"

text \<open>The exits \<open>Reap\<close> announces, and its result.\<close>

definition Reap_exits :: "wait4_result list \<Rightarrow> int \<times> goerr option \<Rightarrow> (rexit list \<times> goerr option) io" where
  "Reap_exits results pidfile = (case reap_loop results [] of
      Ret (exits, Some err) \<Rightarrow> ret ([], Some err)
    | Ret (exits, None) \<Rightarrow> reapOS pidfile exits
    | Panic p \<Rightarrow> go_panic p
    | Hang \<Rightarrow> hang)"

text \<open>
  The handler's loop: it waits for a signal or the end of its context. Only the child signal makes
  it reap, whose error is logged; a signal carries what the machine answers to that \<open>Reap\<close>.
\<close>

datatype sig_event = ContextDone goerr | Signal int "wait4_result list" "int \<times> goerr option"

fun handleSignals :: "goos \<Rightarrow> sig_event list \<Rightarrow> (rexit list \<times> goerr) io" where
  "handleSignals os [] = hang"
| "handleSignals os (ContextDone err # evs) = ret ([], err)"
| "handleSignals os (Signal sig results pidfile # evs) =
     bnd (if sig = sigchld os then bnd (Reap_exits results pidfile) (\<lambda>(exits, err). ret exits) else ret [])
     (\<lambda>exits. bnd (handleSignals os evs) (\<lambda>(more_exits, err). ret (exits @ more_exits, err)))"

lemma handleSignals_ignores:
  assumes "sig \<noteq> sigchld os"
  shows "handleSignals os (Signal sig results pidfile # evs) = handleSignals os evs"
  using assms by (auto simp: bnd_def fun_eq_iff split: prod.splits outcome.splits)

subsection \<open>What Reap announces\<close>

text \<open>The answers that end the loop: no child is left, none has ended, or the call failed.\<close>

fun wait4_ends :: "wait4_result \<Rightarrow> (goerr option) option" where
  "wait4_ends (WErr e echild) = Some (if echild then None else Some (EOs e))"
| "wait4_ends (WPid pid ws) = (if pid \<le> 0 then Some None else None)"

abbreviation kid_exit :: "int \<times> wait_status \<Rightarrow> rexit" where
  "kid_exit k \<equiv> \<lparr>x_Pid = fst k, x_Status = exitStatus (snd k)\<rparr>"

lemma reap_loop_kids:
  assumes "list_all (\<lambda>k. 0 < fst k) kids" and "wait4_ends r = Some e"
  shows "reap_loop (map (\<lambda>k. WPid (fst k) (snd k)) kids @ r # rest) exits = Ret (exits @ map kid_exit kids, e)"
  using assms by (induction kids arbitrary: exits) (cases r; auto split: if_splits)+



text \<open>The process of the pid file: signal 0 says whether it is there.\<close>

lemma proc_Signal_gone:
  assumes "0 < pid" and "w_fault w (OpKill pid) = None" and "w_procs w pid = None"
  shows "proc_Signal pid 0 w = (Ret (Some finished_error), w)"
  using assms by (simp add: proc_Signal_def unix_Kill_def finished_error_def bnd_def)

lemma proc_Signal_there:
  assumes "0 < pid" and "w_fault w (OpKill pid) = None" and "w_procs w pid = Some pr"
  shows "fst (proc_Signal pid 0 w) = Ret None"
  using assms by (simp add: proc_Signal_def unix_Kill_def bnd_def)

text \<open>The exit of the container's process is announced twice when the shim is its parent:
  once as \<open>wait4\<close> reports it and once more, with status 0 whatever its status was, because the
  process of the pid file is gone; the second announcement is repeated on every child signal.\<close>

theorem Reap_announces_gone_init:
  assumes "list_all (\<lambda>k. 0 < fst k) kids" and "wait4_ends r = Some None"
    and "0 < pid" and "w_fault w (OpKill pid) = None" and "w_procs w pid = None"
  shows "Reap_exits (map (\<lambda>k. WPid (fst k) (snd k)) kids @ r # rest) (pid, None) w =
    (Ret (map kid_exit kids @ [\<lparr>x_Pid = pid, x_Status = 0\<rparr>], None), w)"
  using reap_loop_kids [OF assms(1,2)] proc_Signal_gone [OF assms(3-5)] assms(3)
  by (simp add: Reap_exits_def reapOS_def bnd_def)

lemma Reap_announces_gone_init_witness:
  "Reap_exits [WPid 50 (WSignaled 9), WErr ESRCH True] (50, None) demo_world =
     (Ret ([\<lparr>x_Pid = 50, x_Status = 137\<rparr>, \<lparr>x_Pid = 50, x_Status = 0\<rparr>], None), demo_world)"
  using Reap_announces_gone_init [of "[(50, WSignaled 9)]" "WErr ESRCH True" 50 demo_world "[]"]
  by (simp add: exitSignalOffset_def demo_world_def)

text \<open>When \<open>wait4\<close> fails after it has collected children, \<open>Reap\<close> returns the error and
  announces none of them, and they are collected: their exits are lost.\<close>

theorem Reap_error_loses_exits:
  assumes "list_all (\<lambda>k. 0 < fst k) kids" and "wait4_ends r = Some (Some e)"
  shows "Reap_exits (map (\<lambda>k. WPid (fst k) (snd k)) kids @ r # rest) pidfile w = (Ret ([], Some e), w)"
  using reap_loop_kids [OF assms] by (simp add: Reap_exits_def)

lemma Reap_error_loses_exits_witness:
  "Reap_exits [WPid 50 (WExited 1), WErr EINVAL False] (42, None) demo_world = (Ret ([], Some (EOs EINVAL)), demo_world)"
  using Reap_error_loses_exits [of "[(50, WExited 1)]" "WErr EINVAL False" "EOs EINVAL" "[]"] by simp

subsection \<open>Waiting\<close>

text \<open>\<open>Wait\<close> returns the status of the first exit of its process that comes through the
  channel and unsubscribes, and -1 with an error when the channel is closed without one.\<close>

theorem Monitor_Wait_first:
  "Monitor_Wait pid ec es m =
     (case List.find (\<lambda>e. x_Pid e = pid) es of
        Some e \<Rightarrow> thn (Unsubscribe ec) (ret (x_Status e, None)) m
      | None \<Rightarrow> (Ret (-1, Some (EFmt ''no such process'' [])), m))"
  by (induction es) auto

subsection \<open>The monitor's invariant\<close>

text \<open>
  Every subscriber object has its channel, which is closed exactly when the object says so;
  a registered subscriber is open; numbers from \<open>m_next\<close> on are free.
\<close>

definition obj_ok :: "monitor \<Rightarrow> nat \<Rightarrow> subscriber \<Rightarrow> bool" where
  "obj_ok m c s \<longleftrightarrow> s_c s = c \<and> c < m_next m \<and>
     (\<exists>ch. m_chans m c = Some ch \<and> ch_closed ch = s_closed s \<and> length (ch_buf ch) \<le> bufferSize)"

definition minv :: "monitor \<Rightarrow> bool" where
  "minv m \<longleftrightarrow> distinct (m_subscribers m) \<and>
     (\<forall>c\<in>set (m_subscribers m). \<exists>s. m_objs m c = Some s \<and> \<not> s_closed s) \<and>
     (\<forall>c s. m_objs m c = Some s \<longrightarrow> obj_ok m c s)"

lemma minvD:
  assumes "minv m" and "m_objs m c = Some s"
  shows "s_c s = c" and "c < m_next m"
    and "\<exists>ch. m_chans m c = Some ch \<and> ch_closed ch = s_closed s \<and> length (ch_buf ch) \<le> bufferSize"
  using assms by (auto simp: minv_def obj_ok_def)

lemma minv_new: "minv new_monitor"
  by (simp add: minv_def new_monitor_def)

text \<open>What happens to a subscriber: once closed it stays closed, and it is never forgotten.\<close>

definition closed_obj :: "monitor \<Rightarrow> nat \<Rightarrow> bool" where
  "closed_obj m c \<longleftrightarrow> (\<exists>s. m_objs m c = Some s \<and> s_closed s)"

definition mono_objs :: "monitor \<Rightarrow> monitor \<Rightarrow> bool" where
  "mono_objs m m' \<longleftrightarrow> (\<forall>c. (m_objs m c \<noteq> None \<longrightarrow> m_objs m' c \<noteq> None) \<and> (closed_obj m c \<longrightarrow> closed_obj m' c))"

lemma mono_objs_refl [simp]: "mono_objs m m"
  by (simp add: mono_objs_def)

lemma minv_fresh: "minv m \<Longrightarrow> m_objs m (m_next m) = None \<and> m_next m \<notin> set (m_subscribers m)"
  using minvD(2) [of m "m_next m"] by (cases "m_objs m (m_next m)") (auto simp: minv_def)

lemma Subscribe_ok:
  assumes "minv m" and "Subscribe m = (r, m')"
  shows "minv m'" and "mono_objs m m'" and "r = Ret (m_next m)" and "m_next m \<in> set (m_subscribers m')"
proof -
  note new = minv_fresh [OF assms(1)]
  have m': "m' = m\<lparr>m_chans := (m_chans m)(m_next m \<mapsto> \<lparr>ch_buf = [], ch_closed = False\<rparr>),
      m_objs := (m_objs m)(m_next m \<mapsto> \<lparr>s_c = m_next m, s_closed = False\<rparr>),
      m_subscribers := m_subscribers m @ [m_next m], m_next := Suc (m_next m)\<rparr>" "r = Ret (m_next m)"
    using assms(2) by (auto simp: Subscribe_def Let_def)
  have "obj_ok m' c s" if "m_objs m' c = Some s" for c s
    using that minvD [OF assms(1), of c s] by (auto simp: m' obj_ok_def bufferSize_def split: if_splits)
  moreover have "\<exists>s. m_objs m' c = Some s \<and> \<not> s_closed s" if "c \<in> set (m_subscribers m')" for c
    using that assms(1) new by (auto simp: m' minv_def)
  ultimately show "minv m'" using assms(1) new by (simp add: minv_def m')
  show "mono_objs m m'" using new by (auto simp: mono_objs_def closed_obj_def m')
qed (use assms(2) in \<open>auto simp: Subscribe_def Let_def\<close>)

lemma Unsubscribe_eval:
  assumes "minv m" and "c \<in> set (m_subscribers m)" and "m_objs m c = Some s"
  shows "Unsubscribe c m = (Ret (), m\<lparr>m_chans := (m_chans m)(c \<mapsto> (the (m_chans m c))\<lparr>ch_closed := True\<rparr>),
    m_objs := (m_objs m)(c \<mapsto> s\<lparr>s_closed := True\<rparr>), m_subscribers := removeAll c (m_subscribers m)\<rparr>)"
proof -
  have "\<not> s_closed s" using assms by (auto simp: minv_def)
  with minvD [OF assms(1,3)] obtain ch where "m_chans m c = Some ch" "\<not> ch_closed ch" "s_c s = c" by auto
  with assms(2,3) \<open>\<not> s_closed s\<close> show ?thesis
    by (simp add: Unsubscribe_def subscriber_close_def chan_close_def bnd_def thn_def)
qed

lemma Unsubscribe_ok:
  assumes "minv m" and "Unsubscribe c m = (r, m')"
  shows "minv m'" and "mono_objs m m'" and "r = Ret ()" and "c \<notin> set (m_subscribers m')"
proof -
  have "minv m' \<and> mono_objs m m' \<and> r = Ret () \<and> c \<notin> set (m_subscribers m')"
  proof (cases "c \<in> set (m_subscribers m)")
    case True
    then obtain s where s: "m_objs m c = Some s" using assms(1) by (auto simp: minv_def)
    from Unsubscribe_eval [OF assms(1) True this] assms minvD [OF assms(1) s] show ?thesis
      by (auto simp: minv_def obj_ok_def mono_objs_def closed_obj_def distinct_removeAll)
  next
    case False
    then show ?thesis using assms by (auto simp: Unsubscribe_def bnd_def)
  qed
  then show "minv m'" "mono_objs m m'" "r = Ret ()" "c \<notin> set (m_subscribers m')" by auto
qed

end
