(* ===== verification/Shim_Start.thy ===== *)
theory Shim_Start
  imports Shim_Calls Shim_Reaper
begin

text \<open>
  Starting and cleaning up after a shim (\<open>cmd/containerd-shim-runu-v1/service.go\<close>): \<open>New\<close>, \<open>newCommand\<close>,
  \<open>StartShim\<close> and \<open>Cleanup\<close>. The sockets and files of containerd's package \<open>shim\<close> are the
  operations of a record, on the machine. The lemmas say what the new shim process is given, that
  it is killed when something fails after its start, and that a socket that is in use is taken as
  a shim that is already running.
\<close>

record shimpkg =
  sh_SocketAddress :: "string \<Rightarrow> string \<Rightarrow> goerr + string"
  sh_NewSocket :: "string \<Rightarrow> ((string \<times> goerr) + nat) io"
  sh_File :: "nat \<Rightarrow> (goerr + nat) io"
  sh_WriteAddress :: "string \<Rightarrow> string \<Rightarrow> (goerr option) io"
  sh_WritePidFile :: "string \<Rightarrow> int \<Rightarrow> (goerr option) io"
  sh_ReadStdin :: "(goerr + string) io"
  sh_ProtoUnmarshal :: "string \<Rightarrow> goerr + any"
  sh_UnmarshalAny :: "any \<Rightarrow> goerr + message"

text \<open>\<open>unlink(2)\<close>: a file is removed, a directory is not.\<close>

definition unix_Unlink :: "string \<Rightarrow> (oserr option) io" where
  "unix_Unlink p = (\<lambda>w. case fault_at OpRemove w p of
      Some e \<Rightarrow> (Ret (Some e), w)
    | None \<Rightarrow> (case walk w (at w p) of
          Inl e \<Rightarrow> (Ret (Some e), w)
        | Inr Dir \<Rightarrow> (Ret (Some EPERM), w)
        | Inr n \<Rightarrow> (Ret None, w\<lparr>w_fs := (w_fs w)(at w p := None)\<rparr>)))"

definition os_Getwd :: "string io" where
  "os_Getwd = gets (\<lambda>w. path_string (w_cwd w))"

text \<open>\<open>ns\<close> is what the context says of its namespace, \<open>environ\<close> the environment as a list.\<close>

definition newCommand :: "goerr + string \<Rightarrow> string \<Rightarrow> string \<Rightarrow> string list \<Rightarrow> (goerr + cmd) io" where
  "newCommand ns sid containerdAddress environ = (case ns of
      Inl err \<Rightarrow> ret (Inl err)
    | Inr n \<Rightarrow> bnd os_Executable (\<lambda>r. case r of
          Inl e \<Rightarrow> ret (Inl (EOs e))
        | Inr self \<Rightarrow> bnd os_Getwd (\<lambda>cwd.
            bnd (exec_Command self [''-namespace'', n, ''-id'', sid, ''-address'', containerdAddress]) (\<lambda>cmd.
              ret (Inr (cmd\<lparr>c_Dir := cwd, c_Env := environ @ [''GOMAXPROCS=4'']\<rparr>))))))"

text \<open>What is read from the standard input is only decoded; that it cannot be read is no error.\<close>

definition check_stdin :: "shimpkg \<Rightarrow> (goerr option) io" where
  "check_stdin S = bnd (sh_ReadStdin S) (\<lambda>r. case r of
      Inl err \<Rightarrow> ret None
    | Inr data \<Rightarrow>
        if data = [] then ret None
        else (case sh_ProtoUnmarshal S data of
            Inl err \<Rightarrow> ret (Some err)
          | Inr a \<Rightarrow> (case sh_UnmarshalAny S a of Inl err \<Rightarrow> ret (Some err) | Inr m \<Rightarrow> ret None)))"

definition after_start :: "shimpkg \<Rightarrow> string \<Rightarrow> int \<Rightarrow> (goerr + string) io" where
  "after_start S address pid = bnd (sh_WritePidFile S ''shim.pid'' pid) (\<lambda>r. case r of
      Some err \<Rightarrow> ret (Inl err)
    | None \<Rightarrow> bnd (sh_WriteAddress S ''address'' address) (\<lambda>r. case r of
          Some err \<Rightarrow> ret (Inl err)
        | None \<Rightarrow> bnd (check_stdin S) (\<lambda>r. case r of
              Some err \<Rightarrow> ret (Inl err)
            | None \<Rightarrow> ret (Inr address))))"

text \<open>Starting the process on its socket, and the deferred kill when an error follows.\<close>

definition start_child :: "shimpkg \<Rightarrow> string \<Rightarrow> cmd \<Rightarrow> nat \<Rightarrow> (goerr + string) io" where
  "start_child S address cmd f =
     bnd (cmd_Start (cmd\<lparr>c_ExtraFiles := c_ExtraFiles cmd @ [Some f]\<rparr>)) (\<lambda>r. case r of
        Inl err \<Rightarrow> ret (Inl err)
      | Inr pid \<Rightarrow> bnd (after_start S address pid) (\<lambda>r. case r of
            Inl err \<Rightarrow> thn (proc_Signal pid SIGKILL) (ret (Inl err))
          | Inr a \<Rightarrow> ret (Inr a)))"

definition StartShim :: "shimpkg \<Rightarrow> goerr + string \<Rightarrow> string \<Rightarrow> string \<Rightarrow> string list \<Rightarrow> (goerr + string) io" where
  "StartShim S ns sid opts_address environ =
     bnd (newCommand ns sid opts_address environ) (\<lambda>r. case r of
        Inl err \<Rightarrow> ret (Inl err)
      | Inr cmd \<Rightarrow> (case sh_SocketAddress S opts_address sid of
          Inl err \<Rightarrow> ret (Inl err)
        | Inr address \<Rightarrow>
            thn (os_Mkdir (filepath_Dir address) 457)
            (thn (unix_Unlink address)
            (bnd (sh_NewSocket S address) (\<lambda>r. case r of
                Inl (txt, err) \<Rightarrow>
                  if strings_Contains txt ''address already in use'' then
                    bnd (sh_WriteAddress S ''address'' address) (\<lambda>r. case r of
                        Some err \<Rightarrow> ret (Inl err) | None \<Rightarrow> ret (Inr address))
                  else ret (Inl err)
              | Inr socket \<Rightarrow> bnd (sh_File S socket) (\<lambda>r. case r of
                    Inl err \<Rightarrow> ret (Inl err)
                  | Inr f \<Rightarrow> start_child S address cmd f))))))"

text \<open>\<open>Cleanup\<close>, at a time that the clock says; the exit status is that of a killed process.\<close>

definition Cleanup :: "'x pkg \<Rightarrow> int \<Rightarrow> ('x, goerr + int \<times> 32 word) svc" where
  "Cleanup P now = bnd (on_ext (on_world os_Getwd)) (\<lambda>cwd. bnd (gets sv_id) (\<lambda>sid.
     thn (on_ext (pk_UnmountAll P (filepath_Join [filepath_Join [filepath_Dir cwd, sid], ''rootfs''])))
     (ret (Inr (now, 128 + u32 SIGKILL)))))"

text \<open>\<open>New\<close>: the service subscribes to the reaper's monitor and gets its platform, without which it
  shuts down. The goroutines it starts are the exits and the forwarding of the service's steps.\<close>

definition New :: "string \<Rightarrow> 'x \<times> world \<Rightarrow> monitor \<Rightarrow> (goerr + 'x service \<times> nat) outcome \<times> monitor" where
  "New sid x = bnd Subscribe (\<lambda>ec m. case initPlatform (blank_service sid x) of
      (Ret None, s) \<Rightarrow> (Ret (Inr (s, ec)), m)
    | (Ret (Some err), s) \<Rightarrow> (Ret (Inl (EWrap ''failed to initialized platform behavior'' [] err)), m)
    | (Panic p, s) \<Rightarrow> (Panic p, m)
    | (Hang, s) \<Rightarrow> (Hang, m))"

text \<open>\<open>main\<close> hands \<open>New\<close> to containerd's \<open>shim.Run\<close>, with a configuration that leaves the reaping of
  children to the shim itself.\<close>

record shim_config =
  cfg_NoSetupLogger :: bool
  cfg_NoSubreaper :: bool
  cfg_NoReaper :: bool

definition RuntimeV1 :: string where
  "RuntimeV1 = ''io.containerd.runu.v1''"

definition shim_opts :: "shim_config \<Rightarrow> shim_config" where
  "shim_opts cfg = cfg\<lparr>cfg_NoSetupLogger := False, cfg_NoSubreaper := True, cfg_NoReaper := True\<rparr>"

definition shim_main ::
  "(string \<Rightarrow> (string \<Rightarrow> 'x \<times> world \<Rightarrow> monitor \<Rightarrow> (goerr + 'x service \<times> nat) outcome \<times> monitor) \<Rightarrow>
     (shim_config \<Rightarrow> shim_config) \<Rightarrow> 'r) \<Rightarrow> 'r" where
  "shim_main shim_Run = shim_Run RuntimeV1 New shim_opts"

lemma New_result:
  assumes "minv m"
  obtains m' where "New sid x m = (Ret (Inr (new_service sid x, m_next m)), m')"
    and "minv m'" and "m_next m \<in> set (m_subscribers m')"
proof -
  obtain r m' where sub: "Subscribe m = (r, m')" by (cases "Subscribe m")
  note ok = Subscribe_ok [OF assms sub]
  have "New sid x m = (Ret (Inr (new_service sid x, m_next m)), m')"
    using sub ok(3) by (simp add: New_def bnd_def new_service_def initPlatform_def thn_def)
  with ok(1,4) show thesis by (intro that)
qed

subsection \<open>The child process\<close>

text \<open>A process that is killed has ended; the other processes are what they were.\<close>

lemma kill_ends:
  assumes "0 < pid" and "w_fault w (OpKill pid) = None" and "w_procs w pid = Some pr"
  obtains w' where "proc_Signal pid SIGKILL w = (Ret None, w')"
    and "w_procs w' = (w_procs w)(pid \<mapsto> pr\<lparr>p_State := PExited\<rparr>)"
  using assms by (auto simp: proc_Signal_def unix_Kill_def bnd_def SIGKILL_def signal_effect_def)

text \<open>When writing its pid or the address, or reading the standard input, fails, the shim process
  that was just started is killed and the error is returned; without such an error the address is.\<close>

theorem start_child_kills_on_error:
  assumes "cmd_Start (cmd\<lparr>c_ExtraFiles := c_ExtraFiles cmd @ [Some f]\<rparr>) w = (Ret (Inr pid), u)"
    and "after_start S address pid u = (Ret (Inl err), v)"
    and "0 < pid" and "w_fault v (OpKill pid) = None" and "w_procs v pid = Some pr"
  shows "\<exists>w'. start_child S address cmd f w = (Ret (Inl err), w') \<and>
    w_procs w' = (w_procs v)(pid \<mapsto> pr\<lparr>p_State := PExited\<rparr>)"
proof -
  obtain w' where "proc_Signal pid SIGKILL v = (Ret None, w')"
    "w_procs w' = (w_procs v)(pid \<mapsto> pr\<lparr>p_State := PExited\<rparr>)" by (rule kill_ends [OF assms(3-5)])
  then show ?thesis using assms(1,2) by (simp add: start_child_def bnd_def thn_def)
qed

definition demo_shimpkg :: shimpkg where
  "demo_shimpkg = \<lparr>sh_SocketAddress = (\<lambda>a g. Inr (''/run/'' @ g)), sh_NewSocket = (\<lambda>a. ret (Inr 3)),
     sh_File = (\<lambda>s. ret (Inr s)), sh_WriteAddress = (\<lambda>p a. ret (Some (EOs EACCES))),
     sh_WritePidFile = (\<lambda>p pid. ret None), sh_ReadStdin = ret (Inr []),
     sh_ProtoUnmarshal = (\<lambda>d. Inl (EOs EINVAL)), sh_UnmarshalAny = (\<lambda>a. Inr MOther)\<rparr>"

definition demo_shim_cmd :: cmd where
  "demo_shim_cmd = \<lparr>c_Path = ''/b/rootfs/bin/sh'', c_LookErr = None, c_Args = [''sh''], c_Env = [], c_Dir = [],
     c_Chroot = None, c_ExtraFiles = []\<rparr>"

lemma start_child_kills_on_error_witness:
  "\<exists>w' pr. start_child demo_shimpkg ''/run/s'' demo_shim_cmd 0 demo_world = (Ret (Inl (EOs EACCES)), w') \<and>
    w_procs w' 43 = Some pr \<and> p_State pr = PExited"
proof -
  let ?c = "cmd_Start (demo_shim_cmd\<lparr>c_ExtraFiles := c_ExtraFiles demo_shim_cmd @ [Some 0]\<rparr>) demo_world"
  have st: "fst ?c = Ret (Inr 43)" by code_simp
  have child: "case w_procs (snd ?c) 43 of None \<Rightarrow> False | Some pr \<Rightarrow> True" by code_simp
  have fault: "case w_fault (snd ?c) (OpKill 43) of None \<Rightarrow> True | Some e \<Rightarrow> False" by code_simp
  obtain u where u: "?c = (Ret (Inr 43), u)" using st by (metis prod.collapse)
  obtain pr where pr: "w_procs u 43 = Some pr" using child u by (auto split: option.splits)
  have f: "w_fault u (OpKill 43) = None" using fault u by (auto split: option.splits)
  have "after_start demo_shimpkg ''/run/s'' 43 u = (Ret (Inl (EOs EACCES)), u)"
    by (simp add: after_start_def demo_shimpkg_def bnd_def)
  from start_child_kills_on_error [OF u this _ f pr] show ?thesis by auto
qed

end
