(* ===== verification/Shim_Threads.thy ===== *)
theory Shim_Threads
  imports Shim_Service
begin

text \<open>
  The shim's requests as threads. containerd may send a request while others are served, and the
  goroutine of \<open>processExits\<close> runs beside them, so a request is here a sequence of single actions
  on what they share: taking and releasing a mutex, reading or writing the map of containers,
  sending on the channel of events, a call of the process package. A container is an object that
  the map and the threads point to. Go's maps are not safe for concurrent use: a write is two
  actions, and an access that meets a write in progress is the runtime's fatal error.
\<close>

subsection \<open>What the threads share\<close>

record 'x shared =
  sh_mu :: bool
  sh_sendMu :: bool
  sh_writing :: bool
  sh_events :: "event list"
  sh_eventsClosed :: bool
  sh_platform :: bool
  sh_id :: string
  sh_containers :: "(string \<times> nat) list"
  sh_objs :: "darwinContainer list"
  sh_cancelled :: bool
  sh_published :: "(topic \<times> event) list"
  sh_ext :: "'x \<times> world"

datatype lock = Mu | SendMu | CtMu nat

datatype map_update = Put string nat | Drop string

datatype ('x, 'a) thread =
    Fin 'a
  | Die string
  | Lock lock "('x, 'a) thread"
  | Unlock lock "('x, 'a) thread"
  | Outside "'x \<times> world \<Rightarrow> ('x, 'a) thread outcome \<times> 'x \<times> world"
  | Ask "'x \<times> world \<Rightarrow> ('x, 'a) thread"
  | Platform "bool \<Rightarrow> ('x, 'a) thread"
  | Map_Read "(string \<times> nat) list \<Rightarrow> ('x, 'a) thread"
  | Begin_Write "('x, 'a) thread"
  | End_Write map_update "('x, 'a) thread"
  | New_Object darwinContainer "nat \<Rightarrow> ('x, 'a) thread"
  | Load nat "darwinContainer \<Rightarrow> ('x, 'a) thread"
  | Drop_Process nat string "('x, 'a) thread"
  | Send event "('x, 'a) thread"
  | Cancel "('x, 'a) thread"
  | Close "('x, 'a) thread"

subsection \<open>One action\<close>

fun lock_held :: "'x shared \<Rightarrow> lock \<Rightarrow> bool" where
  "lock_held s Mu = sh_mu s"
| "lock_held s SendMu = sh_sendMu s"
| "lock_held s (CtMu a) = (a < length (sh_objs s) \<and> ct_mu (sh_objs s ! a))"

fun set_lock :: "lock \<Rightarrow> bool \<Rightarrow> 'x shared \<Rightarrow> 'x shared" where
  "set_lock Mu b s = s\<lparr>sh_mu := b\<rparr>"
| "set_lock SendMu b s = s\<lparr>sh_sendMu := b\<rparr>"
| "set_lock (CtMu a) b s = s\<lparr>sh_objs := (sh_objs s)[a := (sh_objs s ! a)\<lparr>ct_mu := b\<rparr>]\<rparr>"

fun apply_update :: "map_update \<Rightarrow> (string \<times> nat) list \<Rightarrow> (string \<times> nat) list" where
  "apply_update (Put cid a) m = AList.update cid a m"
| "apply_update (Drop cid) m = AList.delete cid m"

text \<open>
  An action ends with what is left of the thread. \<open>Hang\<close> is an action that cannot be taken in
  this state: it is tried again in a later one. A thread that has finished has no action.
\<close>

fun tstep :: "('x, 'a) thread \<Rightarrow> ('x shared, ('x, 'a) thread) go" where
  "tstep (Fin a) s = (Hang, s)"
| "tstep (Die msg) s = (Panic msg, s)"
| "tstep (Lock l t) s = (if lock_held s l then (Hang, s) else (Ret t, set_lock l True s))"
| "tstep (Unlock l t) s = (if lock_held s l then (Ret t, set_lock l False s)
     else (Panic ''unlock of unlocked mutex'', s))"
| "tstep (Outside f) s = (case f (sh_ext s) of (r, e) \<Rightarrow> (r, s\<lparr>sh_ext := e\<rparr>))"
| "tstep (Ask k) s = (Ret (k (sh_ext s)), s)"
| "tstep (Platform k) s = (Ret (k (sh_platform s)), s)"
| "tstep (Map_Read k) s = (if sh_writing s then (Panic ''concurrent map access'', s) else (Ret (k (sh_containers s)), s))"
| "tstep (Begin_Write t) s = (if sh_writing s then (Panic ''concurrent map access'', s)
     else (Ret t, s\<lparr>sh_writing := True\<rparr>))"
| "tstep (End_Write u t) s = (Ret t, s\<lparr>sh_writing := False, sh_containers := apply_update u (sh_containers s)\<rparr>)"
| "tstep (New_Object c k) s = (Ret (k (length (sh_objs s))), s\<lparr>sh_objs := sh_objs s @ [c]\<rparr>)"
| "tstep (Load a k) s = (if a < length (sh_objs s) then (Ret (k (sh_objs s ! a)), s) else (Panic ''invalid address'', s))"
| "tstep (Drop_Process a eid t) s = (Ret t, s\<lparr>sh_objs := (sh_objs s)[a := (sh_objs s ! a)
     \<lparr>ct_processes := AList.delete eid (ct_processes (sh_objs s ! a))\<rparr>]\<rparr>)"
| "tstep (Send evt t) s = (if sh_eventsClosed s then (Panic ''send on closed channel'', s)
     else if eventsCapacity \<le> length (sh_events s) then (Hang, s)
     else (Ret t, s\<lparr>sh_events := sh_events s @ [evt]\<rparr>))"
| "tstep (Cancel t) s = (Ret t, s\<lparr>sh_cancelled := True\<rparr>)"
| "tstep (Close t) s = (if sh_eventsClosed s then (Panic ''close of closed channel'', s)
     else (Ret t, s\<lparr>sh_eventsClosed := True\<rparr>))"

definition finished :: "('x, 'a) thread \<Rightarrow> bool" where
  "finished t = (case t of Fin a \<Rightarrow> True | _ \<Rightarrow> False)"

subsection \<open>Threads in sequence\<close>

primrec tbnd :: "('x, 'a) thread \<Rightarrow> ('a \<Rightarrow> ('x, 'b) thread) \<Rightarrow> ('x, 'b) thread" where
  "tbnd (Fin a) k = k a"
| "tbnd (Die msg) k = Die msg"
| "tbnd (Lock l t) k = Lock l (tbnd t k)"
| "tbnd (Unlock l t) k = Unlock l (tbnd t k)"
| "tbnd (Outside f) k = Outside (\<lambda>x. map_prod (map_outcome (\<lambda>t. tbnd t k)) id (f x))"
| "tbnd (Ask f) k = Ask (\<lambda>x. tbnd (f x) k)"
| "tbnd (Platform f) k = Platform (\<lambda>b. tbnd (f b) k)"
| "tbnd (Map_Read f) k = Map_Read (\<lambda>m. tbnd (f m) k)"
| "tbnd (Begin_Write t) k = Begin_Write (tbnd t k)"
| "tbnd (End_Write u t) k = End_Write u (tbnd t k)"
| "tbnd (New_Object c f) k = New_Object c (\<lambda>a. tbnd (f a) k)"
| "tbnd (Load a f) k = Load a (\<lambda>c. tbnd (f c) k)"
| "tbnd (Drop_Process a eid t) k = Drop_Process a eid (tbnd t k)"
| "tbnd (Send evt t) k = Send evt (tbnd t k)"
| "tbnd (Cancel t) k = Cancel (tbnd t k)"
| "tbnd (Close t) k = Close (tbnd t k)"

text \<open>A call outside whose result is the thread's.\<close>

definition t_ext :: "('x, 'a) ext \<Rightarrow> ('x, 'a) thread" where
  "t_ext f = Outside (\<lambda>x. map_prod (map_outcome Fin) id (f x))"

definition t_ask :: "('x \<times> world \<Rightarrow> 'a) \<Rightarrow> ('x, 'a) thread" where
  "t_ask f = Ask (\<lambda>x. Fin (f x))"

definition t_deref :: "'b option \<Rightarrow> ('x, 'b) thread" where
  "t_deref p = (case p of Some x \<Rightarrow> Fin x | None \<Rightarrow> Die ''nil pointer dereference'')"

definition t_send :: "event \<Rightarrow> ('x, unit) thread" where
  "t_send evt = Send evt (Fin ())"

definition t_sendL :: "event \<Rightarrow> ('x, unit) thread" where
  "t_sendL evt = Lock SendMu (Send evt (Unlock SendMu (Fin ())))"

subsection \<open>Finding containers and processes\<close>

definition t_getContainer :: "'x pkg \<Rightarrow> string \<Rightarrow> ('x, goerr + nat) thread" where
  "t_getContainer P cid = Lock Mu (Map_Read (\<lambda>m. Unlock Mu (Fin (case map_of m cid of
      None \<Rightarrow> Inl (pk_ToGRPC P (EWrap ''container not created'' [] (pk_NotFound P)))
    | Some a \<Rightarrow> Inr a))))"

definition t_getProcess :: "'x pkg \<Rightarrow> nat \<Rightarrow> string \<Rightarrow> ('x, goerr + nat) thread" where
  "t_getProcess P a pid = Lock (CtMu a) (Load a (\<lambda>c. Unlock (CtMu a) (Fin (find_in P c pid))))"

definition t_with_container :: "'x pkg \<Rightarrow> string \<Rightarrow> (nat \<Rightarrow> ('x, goerr + 'r) thread) \<Rightarrow> ('x, goerr + 'r) thread" where
  "t_with_container P cid k = tbnd (t_getContainer P cid) (\<lambda>r. case r of
      Inl err \<Rightarrow> Fin (Inl err) | Inr a \<Rightarrow> k a)"

definition t_with_process :: "'x pkg \<Rightarrow> string \<Rightarrow> string \<Rightarrow> (goerr \<Rightarrow> goerr) \<Rightarrow>
    (nat \<Rightarrow> nat \<Rightarrow> ('x, goerr + 'r) thread) \<Rightarrow> ('x, goerr + 'r) thread" where
  "t_with_process P cid eid conv k = t_with_container P cid (\<lambda>a.
     tbnd (t_getProcess P a eid) (\<lambda>r. case r of
       Inl err \<Rightarrow> Fin (Inl (conv err)) | Inr p \<Rightarrow> k a p))"

text \<open>The first process of a container, read without its lock.\<close>

definition t_process :: "nat \<Rightarrow> ('x, nat) thread" where
  "t_process a = Load a (\<lambda>c. t_deref (ct_process c))"

subsection \<open>New containers\<close>

definition t_request_options :: "'x pkg \<Rightarrow> any option \<Rightarrow> ('x, goerr + options) thread" where
  "t_request_options P o1 = (case o1 of
      None \<Rightarrow> Fin (Inr no_options)
    | Some a \<Rightarrow> if any_url a = [] then Fin (Inr no_options)
        else (case pk_UnmarshalAny P a of
            Inl err \<Rightarrow> Fin (Inl err)
          | Inr (MOptions opts) \<Rightarrow> Fin (Inr opts)
          | Inr MOther \<Rightarrow> Die ''interface conversion''))"

definition t_rootfs_dir :: "create_request \<Rightarrow> ('x, goerr + string) thread" where
  "t_rootfs_dir r =
     (if rq_Rootfs r = [] then Fin (Inr [])
      else let rootfs = filepath_Join [rq_Bundle r, ''rootfs''] in
        tbnd (t_ext (on_world (os_Mkdir rootfs 457))) (\<lambda>err. case err of
            Some e \<Rightarrow> if os_IsExist e then Fin (Inr rootfs) else Fin (Inl (EOs e))
          | None \<Rightarrow> Fin (Inr rootfs)))"

fun t_mount_all :: "'x pkg \<Rightarrow> mnt list \<Rightarrow> string \<Rightarrow> ('x, goerr option) thread" where
  "t_mount_all P [] rootfs = Fin None"
| "t_mount_all P (rm # ms) rootfs = tbnd (t_ext (pk_Mount P (rm\<lparr>mn_Target := []\<rparr>) rootfs)) (\<lambda>r. case r of
      Some err \<Rightarrow> Fin (Some (EWrap ''failed to mount rootfs component %v'' [mn_Source rm] err))
    | None \<Rightarrow> t_mount_all P ms rootfs)"

definition t_newInit :: "'x pkg \<Rightarrow> string \<Rightarrow> string \<Rightarrow> string \<Rightarrow> bool \<Rightarrow> create_config \<Rightarrow> options \<Rightarrow> string \<Rightarrow>
    ('x, nat) thread" where
  "t_newInit P path workDir namespace platform r opts rootfs =
     t_ext (pk_New P (init_config_of path workDir namespace platform r opts rootfs))"

definition t_mount_and_create :: "'x pkg \<Rightarrow> string \<Rightarrow> bool \<Rightarrow> create_request \<Rightarrow> options \<Rightarrow> string \<Rightarrow>
    ('x, goerr + nat) thread" where
  "t_mount_and_create P ns platform r opts rootfs =
     tbnd (t_mount_all P (rq_Rootfs r) rootfs) (\<lambda>m. case m of
       Some err \<Rightarrow> Fin (Inl err)
     | None \<Rightarrow>
         tbnd (t_newInit P (rq_Bundle r) (filepath_Join [rq_Bundle r, ''work'']) ns platform
               (create_config_of r opts) opts rootfs) (\<lambda>p.
         tbnd (t_ext (pk_Create P p (create_config_of r opts))) (\<lambda>c. case c of
           Some err \<Rightarrow> Fin (Inl (pk_ToGRPC P err))
         | None \<Rightarrow> New_Object \<lparr>ct_mu = False, ct_ID = rq_ID r, ct_Bundle = rq_Bundle r,
             ct_process = Some p, ct_processes = []\<rparr> (\<lambda>a. Fin (Inr a)))))"

definition t_newContainer :: "'x pkg \<Rightarrow> goerr + string \<Rightarrow> bool \<Rightarrow> create_request \<Rightarrow> ('x, goerr + nat) thread" where
  "t_newContainer P ns platform r = (case ns of
      Inl err \<Rightarrow> Fin (Inl (EWrap ''create namespace'' [] err))
    | Inr namespace \<Rightarrow> tbnd (t_request_options P (rq_Options r)) (\<lambda>ro. case ro of
          Inl err \<Rightarrow> Fin (Inl err)
        | Inr opts \<Rightarrow> tbnd (t_rootfs_dir r) (\<lambda>rf. case rf of
              Inl err \<Rightarrow> Fin (Inl err)
            | Inr rootfs \<Rightarrow> tbnd (t_mount_and_create P namespace platform r opts rootfs) (\<lambda>res. case res of
                  Inl err \<Rightarrow> tbnd (t_ext (pk_UnmountAll P rootfs)) (\<lambda>_. Fin (Inl err))
                | Inr a \<Rightarrow> Fin (Inr a)))))"

subsection \<open>Requests\<close>

text \<open>The map is written without the lock of the containers.\<close>

definition t_announce_created :: "'x pkg \<Rightarrow> create_request \<Rightarrow> nat \<Rightarrow> ('x, goerr + 32 word) thread" where
  "t_announce_created P r a =
     Begin_Write (End_Write (Put (rq_ID r) a)
     (tbnd (t_process a) (\<lambda>p. tbnd (t_ask (\<lambda>x. u32 (pk_Pid P p x))) (\<lambda>pid.
      tbnd (t_send (TaskCreate (rq_ID r) (rq_Bundle r) (rq_Rootfs r)
        \<lparr>io_Stdin = rq_Stdin r, io_Stdout = rq_Stdout r, io_Stderr = rq_Stderr r, io_Terminal = rq_Terminal r\<rparr>
        (rq_Checkpoint r) pid)) (\<lambda>_.
      tbnd (t_process a) (\<lambda>p. t_ask (\<lambda>x. Inr (u32 (pk_Pid P p x)))))))))"

definition t_Create :: "'x pkg \<Rightarrow> goerr + string \<Rightarrow> create_request \<Rightarrow> ('x, goerr + 32 word) thread" where
  "t_Create P ns r = (case pk_MarshalOptions P runu_options of
      Inl err \<Rightarrow> Fin (Inl err)
    | Inr a \<Rightarrow> Platform (\<lambda>platform.
        tbnd (t_newContainer P ns platform (r\<lparr>rq_Options := Some a\<rparr>)) (\<lambda>res. case res of
            Inl err \<Rightarrow> Fin (Inl err)
          | Inr c \<Rightarrow> t_announce_created P (r\<lparr>rq_Options := Some a\<rparr>) c)))"

definition t_Start :: "'x pkg \<Rightarrow> string \<Rightarrow> string \<Rightarrow> ('x, goerr + 32 word) thread" where
  "t_Start P cid eid = t_with_container P cid (\<lambda>a.
     Lock SendMu (tbnd (t_getProcess P a eid) (\<lambda>r. case r of
         Inl err \<Rightarrow> Unlock SendMu (Fin (Inl (pk_ToGRPC P err)))
       | Inr p \<Rightarrow> tbnd (t_ext (pk_Start P p)) (\<lambda>e. case e of
             Some err \<Rightarrow> Unlock SendMu (Fin (Inl (pk_ToGRPC P err)))
           | None \<Rightarrow> Unlock SendMu (t_ask (\<lambda>x. Inr (u32 (pk_Pid P p x))))))))"

definition t_exit_info :: "'x pkg \<Rightarrow> nat \<Rightarrow> ('x, 32 word \<times> int \<times> 32 word) thread" where
  "t_exit_info P p =
     tbnd (t_ask (\<lambda>x. u32 (pk_ExitStatus P p x))) (\<lambda>st.
     tbnd (t_ask (pk_ExitedAt P p)) (\<lambda>at1.
     tbnd (t_ask (\<lambda>x. u32 (pk_Pid P p x))) (\<lambda>pid. Fin (st, at1, pid))))"

text \<open>What \<open>Delete\<close> does after the process has been deleted; a deferred unlock comes last.\<close>

definition t_forget :: "'x pkg \<Rightarrow> string \<Rightarrow> string \<Rightarrow> nat \<Rightarrow> nat \<Rightarrow> ('x, 32 word \<times> int \<times> 32 word) thread" where
  "t_forget P cid eid a p =
     (if eid = [] then
        Lock Mu (Begin_Write (End_Write (Drop cid) (Unlock Mu (Load a (\<lambda>c.
        tbnd (t_ask (\<lambda>x. u32 (pk_Pid P p x))) (\<lambda>pid.
        tbnd (t_ask (\<lambda>x. u32 (pk_ExitStatus P p x))) (\<lambda>st.
        tbnd (t_ask (pk_ExitedAt P p)) (\<lambda>at1.
        tbnd (t_send (TaskDelete (ct_ID c) pid st at1)) (\<lambda>_. t_exit_info P p)))))))))
      else Lock (CtMu a) (Drop_Process a eid (tbnd (t_exit_info P p) (\<lambda>i. Unlock (CtMu a) (Fin i)))))"

definition t_Delete :: "'x pkg \<Rightarrow> string \<Rightarrow> string \<Rightarrow> ('x, goerr + 32 word \<times> int \<times> 32 word) thread" where
  "t_Delete P cid eid = t_with_process P cid eid (pk_ToGRPC P) (\<lambda>a p.
     tbnd (t_ext (pk_Delete P p)) (\<lambda>e. case e of
         Some err \<Rightarrow> Fin (Inl (pk_ToGRPC P err))
       | None \<Rightarrow> tbnd (t_forget P cid eid a p) (\<lambda>i. Fin (Inr i))))"

definition t_State :: "'x pkg \<Rightarrow> string \<Rightarrow> string \<Rightarrow> ('x, goerr + state_response) thread" where
  "t_State P cid eid = t_with_process P cid eid (\<lambda>err. err) (\<lambda>a p.
     tbnd (t_ext (pk_Status P p)) (\<lambda>r. case r of
         Inl err \<Rightarrow> Fin (Inl err)
       | Inr st \<Rightarrow>
           tbnd (t_ask (pk_Stdio P p)) (\<lambda>sio.
           tbnd (t_ask (pk_PID P p)) (\<lambda>i. Load a (\<lambda>c.
           tbnd (t_ask (pk_Pid P p)) (\<lambda>pid.
           tbnd (t_ask (pk_ExitStatus P p)) (\<lambda>ex.
           t_ask (\<lambda>x. Inr \<lparr>sr_ID = i, sr_Bundle = ct_Bundle c, sr_Pid = u32 pid, sr_Status = status_of st,
             sr_Stdio = sio, sr_ExitStatus = u32 ex, sr_ExitedAt = pk_ExitedAt P p x\<rparr>))))))))"

definition t_Pause :: "'x pkg \<Rightarrow> string \<Rightarrow> ('x, goerr + unit) thread" where
  "t_Pause P cid = t_with_container P cid (\<lambda>a. tbnd (t_process a) (\<lambda>p.
     tbnd (t_ext (pk_Pause P p)) (\<lambda>e. case e of
       Some err \<Rightarrow> Fin (Inl (pk_ToGRPC P err))
     | None \<Rightarrow> Load a (\<lambda>c. tbnd (t_send (TaskPaused (ct_ID c))) (\<lambda>_. Fin (Inr ()))))))"

definition t_Resume :: "'x pkg \<Rightarrow> string \<Rightarrow> ('x, goerr + unit) thread" where
  "t_Resume P cid = t_with_container P cid (\<lambda>a. tbnd (t_process a) (\<lambda>p.
     tbnd (t_ext (pk_Resume P p)) (\<lambda>e. case e of
       Some err \<Rightarrow> Fin (Inl (pk_ToGRPC P err))
     | None \<Rightarrow> Load a (\<lambda>c. tbnd (t_send (TaskResumed (ct_ID c))) (\<lambda>_. Fin (Inr ()))))))"

definition t_Kill :: "'x pkg \<Rightarrow> string \<Rightarrow> string \<Rightarrow> 32 word \<Rightarrow> bool \<Rightarrow> ('x, goerr + unit) thread" where
  "t_Kill P cid eid sig every = t_with_process P cid eid (\<lambda>err. err) (\<lambda>a p.
     tbnd (t_ext (pk_Kill P p sig every)) (\<lambda>e. case e of
         Some err \<Rightarrow> Fin (Inl (pk_ToGRPC P err))
       | None \<Rightarrow> Fin (Inr ())))"

definition t_getContainerPids :: "'x pkg \<Rightarrow> string \<Rightarrow> ('x, goerr + 32 word list) thread" where
  "t_getContainerPids P cid = t_with_process P cid [] (pk_ToGRPC P) (\<lambda>a p.
     tbnd (t_ext (pk_Ps P p cid)) (\<lambda>r. case r of
         Inl err \<Rightarrow> Fin (Inl err)
       | Inr ps \<Rightarrow> Fin (Inr (map u32 ps))))"

fun t_pid_info :: "'x pkg \<Rightarrow> 32 word \<Rightarrow> (string \<times> nat) list \<Rightarrow> ('x, goerr + any option) thread" where
  "t_pid_info P pid [] = Fin (Inr None)"
| "t_pid_info P pid ((i, p) # ps) = tbnd (t_ask (pk_Pid P p)) (\<lambda>q.
     if q = uint pid then tbnd (t_ask (pk_PID P p)) (\<lambda>d. Fin (case pk_MarshalDetails P d of
         Inl err \<Rightarrow> Inl (EWrap ''failed to marshal process %d info'' [itoa (uint pid)] err)
       | Inr a \<Rightarrow> Inr (Some a)))
     else t_pid_info P pid ps)"

fun t_pid_details :: "'x pkg \<Rightarrow> nat \<Rightarrow> (32 word \<Rightarrow> (string \<times> nat) list \<Rightarrow> (string \<times> nat) list) \<Rightarrow> 32 word list \<Rightarrow>
    ('x, goerr + (32 word \<times> any option) list) thread" where
  "t_pid_details P a ord [] = Fin (Inr [])"
| "t_pid_details P a ord (pid # pids) = Load a (\<lambda>c.
     tbnd (t_pid_info P pid (ord pid (ct_processes c))) (\<lambda>r. case r of
       Inl err \<Rightarrow> Fin (Inl err)
     | Inr i \<Rightarrow> tbnd (t_pid_details P a ord pids) (\<lambda>r. Fin (case r of
           Inl err \<Rightarrow> Inl err | Inr is1 \<Rightarrow> Inr ((pid, i) # is1)))))"

definition t_Pids :: "'x pkg \<Rightarrow> (32 word \<Rightarrow> (string \<times> nat) list \<Rightarrow> (string \<times> nat) list) \<Rightarrow> string \<Rightarrow>
    ('x, goerr + (32 word \<times> any option) list) thread" where
  "t_Pids P ord cid = t_with_container P cid (\<lambda>a.
     tbnd (t_getContainerPids P cid) (\<lambda>r. case r of
       Inl err \<Rightarrow> Fin (Inl (pk_ToGRPC P err))
     | Inr pids \<Rightarrow> t_pid_details P a ord pids))"

definition t_CloseIO :: "'x pkg \<Rightarrow> string \<Rightarrow> string \<Rightarrow> ('x, goerr + unit) thread" where
  "t_CloseIO P cid eid = t_with_process P cid eid (\<lambda>err. err) (\<lambda>a p.
     tbnd (t_ask (pk_HasStdin P p)) (\<lambda>has.
       if \<not> has then Fin (Inr ())
       else tbnd (t_ext (pk_StdinClose P p)) (\<lambda>e. case e of
           Some err \<Rightarrow> Fin (Inl (EWrap ''close stdin'' [] err))
         | None \<Rightarrow> Fin (Inr ()))))"

definition t_Wait :: "'x pkg \<Rightarrow> string \<Rightarrow> string \<Rightarrow> ('x, goerr + 32 word \<times> int) thread" where
  "t_Wait P cid eid = t_with_process P cid eid (pk_ToGRPC P) (\<lambda>a p.
     tbnd (t_ext (pk_Wait P p)) (\<lambda>_.
     tbnd (t_ask (\<lambda>x. u32 (pk_ExitStatus P p x))) (\<lambda>st.
     t_ask (\<lambda>x. Inr (st, pk_ExitedAt P p x)))))"

definition t_Connect :: "'x pkg \<Rightarrow> string \<Rightarrow> ('x, goerr + 32 word \<times> 32 word) thread" where
  "t_Connect P cid = tbnd (t_getContainer P cid) (\<lambda>r.
     tbnd (case r of
         Inl err \<Rightarrow> Fin 0
       | Inr a \<Rightarrow> tbnd (t_process a) (\<lambda>p. t_ask (pk_Pid P p))) (\<lambda>pid.
     t_ask (\<lambda>(x, w). Inr (u32 (w_pid w), u32 pid))))"

definition t_Shutdown :: "('x, goerr + unit) thread" where
  "t_Shutdown = Lock Mu (Map_Read (\<lambda>m.
     if m \<noteq> [] then Unlock Mu (Fin (Inr ()))
     else Cancel (Close (Platform (\<lambda>platform. Fin (Inr ()))))))"

subsection \<open>Exits\<close>

fun t_find_process :: "'x pkg \<Rightarrow> int \<Rightarrow> nat option list \<Rightarrow> ('x, nat option) thread" where
  "t_find_process P pid [] = Fin None"
| "t_find_process P pid (p0 # ps) = tbnd (t_deref p0) (\<lambda>p. tbnd (t_ask (pk_Pid P p)) (\<lambda>q.
     if q \<noteq> pid then t_find_process P pid ps else Fin (Some p)))"

definition t_exited :: "'x pkg \<Rightarrow> nat \<Rightarrow> nat \<Rightarrow> int \<Rightarrow> int \<Rightarrow> ('x, unit) thread" where
  "t_exited P a p pid status =
     tbnd (t_ext (pk_SetExited P p status)) (\<lambda>_. Load a (\<lambda>c.
     tbnd (t_ask (pk_PID P p)) (\<lambda>i.
     tbnd (t_ask (pk_ExitedAt P p)) (\<lambda>at1.
     t_sendL (TaskExit (ct_ID c) i (u32 pid) (u32 status) at1)))))"

text \<open>The map is read without its lock.\<close>

definition t_checkProcesses :: "'x pkg \<Rightarrow> ((string \<times> nat) list \<Rightarrow> (string \<times> nat) list) \<Rightarrow>
    ((string \<times> nat) list \<Rightarrow> (string \<times> nat) list) \<Rightarrow> int \<Rightarrow> int \<Rightarrow> ('x, unit) thread" where
  "t_checkProcesses P ord pord pid status = Map_Read (\<lambda>m. case ord m of
      [] \<Rightarrow> Fin ()
    | (i, a) # rest \<Rightarrow> Load a (\<lambda>c.
        tbnd (t_find_process P pid (container_processes pord c)) (\<lambda>r. case r of
            Some p \<Rightarrow> t_exited P a p pid status
          | None \<Rightarrow> Fin ())))"

end
