(* ===== verification/Shim_Overlap.thy ===== *)
theory Shim_Overlap
  imports Shim_Threads Shim_Calls
begin

text \<open>
  Requests that overlap. A system is what the threads share and the threads that were started:
  one for every request, and one for every exit, which \<open>processExits\<close> handles one after the
  other. In a step a request comes in, an exit comes in, one thread takes one action, the oldest
  event is forwarded, or the world outside changes by itself. Every thread follows a discipline (the tokens it holds, and the
  objects it may point to), from which the invariant of all interleavings follows, and with it
  what can make the shim panic and what can keep it from going on.
\<close>

subsection \<open>Systems\<close>

definition t_answer :: "('x, goerr + 'r) thread \<Rightarrow> ('x, goerr option) thread" where
  "t_answer t = tbnd t (\<lambda>r. Fin (case r of Inl e \<Rightarrow> Some e | Inr x \<Rightarrow> None))"

fun t_serve :: "'x pkg \<Rightarrow> request \<Rightarrow> ('x, goerr option) thread" where
  "t_serve P (RqCreate ns r) = t_answer (t_Create P ns r)"
| "t_serve P (RqStart cid eid) = t_answer (t_Start P cid eid)"
| "t_serve P (RqDelete cid eid) = t_answer (t_Delete P cid eid)"
| "t_serve P RqExec = Fin None"
| "t_serve P RqResizePty = Fin None"
| "t_serve P (RqState cid eid) = t_answer (t_State P cid eid)"
| "t_serve P (RqPause cid) = t_answer (t_Pause P cid)"
| "t_serve P (RqResume cid) = t_answer (t_Resume P cid)"
| "t_serve P (RqKill cid eid sig every) = t_answer (t_Kill P cid eid sig every)"
| "t_serve P (RqPids ord cid) = t_answer (t_Pids P ord cid)"
| "t_serve P (RqCloseIO cid eid) = t_answer (t_CloseIO P cid eid)"
| "t_serve P RqCheckpoint = Fin None"
| "t_serve P RqUpdate = Fin None"
| "t_serve P (RqWait cid eid) = t_answer (t_Wait P cid eid)"
| "t_serve P (RqConnect cid) = t_answer (t_Connect P cid)"
| "t_serve P RqShutdown = t_answer t_Shutdown"
| "t_serve P RqStats = Fin None"

datatype origin = FromRequest request | FromExits

record 'x system =
  sy_shared :: "'x shared"
  sy_tasks :: "(origin \<times> ('x, goerr option) thread) list"

definition t_exit :: "'x pkg \<Rightarrow> ((string \<times> nat) list \<Rightarrow> (string \<times> nat) list) \<Rightarrow>
    ((string \<times> nat) list \<Rightarrow> (string \<times> nat) list) \<Rightarrow> int \<Rightarrow> int \<Rightarrow> ('x, goerr option) thread" where
  "t_exit P ord pord pid status = tbnd (t_checkProcesses P ord pord pid status) (\<lambda>_. Fin None)"

definition exits_idle :: "'x system \<Rightarrow> bool" where
  "exits_idle \<sigma> = list_all (\<lambda>(o1, t). o1 = FromExits \<longrightarrow> finished t) (sy_tasks \<sigma>)"

inductive sys_step :: "'x pkg \<Rightarrow> 'x system \<Rightarrow> 'x system \<Rightarrow> bool" for P where
  arrives: "sys_step P \<sigma> (\<sigma>\<lparr>sy_tasks := sy_tasks \<sigma> @ [(FromRequest rq, t_serve P rq)]\<rparr>)"
| exits: "exits_idle \<sigma> \<Longrightarrow> (\<And>xs. mset (ord xs) = mset xs) \<Longrightarrow> (\<And>xs. mset (pord xs) = mset xs) \<Longrightarrow>
     sys_step P \<sigma> (\<sigma>\<lparr>sy_tasks := sy_tasks \<sigma> @ [(FromExits, t_exit P ord pord pid status)]\<rparr>)"
| acts: "i < length (sy_tasks \<sigma>) \<Longrightarrow> sy_tasks \<sigma> ! i = (og, t) \<Longrightarrow> tstep t (sy_shared \<sigma>) = (Ret t', s') \<Longrightarrow>
     sys_step P \<sigma> (\<sigma>\<lparr>sy_shared := s', sy_tasks := (sy_tasks \<sigma>)[i := (og, t')]\<rparr>)"
| forwards: "sh_events (sy_shared \<sigma>) = e # es \<Longrightarrow>
     sys_step P \<sigma> (\<sigma>\<lparr>sy_shared := (sy_shared \<sigma>)\<lparr>sh_events := es,
       sh_published := sh_published (sy_shared \<sigma>) @ [(getTopic e, e)]\<rparr>\<rparr>)"
| outside: "sys_step P \<sigma> (\<sigma>\<lparr>sy_shared := (sy_shared \<sigma>)\<lparr>sh_ext := y\<rparr>\<rparr>)"

inductive_cases sys_step_cases: "sys_step P \<sigma> \<tau>"

definition new_system :: "string \<Rightarrow> 'x \<times> world \<Rightarrow> 'x system" where
  "new_system sid x = \<lparr>sy_shared = \<lparr>sh_mu = False, sh_sendMu = False, sh_writing = False, sh_events = [],
     sh_eventsClosed = False, sh_platform = True, sh_id = sid, sh_containers = [], sh_objs = [],
     sh_cancelled = False, sh_published = [], sh_ext = x\<rparr>, sy_tasks = []\<rparr>"

subsection \<open>The discipline of a thread\<close>

text \<open>A token is what at most one thread has: a mutex, the write to the map, the closed channel.\<close>

datatype token = Holds lock | Writing | Closed

fun taken :: "'x shared \<Rightarrow> token \<Rightarrow> bool" where
  "taken s (Holds l) = lock_held s l"
| "taken s Writing = sh_writing s"
| "taken s Closed = sh_eventsClosed s"

text \<open>The objects are known by their container ids, in the order they were made.\<close>

definition points :: "string list \<Rightarrow> (string \<times> nat) list \<Rightarrow> bool" where
  "points ids m \<longleftrightarrow> distinct (map fst m) \<and> (\<forall>(cid, a)\<in>set m. a < length ids \<and> ids ! a = cid)"

definition made :: "string \<Rightarrow> darwinContainer \<Rightarrow> bool" where
  "made cid c \<longleftrightarrow> ct_ID c = cid \<and> ct_process c \<noteq> None \<and> ct_processes c = []"

fun can_lock :: "lock \<Rightarrow> token set \<Rightarrow> string list \<Rightarrow> bool" where
  "can_lock Mu H ids = (H = {})"
| "can_lock SendMu H ids = (H = {})"
| "can_lock (CtMu a) H ids = (H \<subseteq> {Holds SendMu} \<and> a < length ids)"

fun can_update :: "map_update \<Rightarrow> string list \<Rightarrow> bool" where
  "can_update (Put cid a) ids = (a < length ids \<and> ids ! a = cid)"
| "can_update (Drop cid) ids = True"

text \<open>
  A thread that holds the tokens \<open>H\<close> and knows the objects \<open>ids\<close> is disciplined, and \<open>Q\<close> holds
  when it finishes. A guarded thread touches the map only with the lock of the containers.
\<close>

inductive disc :: "bool \<Rightarrow> (token set \<Rightarrow> string list \<Rightarrow> 'a \<Rightarrow> bool) \<Rightarrow> token set \<Rightarrow> string list \<Rightarrow> ('x, 'a) thread \<Rightarrow> bool"
  for g Q where
  d_Fin: "Q H ids a \<Longrightarrow> disc g Q H ids (Fin a)"
| d_Die: "msg = ''interface conversion'' \<Longrightarrow> disc g Q H ids (Die msg)"
| d_Lock: "can_lock l H ids \<Longrightarrow> disc g Q (insert (Holds l) H) ids t \<Longrightarrow> disc g Q H ids (Lock l t)"
| d_Unlock: "Holds l \<in> H \<Longrightarrow> Writing \<notin> H \<Longrightarrow> Closed \<notin> H \<Longrightarrow> disc g Q (H - {Holds l}) ids t \<Longrightarrow> disc g Q H ids (Unlock l t)"
| d_Outside: "H \<subseteq> {Holds SendMu} \<Longrightarrow> (\<And>x t y. f x = (Ret t, y) \<Longrightarrow> disc g Q H ids t) \<Longrightarrow> disc g Q H ids (Outside f)"
| d_Ask: "(\<And>x. disc g Q H ids (f x)) \<Longrightarrow> disc g Q H ids (Ask f)"
| d_Platform: "(\<And>b. disc g Q H ids (f b)) \<Longrightarrow> disc g Q H ids (Platform f)"
| d_Map_Read: "Writing \<notin> H \<Longrightarrow> (g \<Longrightarrow> Holds Mu \<in> H) \<Longrightarrow>
     (\<And>ids' m. prefix ids ids' \<Longrightarrow> points ids' m \<Longrightarrow> disc g Q H ids' (f m)) \<Longrightarrow> disc g Q H ids (Map_Read f)"
| d_Begin_Write: "Writing \<notin> H \<Longrightarrow> (g \<Longrightarrow> Holds Mu \<in> H) \<Longrightarrow> disc g Q (insert Writing H) ids t \<Longrightarrow> disc g Q H ids (Begin_Write t)"
| d_End_Write: "Writing \<in> H \<Longrightarrow> can_update u ids \<Longrightarrow> disc g Q (H - {Writing}) ids t \<Longrightarrow> disc g Q H ids (End_Write u t)"
| d_New_Object: "made (ct_ID c) c \<Longrightarrow> \<not> ct_mu c \<Longrightarrow>
     (\<And>ids'. prefix ids ids' \<Longrightarrow> disc g Q H (ids' @ [ct_ID c]) (f (length ids'))) \<Longrightarrow> disc g Q H ids (New_Object c f)"
| d_Load: "a < length ids \<Longrightarrow> (\<And>c. made (ids ! a) c \<Longrightarrow> disc g Q H ids (f c)) \<Longrightarrow> disc g Q H ids (Load a f)"
| d_Drop_Process: "a < length ids \<Longrightarrow> disc g Q H ids t \<Longrightarrow> disc g Q H ids (Drop_Process a eid t)"
| d_Send: "H \<subseteq> {Holds SendMu} \<Longrightarrow> disc g Q H ids t \<Longrightarrow> disc g Q H ids (Send evt t)"
| d_Cancel: "disc g Q H ids t \<Longrightarrow> disc g Q H ids (Cancel t)"
| d_Close: "Holds Mu \<in> H \<Longrightarrow> Closed \<notin> H \<Longrightarrow> disc g Q (insert Closed H) ids t \<Longrightarrow> disc g Q H ids (Close t)"

inductive_simps disc_simps:
  "disc g Q H ids (Fin a)" "disc g Q H ids (Die msg)" "disc g Q H ids (Lock l t)" "disc g Q H ids (Unlock l t)"
  "disc g Q H ids (Outside f)" "disc g Q H ids (Ask k)" "disc g Q H ids (Platform p)" "disc g Q H ids (Map_Read r)"
  "disc g Q H ids (Begin_Write t)" "disc g Q H ids (End_Write u t)" "disc g Q H ids (New_Object c n)"
  "disc g Q H ids (Load b d)" "disc g Q H ids (Drop_Process b eid t)" "disc g Q H ids (Send evt t)"
  "disc g Q H ids (Cancel t)" "disc g Q H ids (Close t)"

lemma disc_mono:
  assumes "disc g Q H ids t" and "prefix ids ids'"
    and mono: "\<And>H ids ids' a. prefix ids ids' \<Longrightarrow> Q H ids a \<Longrightarrow> Q H ids' a"
  shows "disc g Q H ids' t"
  using assms(1,2)
proof (induction arbitrary: ids' rule: disc.induct)
  case (d_Fin H ids a)
  then show ?case by (simp add: disc_simps mono)
next
  case (d_Lock l H ids t)
  then show ?case by (cases l) (auto simp: disc_simps dest: prefix_length_le)
next
  case (d_Map_Read H f ids)
  then show ?case using prefix_order.trans by (blast intro: disc.intros)
next
  case (d_End_Write H u ids t)
  then show ?case by (cases u) (auto simp: disc_simps prefix_def nth_append)
next
  case (d_New_Object c ids H f)
  then show ?case using prefix_order.trans by (blast intro: disc.intros)
next
  case (d_Load a ids H f)
  then show ?case by (auto simp: disc_simps prefix_def nth_append)
next
  case (d_Drop_Process a ids H t eid)
  then show ?case by (auto simp: disc_simps dest: prefix_length_le)
qed (auto simp: disc_simps)

lemma disc_tbnd:
  assumes "disc g Q H ids t" and "\<And>H' ids' a. prefix ids ids' \<Longrightarrow> Q H' ids' a \<Longrightarrow> disc g R H' ids' (k a)"
  shows "disc g R H ids (tbnd t k)"
  using assms
proof (induction rule: disc.induct)
  case (d_Outside H f ids)
  show ?case
  proof (simp, rule disc.d_Outside [OF d_Outside.hyps(1)])
    fix x t y assume "map_prod (map_outcome (\<lambda>t. tbnd t k)) id (f x) = (Ret t, y)"
    then obtain t' where "f x = (Ret t', y)" and "t = tbnd t' k"
      by (cases "f x"; cases "fst (f x)") auto
    then show "disc g R H ids t" using d_Outside by blast
  qed
next
  case (d_Map_Read H ids f)
  then show ?case by (auto simp: disc_simps intro: prefix_order.trans)
next
  case (d_New_Object c ids H f)
  have "disc g R H (ids' @ [ct_ID c]) (tbnd (f (length ids')) k)" if "prefix ids ids'" for ids'
    by (rule d_New_Object.IH [OF that]) (use that d_New_Object.prems in \<open>auto simp: prefix_def\<close>)
  with d_New_Object.hyps show ?case by (auto simp: disc_simps)
qed (auto simp: disc_simps)

end
