(* ===== verification/Shim_Discipline.thy ===== *)
theory Shim_Discipline
  imports Shim_Overlap
begin

text \<open>
  Every request and every exit is a disciplined thread: it takes the mutexes in order, calls the
  process package and sends with no lock but that of the events, leaves every container it makes
  complete, and ends without a token, or, having shut down, with the lock of the containers.
\<close>

definition final :: "token set \<Rightarrow> string list \<Rightarrow> 'a \<Rightarrow> bool" where
  "final H ids a \<longleftrightarrow> H = {} \<or> H = {Holds Mu, Closed}"

fun guarded :: "origin \<Rightarrow> bool" where
  "guarded (FromRequest (RqCreate ns r)) = False"
| "guarded (FromRequest rq) = True"
| "guarded FromExits = False"

subsection \<open>The parts\<close>

lemma disc_ext: "H \<subseteq> {Holds SendMu} \<Longrightarrow> (\<And>x. disc g Q H ids (k x)) \<Longrightarrow> disc g Q H ids (tbnd (t_ext f) k)"
proof -
  assume H: "H \<subseteq> {Holds SendMu}" and k: "\<And>x. disc g Q H ids (k x)"
  have "disc g Q H ids t" if "map_prod (map_outcome (\<lambda>t. tbnd t k)) id (map_prod (map_outcome Fin) id (f x)) = (Ret t, y)" for x t y
    using that k by (cases "f x"; cases "fst (f x)") auto
  then show ?thesis unfolding t_ext_def tbnd.simps by (intro disc.d_Outside H)
qed

lemma disc_ext_last: "H \<subseteq> {Holds SendMu} \<Longrightarrow> (\<And>x. Q H ids x) \<Longrightarrow> disc g Q H ids (t_ext f)"
  using disc_ext [of H g Q ids Fin f] by (simp add: disc_simps t_ext_def prod.map_comp outcome.map_comp comp_def id_def)

lemma disc_ask: "(\<And>x. disc g Q H ids (k x)) \<Longrightarrow> disc g Q H ids (tbnd (t_ask f) k)"
  by (simp add: t_ask_def disc_simps)

lemma disc_ask_last: "(\<And>x. Q H ids x) \<Longrightarrow> disc g Q H ids (t_ask f)"
  by (simp add: t_ask_def disc_simps)

lemma disc_send: "H \<subseteq> {Holds SendMu} \<Longrightarrow> disc g Q H ids (k ()) \<Longrightarrow> disc g Q H ids (tbnd (t_send evt) k)"
  by (simp add: t_send_def disc_simps)

lemma disc_process: "a < length ids \<Longrightarrow> (\<And>p. disc g Q H ids (k p)) \<Longrightarrow> disc g Q H ids (tbnd (t_process a) k)"
  by (auto simp: t_process_def t_deref_def disc_simps made_def split: option.splits)

lemma points_lookup: "points ids m \<Longrightarrow> map_of m cid = Some a \<Longrightarrow> a < length ids \<and> ids ! a = cid"
  by (auto simp: points_def dest!: map_of_SomeD)

lemma disc_getContainer:
  assumes "\<And>ids' err. prefix ids ids' \<Longrightarrow> disc g Q {} ids' (k (Inl err))"
    and "\<And>ids' a. prefix ids ids' \<Longrightarrow> a < length ids' \<Longrightarrow> ids' ! a = cid \<Longrightarrow> disc g Q {} ids' (k (Inr a))"
  shows "disc g Q {} ids (tbnd (t_getContainer P cid) k)"
  using assms by (auto simp: t_getContainer_def disc_simps dest: points_lookup split: option.splits)

lemma disc_getProcess:
  assumes "H \<subseteq> {Holds SendMu}" and "a < length ids" and "\<And>r. disc g Q H ids (k r)"
  shows "disc g Q H ids (tbnd (t_getProcess P a eid) k)"
proof -
  have "insert (Holds (CtMu a)) H - {Holds (CtMu a)} = H" and "Writing \<notin> H" and "Closed \<notin> H" using assms(1) by auto
  with assms show ?thesis by (simp add: t_getProcess_def disc_simps)
qed

lemma disc_with_container:
  assumes "\<And>ids' err. Q {} ids' (Inl err)"
    and "\<And>ids' a. prefix ids ids' \<Longrightarrow> a < length ids' \<Longrightarrow> ids' ! a = cid \<Longrightarrow> disc g Q {} ids' (k a)"
  shows "disc g Q {} ids (t_with_container P cid k)"
  unfolding t_with_container_def by (rule disc_getContainer) (simp_all add: assms disc_simps)

lemma disc_with_process:
  assumes "\<And>ids' err. Q {} ids' (Inl err)"
    and "\<And>ids' a p. prefix ids ids' \<Longrightarrow> a < length ids' \<Longrightarrow> ids' ! a = cid \<Longrightarrow> disc g Q {} ids' (k a p)"
  shows "disc g Q {} ids (t_with_process P cid eid conv k)"
  unfolding t_with_process_def
proof (rule disc_with_container)
  fix ids' a assume a: "prefix ids ids'" "a < length ids'" "ids' ! a = cid"
  show "disc g Q {} ids' (tbnd (t_getProcess P a eid) (case_sum (\<lambda>err. Fin (Inl (conv err))) (k a)))"
    by (rule disc_getProcess) (use assms a in \<open>auto simp: disc_simps split: sum.splits\<close>)
qed (rule assms(1))

lemma final_empty [simp]: "final {} ids a"
  by (simp add: final_def)

lemmas disc_rules = disc_ext disc_ask disc_ask_last disc_send disc_process disc_with_container
  disc_with_process disc_getProcess

subsection \<open>The requests\<close>

lemma disc_answer: "disc g final {} ids t \<Longrightarrow> disc g final {} ids (t_answer t)"
  unfolding t_answer_def by (erule disc_tbnd) (auto simp: disc_simps final_def)

text \<open>A part that leaves the tokens as they are.\<close>

abbreviation same :: "token set \<Rightarrow> token set \<Rightarrow> string list \<Rightarrow> 'a \<Rightarrow> bool" where
  "same H \<equiv> (\<lambda>H' ids a. H' = H)"

lemma disc_seq:
  assumes "disc g (same H) H ids t" and "\<And>ids' a. prefix ids ids' \<Longrightarrow> disc g Q H ids' (k a)"
  shows "disc g Q H ids (tbnd t k)"
  using assms by (auto intro: disc_tbnd)

lemma disc_impl:
  assumes "disc g Q H ids t" and "\<And>H ids a. Q H ids a \<Longrightarrow> R H ids a"
  shows "disc g R H ids t"
  using assms by (induction rule: disc.induct) (auto intro: disc.intros)

lemma disc_mount_all: "disc g (same {}) {} ids (t_mount_all P ms rootfs)"
  by (induction ms) (auto simp: disc_simps intro!: disc_ext split: option.splits)

definition new_at :: "string \<Rightarrow> token set \<Rightarrow> string list \<Rightarrow> goerr + nat \<Rightarrow> bool" where
  "new_at cid H ids r \<longleftrightarrow> H = {} \<and> (case r of Inl err \<Rightarrow> True | Inr a \<Rightarrow> a < length ids \<and> ids ! a = cid)"

lemma disc_mount_and_create: "disc g (new_at (rq_ID r)) {} ids (t_mount_and_create P ns platform r opts rootfs)"
  unfolding t_mount_and_create_def t_newInit_def
  by (rule disc_seq [OF disc_mount_all])
    (auto simp: disc_simps new_at_def made_def intro!: disc_ext split: option.splits)

lemma disc_newContainer: "disc g (new_at (rq_ID r)) {} ids (t_newContainer P ns platform r)"
proof -
  have options: "disc g (same {}) {} ids (t_request_options P o1)" for ids o1
    by (auto simp: t_request_options_def disc_simps split: option.splits sum.splits message.splits)
  have rootfs: "disc g (same {}) {} ids (t_rootfs_dir r)" for ids
    by (auto simp: t_rootfs_dir_def Let_def disc_simps intro!: disc_ext split: option.splits)
  have rest: "disc g (new_at (rq_ID r)) {} ids (tbnd (t_mount_and_create P n platform r opts rf) (\<lambda>res. case res of
      Inl err \<Rightarrow> tbnd (t_ext (pk_UnmountAll P rf)) (\<lambda>_. Fin (Inl err)) | Inr a \<Rightarrow> Fin (Inr a)))" for ids n opts rf
    by (rule disc_tbnd [OF disc_mount_and_create])
      (auto simp: disc_simps new_at_def intro!: disc_ext split: sum.splits)
  show ?thesis unfolding t_newContainer_def
    by (auto simp: disc_simps new_at_def split: sum.splits intro!: disc_seq [OF options] disc_seq [OF rootfs] rest)
qed

lemma disc_Create: "disc False final {} ids (t_Create P ns r)"
proof -
  have "disc False final {} ids' (t_announce_created P r' a)" if "a < length ids'" "ids' ! a = rq_ID r'" for ids' a r'
    using that by (auto simp: t_announce_created_def disc_simps intro!: disc_rules)
  then show ?thesis unfolding t_Create_def
    by (auto simp: disc_simps new_at_def intro!: disc_tbnd [OF disc_newContainer] split: sum.splits)
qed

lemma disc_exit_info: "disc g (same H) H ids (t_exit_info P p)"
  by (auto simp: t_exit_info_def disc_simps intro!: disc_rules)

lemma disc_Start: "disc True final {} ids (t_Start P cid eid)"
  by (auto simp: t_Start_def disc_simps intro!: disc_rules split: sum.splits option.splits)

lemma disc_forget: "a < length ids \<Longrightarrow> disc True (same {}) {} ids (t_forget P cid eid a p)"
  by (auto simp: t_forget_def disc_simps intro!: disc_rules disc_exit_info disc_seq [OF disc_exit_info]
      dest: prefix_length_le)

lemma disc_Delete: "disc True final {} ids (t_Delete P cid eid)"
  by (auto simp: t_Delete_def disc_simps intro!: disc_rules disc_seq [OF disc_forget] split: option.splits)

lemma disc_simple_requests:
  "disc True final {} ids (t_State P cid eid)" "disc True final {} ids (t_Pause P cid)"
  "disc True final {} ids (t_Resume P cid)" "disc True final {} ids (t_Kill P cid eid sig every)"
  "disc True final {} ids (t_CloseIO P cid eid)" "disc True final {} ids (t_Wait P cid eid)"
  by (auto simp: t_State_def t_Pause_def t_Resume_def t_Kill_def t_CloseIO_def t_Wait_def disc_simps
      intro!: disc_rules split: sum.splits option.splits)

lemma disc_Connect: "disc True final {} ids (t_Connect P cid)"
  unfolding t_Connect_def
proof (rule disc_getContainer)
  fix ids' :: "string list" and a assume "a < length ids'"
  then have "disc True (same {}) {} ids' (tbnd (t_process a) (\<lambda>p. t_ask (pk_Pid P p)))" by (intro disc_rules refl)
  then show "disc True final {} ids' (tbnd (case Inr a of Inl err \<Rightarrow> Fin 0 | Inr a \<Rightarrow> tbnd (t_process a) (\<lambda>p. t_ask (pk_Pid P p)))
      (\<lambda>pid. t_ask (\<lambda>(x, w). Inr (u32 (w_pid w), u32 pid))))"
    unfolding sum.case by (rule disc_seq) (intro disc_rules final_empty)
qed (simp, intro disc_rules final_empty)

lemma disc_pid_info: "disc g (same {}) {} ids (t_pid_info P pid ps)"
  by (induction ps) (auto simp: disc_simps intro!: disc_rules)

lemma disc_pid_details: "a < length ids \<Longrightarrow> disc g (same {}) {} ids (t_pid_details P a ord pids)"
proof (induction pids arbitrary: ids)
  case (Cons pid pids)
  have "a < length ids'" if "prefix ids ids'" for ids' using that Cons.prems by (auto dest: prefix_length_le)
  with Cons show ?case
    by (auto simp: disc_simps intro!: disc_seq [OF disc_pid_info] disc_seq [OF Cons.IH] split: sum.splits)
qed (simp add: disc_simps)

lemma disc_Pids: "disc True final {} ids (t_Pids P ord cid)"
  unfolding t_Pids_def
proof (rule disc_with_container)
  fix ids' :: "string list" and a assume a: "a < length ids'"
  have "disc True (same {}) {} ids' (t_getContainerPids P cid)"
    by (auto simp: t_getContainerPids_def disc_simps intro!: disc_rules split: sum.splits)
  then show "disc True final {} ids' (tbnd (t_getContainerPids P cid)
      (\<lambda>r. case r of Inl err \<Rightarrow> Fin (Inl (pk_ToGRPC P err)) | Inr pids \<Rightarrow> t_pid_details P a ord pids))"
    by (rule disc_seq) (use a in \<open>auto simp: disc_simps dest!: prefix_length_le split: sum.splits
      intro!: disc_impl [OF disc_pid_details]\<close>)
qed simp

lemma disc_Shutdown: "disc True final {} ids t_Shutdown"
  by (auto simp: t_Shutdown_def disc_simps final_def)

lemma disc_serve: "disc (guarded (FromRequest rq)) final {} ids (t_serve P rq)"
  by (cases rq) (auto simp: disc_simps intro!: disc_answer disc_Create disc_Start disc_Delete disc_simple_requests
      disc_Pids disc_Connect disc_Shutdown)

lemma disc_find_process:
  "None \<notin> set ps \<Longrightarrow> disc g (same {}) {} ids (t_find_process P pid ps)"
proof (induction ps)
  case (Cons p ps)
  then show ?case by (cases p) (auto simp: disc_simps t_deref_def intro!: disc_rules)
qed (simp add: disc_simps)

lemma disc_exit:
  assumes "\<And>xs. mset (ord xs) = mset xs"
  shows "disc False final {} ids (t_exit P ord pord pid status)"
proof -
  have known: "a < length ids' \<and> ids' ! a = i" if "points ids' m" and "ord m = (i, a) # rest" for ids' m i a rest
  proof -
    have "mset (ord m) = mset m" by (rule assms)
    then have "set (ord m) = set m" by (rule mset_eq_setD)
    with that have "(i, a) \<in> set m" by auto
    with that(1) show ?thesis by (auto simp: points_def)
  qed
  have one: "disc False (same {}) {} ids' (Load a (\<lambda>c.
      tbnd (t_find_process P pid (container_processes pord c)) (\<lambda>r. case r of
          Some p \<Rightarrow> t_exited P a p pid status | None \<Rightarrow> Fin ())))" if "a < length ids'" for ids' a
  proof (rule disc.d_Load [OF that])
    fix c assume "made (ids' ! a) c"
    then have "None \<notin> set (container_processes pord c)" by (auto simp: made_def container_processes_def)
    then show "disc False (same {}) {} ids' (tbnd (t_find_process P pid (container_processes pord c))
        (\<lambda>r. case r of Some p \<Rightarrow> t_exited P a p pid status | None \<Rightarrow> Fin ()))"
      by (rule disc_seq [OF disc_find_process]) (use that in \<open>auto simp: disc_simps t_exited_def t_sendL_def
        dest!: prefix_length_le intro!: disc_rules split: option.splits\<close>)
  qed
  have "disc False (same {}) {} ids (t_checkProcesses P ord pord pid status)"
    unfolding t_checkProcesses_def
  proof (rule disc.d_Map_Read)
    fix ids' m assume "points ids' m"
    then show "disc False (same {}) {} ids' (case ord m of [] \<Rightarrow> Fin () | (i, a) # rest \<Rightarrow> Load a (\<lambda>c.
        tbnd (t_find_process P pid (container_processes pord c)) (\<lambda>r. case r of
            Some p \<Rightarrow> t_exited P a p pid status | None \<Rightarrow> Fin ())))"
      using known one by (cases "ord m") (auto simp: disc_simps(1))
  qed simp_all
  then show ?thesis unfolding t_exit_def by (rule disc_seq) (simp add: disc_simps)
qed

end
