(* ===== verification/Shim_Interleavings.thy ===== *)
theory Shim_Interleavings
  imports Shim_Discipline
begin

text \<open>
  What holds in every interleaving of requests and exits: the invariant, that every request is
  made of finitely many actions, what can make the shim panic, and that, before it is shut down,
  only a call of the process package can keep it from going on.
\<close>

subsection \<open>One action of a disciplined thread\<close>

definition ids_of :: "'x shared \<Rightarrow> string list" where
  "ids_of s = map ct_ID (sh_objs s)"

definition shinv :: "'x shared \<Rightarrow> bool" where
  "shinv s \<longleftrightarrow> points (ids_of s) (sh_containers s) \<and> list_all (\<lambda>c. made (ct_ID c) c) (sh_objs s) \<and>
     length (sh_events s) \<le> eventsCapacity"

text \<open>Tokens that come with others: the closed channel, and a guarded write, with the lock.\<close>

definition with_mu :: "bool \<Rightarrow> token set \<Rightarrow> bool" where
  "with_mu g H \<longleftrightarrow> (Closed \<in> H \<longrightarrow> Holds Mu \<in> H) \<and> (g \<longrightarrow> Writing \<in> H \<longrightarrow> Holds Mu \<in> H)"

text \<open>The tokens \<open>H\<close> of one thread became \<open>H'\<close>; no other thread's changed.\<close>

definition passes :: "token set \<Rightarrow> token set \<Rightarrow> 'x shared \<Rightarrow> 'x shared \<Rightarrow> bool" where
  "passes H H' s s' \<longleftrightarrow> (\<forall>k. taken s' k \<longleftrightarrow> k \<in> H' \<or> taken s k \<and> k \<notin> H) \<and> (\<forall>k\<in>H'. k \<in> H \<or> \<not> taken s k)"

lemma points_update:
  assumes "points ids m" and "can_update u ids"
  shows "points ids (apply_update u m)"
proof (cases u)
  case (Put cid a)
  with assms set_update_subset [of cid a m] show ?thesis by (auto simp: points_def distinct_update)
next
  case (Drop cid)
  with assms show ?thesis by (auto simp: points_def AList.delete_eq distinct_map_filter)
qed

lemma token_cases:
  "(\<forall>k. R k) \<longleftrightarrow> R (Holds Mu) \<and> R (Holds SendMu) \<and> (\<forall>a. R (Holds (CtMu a))) \<and> R Writing \<and> R Closed"
  by (metis lock.exhaust token.exhaust)

lemma made_mu [simp]: "made cid (c\<lparr>ct_mu := b\<rparr>) = made cid c"
  by (simp add: made_def)

lemma made_at: "shinv s \<Longrightarrow> a < length (sh_objs s) \<Longrightarrow> made (ids_of s ! a) (sh_objs s ! a)"
  by (simp add: shinv_def ids_of_def list_all_length)

lemma ids_same:
  "ids_of (s\<lparr>sh_mu := b\<rparr>) = ids_of s" "ids_of (s\<lparr>sh_sendMu := b\<rparr>) = ids_of s" "ids_of (s\<lparr>sh_ext := x\<rparr>) = ids_of s"
  "ids_of (s\<lparr>sh_writing := b\<rparr>) = ids_of s" "ids_of (s\<lparr>sh_events := es\<rparr>) = ids_of s"
  "ids_of (s\<lparr>sh_containers := m\<rparr>) = ids_of s" "ids_of (s\<lparr>sh_cancelled := b\<rparr>) = ids_of s"
  "ids_of (s\<lparr>sh_eventsClosed := b\<rparr>) = ids_of s"
  by (simp_all add: ids_of_def)

lemma ids_object [simp]:
  "ct_ID c = ct_ID (sh_objs s ! a) \<Longrightarrow> ids_of (s\<lparr>sh_objs := (sh_objs s)[a := c]\<rparr>) = ids_of s"
  by (cases "a < length (sh_objs s)") (rule nth_equalityI, auto simp: ids_of_def nth_list_update not_less list_update_beyond)

lemma shinv_object:
  assumes "shinv s" and "made (ct_ID (sh_objs s ! a)) c"
  shows "shinv (s\<lparr>sh_objs := (sh_objs s)[a := c]\<rparr>)"
proof (cases "a < length (sh_objs s)")
  case True
  have "ids_of (s\<lparr>sh_objs := (sh_objs s)[a := c]\<rparr>) = ids_of s" using assms(2) by (simp add: made_def)
  with assms True show ?thesis by (auto simp: shinv_def list_all_length nth_list_update made_def)
qed (use assms in \<open>simp add: not_less list_update_beyond\<close>)

lemma set_lock_ids: "ids_of (set_lock l b s) = ids_of s"
  by (cases l) (simp_all add: ids_same)

lemma set_lock_shinv: "shinv s \<Longrightarrow> (\<And>a. l = CtMu a \<Longrightarrow> a < length (sh_objs s)) \<Longrightarrow> shinv (set_lock l b s)"
proof (cases l)
  case (CtMu a)
  assume "shinv s" and "\<And>a. l = CtMu a \<Longrightarrow> a < length (sh_objs s)"
  with CtMu have "shinv s" and "made (ct_ID (sh_objs s ! a)) ((sh_objs s ! a)\<lparr>ct_mu := b\<rparr>)"
    by (simp_all add: shinv_def list_all_length)
  with CtMu shinv_object show ?thesis by fastforce
qed (simp_all add: shinv_def ids_same)

lemma lock_held_set:
  assumes "\<And>a. l = CtMu a \<Longrightarrow> a < length (sh_objs s)"
  shows "lock_held (set_lock l b s) l' \<longleftrightarrow> (if l' = l then b else lock_held s l')"
  using assms by (cases l; cases l') (auto simp: nth_list_update)

lemma set_lock_taken:
  assumes "\<And>a. l = CtMu a \<Longrightarrow> a < length (sh_objs s)"
  shows "taken (set_lock l b s) k \<longleftrightarrow> (if k = Holds l then b else taken s k)"
proof (cases k)
  case (Holds l')
  then show ?thesis using lock_held_set [OF assms] by simp
qed (cases l; simp)+

lemma lock_held_same:
  "lock_held (s\<lparr>sh_ext := x\<rparr>) l = lock_held s l" "lock_held (s\<lparr>sh_cancelled := b\<rparr>) l = lock_held s l"
  "lock_held (s\<lparr>sh_events := es\<rparr>) l = lock_held s l" "lock_held (s\<lparr>sh_containers := m\<rparr>) l = lock_held s l"
  "lock_held (s\<lparr>sh_writing := b\<rparr>) l = lock_held s l" "lock_held (s\<lparr>sh_eventsClosed := b\<rparr>) l = lock_held s l"
  "lock_held (s\<lparr>sh_published := ps\<rparr>) l = lock_held s l"
  by (cases l; simp)+

lemma lock_held_object:
  "ct_mu c = ct_mu (sh_objs s ! a) \<Longrightarrow> lock_held (s\<lparr>sh_objs := (sh_objs s)[a := c]\<rparr>) l = lock_held s l"
  by (cases "a < length (sh_objs s)"; cases l) (auto simp: nth_list_update)

lemma lock_held_new: "\<not> ct_mu c \<Longrightarrow> lock_held (s\<lparr>sh_objs := sh_objs s @ [c]\<rparr>) l = lock_held s l"
  by (cases l) (auto simp: nth_append)

lemma taken_same:
  "taken (s\<lparr>sh_ext := x\<rparr>) k = taken s k" "taken (s\<lparr>sh_cancelled := b\<rparr>) k = taken s k"
  "taken (s\<lparr>sh_events := es\<rparr>) k = taken s k"
  "taken (s\<lparr>sh_events := es, sh_published := ps\<rparr>) k = taken s k"
  "ct_mu c = ct_mu (sh_objs s ! a) \<Longrightarrow> taken (s\<lparr>sh_objs := (sh_objs s)[a := c]\<rparr>) k = taken s k"
  "\<not> ct_mu c \<Longrightarrow> taken (s\<lparr>sh_objs := sh_objs s @ [c]\<rparr>) k = taken s k"
  by (cases k; simp add: lock_held_same lock_held_object lock_held_new)+

lemma taken_set:
  "taken (s\<lparr>sh_writing := b, sh_containers := m\<rparr>) k \<longleftrightarrow> (if k = Writing then b else taken s k)"
  "taken (s\<lparr>sh_writing := b\<rparr>) k \<longleftrightarrow> (if k = Writing then b else taken s k)"
  "taken (s\<lparr>sh_eventsClosed := b\<rparr>) k \<longleftrightarrow> (if k = Closed then b else taken s k)"
  by (cases k; simp add: lock_held_same)+

lemma passes_same: "\<forall>k\<in>H. taken s k \<Longrightarrow> (\<And>k. taken s' k = taken s k) \<Longrightarrow> passes H H s s'"
  by (auto simp: passes_def)

lemma shinv_same:
  "shinv (s\<lparr>sh_ext := x\<rparr>) = shinv s" "shinv (s\<lparr>sh_cancelled := b\<rparr>) = shinv s"
  "shinv (s\<lparr>sh_writing := b\<rparr>) = shinv s" "shinv (s\<lparr>sh_eventsClosed := b\<rparr>) = shinv s"
  by (simp_all add: shinv_def ids_same)

text \<open>
  What one action does: the thread stays disciplined with the tokens it then has, no object is
  forgotten, what is shared keeps its invariant, and the tokens of other threads are untouched.
\<close>

lemma task_step:
  assumes d: "disc g Q H (ids_of s) t" and i: "shinv s" and have_: "\<forall>k\<in>H. taken s k" and m: "with_mu g H"
    and step: "tstep t s = (Ret t', s')"
  shows "\<exists>H'. disc g Q H' (ids_of s') t' \<and> prefix (ids_of s) (ids_of s') \<and> shinv s' \<and> with_mu g H' \<and> passes H H' s s'"
proof (cases t)
  case (Fin a)
  with step show ?thesis by simp
next
  case (Lock l u)
  with d step have free: "\<not> taken s (Holds l)" and s': "s' = set_lock l True s" and t': "t' = u"
    and can: "can_lock l H (ids_of s)" and u: "disc g Q (insert (Holds l) H) (ids_of s) u"
    by (auto simp: disc_simps split: if_splits)
  from can have b: "\<And>a. l = CtMu a \<Longrightarrow> a < length (sh_objs s)" by (cases l) (auto simp: ids_of_def)
  have "passes H (insert (Holds l) H) s s'"
    using have_ free by (auto simp: passes_def s' set_lock_taken [OF b])
  with u t' i m b show ?thesis
    by (intro exI [of _ "insert (Holds l) H"]) (auto simp: s' set_lock_ids with_mu_def intro!: set_lock_shinv)
next
  case (Unlock l u)
  with d step have s': "s' = set_lock l False s" and t': "t' = u" and h: "Holds l \<in> H" "Writing \<notin> H" "Closed \<notin> H"
    and u: "disc g Q (H - {Holds l}) (ids_of s) u"
    by (auto simp: disc_simps split: if_splits)
  from h have_ have b: "\<And>a. l = CtMu a \<Longrightarrow> a < length (sh_objs s)" by (cases l) auto
  have "passes H (H - {Holds l}) s s'"
    using have_ h by (auto simp: passes_def s' set_lock_taken [OF b])
  with u t' i h b show ?thesis
    by (intro exI [of _ "H - {Holds l}"]) (auto simp: s' set_lock_ids with_mu_def intro!: set_lock_shinv)
next
  case (Outside f)
  with step obtain y where f: "f (sh_ext s) = (Ret t', y)" and s': "s' = s\<lparr>sh_ext := y\<rparr>"
    by (auto split: prod.splits)
  from d f Outside have "disc g Q H (ids_of s) t'" by (simp add: disc_simps) (metis surj_pair)
  moreover have "ids_of s' = ids_of s" "shinv s'" "passes H H s s'"
    using i by (simp_all add: s' ids_same shinv_same passes_same [OF have_] taken_same)
  ultimately show ?thesis using m by auto
next
  case (Ask f)
  with d step i m have_ show ?thesis
    by (cases "sh_ext s") (auto simp: disc_simps intro!: exI [of _ H] passes_same)
next
  case (Map_Read f)
  with d step i m have_ show ?thesis
    by (auto simp: disc_simps shinv_def intro!: exI [of _ H] passes_same split: if_splits)
next
  case (Begin_Write u)
  with d step have free: "\<not> taken s Writing" and s': "s' = s\<lparr>sh_writing := True\<rparr>" and t': "t' = u"
    and h: "g \<Longrightarrow> Holds Mu \<in> H" and u: "disc g Q (insert Writing H) (ids_of s) u"
    by (auto simp: disc_simps split: if_splits)
  have "passes H (insert Writing H) s s'"
    using have_ free by (auto simp: passes_def s' taken_set)
  with u t' i m h show ?thesis
    by (intro exI [of _ "insert Writing H"]) (auto simp: s' ids_same shinv_same with_mu_def)
next
  case (End_Write w u)
  with d step have s': "s' = s\<lparr>sh_writing := False, sh_containers := apply_update w (sh_containers s)\<rparr>" and t': "t' = u"
    and h: "Writing \<in> H" "can_update w (ids_of s)" and u: "disc g Q (H - {Writing}) (ids_of s) u"
    by (auto simp: disc_simps split: if_splits)
  have "passes H (H - {Writing}) s s'"
    using have_ h by (auto simp: passes_def s' taken_set)
  moreover have ids: "ids_of s' = ids_of s" by (simp add: s' ids_of_def)
  moreover have "shinv s'" using i points_update h(2) unfolding shinv_def ids by (auto simp: s')
  ultimately show ?thesis using u t' m
    by (intro exI [of _ "H - {Writing}"]) (auto simp: with_mu_def)
next
  case (New_Object c f)
  with d step have s': "s' = s\<lparr>sh_objs := sh_objs s @ [c]\<rparr>" and t': "t' = f (length (sh_objs s))"
    and c: "made (ct_ID c) c" "\<not> ct_mu c"
    and u: "disc g Q H (ids_of s @ [ct_ID c]) (f (length (ids_of s)))"
    by (auto simp: disc_simps)
  have ids: "ids_of s' = ids_of s @ [ct_ID c]" by (simp add: s' ids_of_def)
  have "shinv s'" using i c unfolding shinv_def ids by (auto simp: s' points_def nth_append)
  moreover have "passes H H s s'" by (rule passes_same [OF have_]) (simp add: s' c taken_same)
  moreover have "length (ids_of s) = length (sh_objs s)" by (simp add: ids_of_def)
  ultimately show ?thesis using u t' m by (intro exI [of _ H]) (simp add: ids)
next
  case (Load a f)
  with d step i m have_ made_at [OF i, of a] show ?thesis
    by (auto simp: disc_simps intro!: exI [of _ H] passes_same split: if_splits)
next
  case (Drop_Process a eid u)
  let ?c = "(sh_objs s ! a)\<lparr>ct_processes := AList.delete eid (ct_processes (sh_objs s ! a))\<rparr>"
  from Drop_Process d step have s': "s' = s\<lparr>sh_objs := (sh_objs s)[a := ?c]\<rparr>" and t': "t' = u"
    and a: "a < length (sh_objs s)" and u: "disc g Q H (ids_of s) u"
    by (auto simp: disc_simps ids_of_def)
  have "made (ct_ID (sh_objs s ! a)) ?c" using made_at [OF i a] by (simp add: made_def)
  then have "shinv s'" unfolding s' by (rule shinv_object [OF i])
  moreover have "passes H H s s'" by (rule passes_same [OF have_]) (simp add: s' taken_same)
  ultimately show ?thesis using u t' m by (intro exI [of _ H]) (simp add: s')
next
  case (Send evt u)
  with d step i m have_ show ?thesis
    by (auto simp: disc_simps shinv_def ids_same taken_same intro!: exI [of _ H] passes_same split: if_splits)
next
  case (Cancel u)
  with d step i m have_ show ?thesis
    by (auto simp: disc_simps ids_same taken_same shinv_same intro!: exI [of _ H] passes_same)
next
  case (Close u)
  with d step have free: "\<not> taken s Closed" and s': "s' = s\<lparr>sh_eventsClosed := True\<rparr>" and t': "t' = u"
    and h: "Holds Mu \<in> H" and u: "disc g Q (insert Closed H) (ids_of s) u"
    by (auto simp: disc_simps split: if_splits)
  have "passes H (insert Closed H) s s'"
    using have_ free by (auto simp: passes_def s' taken_set)
  with u t' i m h show ?thesis
    by (intro exI [of _ "insert Closed H"]) (auto simp: s' ids_same shinv_same with_mu_def)
qed (use d step i m have_ in \<open>auto simp: disc_simps intro!: exI [of _ H] passes_same\<close>)

subsection \<open>The invariant of the system\<close>

text \<open>\<open>H\<close> tells which tokens each task has.\<close>

definition holders :: "(nat \<Rightarrow> token set) \<Rightarrow> (origin \<times> ('x, goerr option) thread) list \<Rightarrow> 'x shared \<Rightarrow> bool" where
  "holders H ts s \<longleftrightarrow>
     (\<forall>i<length ts. disc (guarded (fst (ts ! i))) final (H i) (ids_of s) (snd (ts ! i)) \<and> with_mu (guarded (fst (ts ! i))) (H i)) \<and>
     (\<forall>i j k. k \<in> H i \<longrightarrow> k \<in> H j \<longrightarrow> i = j) \<and>
     (\<forall>k. taken s k \<longleftrightarrow> (\<exists>i<length ts. k \<in> H i)) \<and>
     (\<forall>i\<ge>length ts. H i = {})"

definition oinv :: "'x system \<Rightarrow> bool" where
  "oinv \<sigma> \<longleftrightarrow> shinv (sy_shared \<sigma>) \<and> (\<exists>H. holders H (sy_tasks \<sigma>) (sy_shared \<sigma>))"

lemma final_mono: "prefix ids ids' \<Longrightarrow> final H ids a \<Longrightarrow> final H ids' a"
  by (simp add: final_def)

lemma oinv_new: "oinv (new_system sid x)"
proof -
  have "\<not> taken (sy_shared (new_system sid x)) k" for k
    by (cases k; simp add: new_system_def) (metis lock.exhaust lock_held.simps list.size(3) not_less_zero system.select_convs(1) shared.select_convs)
  then show ?thesis
    by (auto simp: oinv_def holders_def shinv_def points_def ids_of_def new_system_def intro!: exI [of _ "\<lambda>i. {}"])
qed

lemma oinv_task:
  assumes "oinv \<sigma>" and "disc (guarded og) final {} (ids_of (sy_shared \<sigma>)) t"
  shows "oinv (\<sigma>\<lparr>sy_tasks := sy_tasks \<sigma> @ [(og, t)]\<rparr>)"
proof -
  from assms(1) obtain H where s: "shinv (sy_shared \<sigma>)" and H: "holders H (sy_tasks \<sigma>) (sy_shared \<sigma>)" by (auto simp: oinv_def)
  have e: "H (length (sy_tasks \<sigma>)) = {}" using H by (simp add: holders_def)
  have "holders H (sy_tasks \<sigma> @ [(og, t)]) (sy_shared \<sigma>)"
    using H assms(2) e by (auto simp: holders_def nth_append less_Suc_eq with_mu_def)
  with s show ?thesis by (auto simp: oinv_def)
qed

lemma oinv_forward:
  assumes "oinv \<sigma>" and "sh_events (sy_shared \<sigma>) = e # es"
  shows "oinv (\<sigma>\<lparr>sy_shared := (sy_shared \<sigma>)\<lparr>sh_events := es, sh_published := ps\<rparr>\<rparr>)"
proof -
  have ids: "ids_of ((sy_shared \<sigma>)\<lparr>sh_events := es, sh_published := ps\<rparr>) = ids_of (sy_shared \<sigma>)" by (simp add: ids_of_def)
  from assms(1) obtain H where s: "shinv (sy_shared \<sigma>)" and H: "holders H (sy_tasks \<sigma>) (sy_shared \<sigma>)" by (auto simp: oinv_def)
  from H have "holders H (sy_tasks \<sigma>) ((sy_shared \<sigma>)\<lparr>sh_events := es, sh_published := ps\<rparr>)"
    by (simp add: holders_def ids taken_same)
  moreover have "shinv ((sy_shared \<sigma>)\<lparr>sh_events := es, sh_published := ps\<rparr>)"
    using s assms(2) unfolding shinv_def ids by simp
  ultimately show ?thesis by (auto simp: oinv_def)
qed

lemma oinv_outside:
  assumes "oinv \<sigma>"
  shows "oinv (\<sigma>\<lparr>sy_shared := (sy_shared \<sigma>)\<lparr>sh_ext := y\<rparr>\<rparr>)"
  using assms by (auto simp: oinv_def holders_def ids_same taken_same shinv_same)

lemma oinv_act:
  assumes "oinv \<sigma>" and i: "i < length (sy_tasks \<sigma>)" "sy_tasks \<sigma> ! i = (og, t)"
    and step: "tstep t (sy_shared \<sigma>) = (Ret t', s')"
  shows "oinv (\<sigma>\<lparr>sy_shared := s', sy_tasks := (sy_tasks \<sigma>)[i := (og, t')]\<rparr>)"
proof -
  let ?s = "sy_shared \<sigma>"
  from assms(1) obtain H where s: "shinv ?s" and H: "holders H (sy_tasks \<sigma>) (sy_shared \<sigma>)" by (auto simp: oinv_def)
  from H i have d: "disc (guarded og) final (H i) (ids_of ?s) t" and m: "with_mu (guarded og) (H i)"
    and have_: "\<forall>k\<in>H i. taken ?s k" by (auto simp: holders_def)
  from task_step [OF d s have_ m step] obtain K where d': "disc (guarded og) final K (ids_of s') t'"
    and p: "prefix (ids_of ?s) (ids_of s')" and s': "shinv s'" and m': "with_mu (guarded og) K"
    and pass: "passes (H i) K ?s s'" by blast
  let ?ts = "(sy_tasks \<sigma>)[i := (og, t')]"
  have a: "\<forall>j<length ?ts. disc (guarded (fst (?ts ! j))) final ((H(i := K)) j) (ids_of s') (snd (?ts ! j)) \<and>
      with_mu (guarded (fst (?ts ! j))) ((H(i := K)) j)"
  proof (intro allI impI)
    fix j assume "j < length ?ts"
    with H d' m' i p show "disc (guarded (fst (?ts ! j))) final ((H(i := K)) j) (ids_of s') (snd (?ts ! j)) \<and>
      with_mu (guarded (fst (?ts ! j))) ((H(i := K)) j)"
      by (cases "j = i") (auto simp: holders_def intro: disc_mono [OF _ p final_mono])
  qed
  have b: "\<forall>j l k. k \<in> (H(i := K)) j \<longrightarrow> k \<in> (H(i := K)) l \<longrightarrow> j = l"
  proof -
    have one: "\<forall>j l k. k \<in> H j \<longrightarrow> k \<in> H l \<longrightarrow> j = l" and others: "\<forall>j k. k \<in> H j \<longrightarrow> taken ?s k"
      using H by (auto simp: holders_def) (metis empty_iff not_less)
    have "j = i" if "k \<in> K" "k \<in> H j" for j k
      using that pass one others unfolding passes_def by metis
    with one show ?thesis by (simp add: fun_upd_def)
  qed
  have c: "\<forall>k. taken s' k \<longleftrightarrow> (\<exists>j<length ?ts. k \<in> (H(i := K)) j)"
  proof
    fix k
    from H have old: "taken ?s k \<longleftrightarrow> (\<exists>j<length (sy_tasks \<sigma>). k \<in> H j)"
      and one: "\<And>j. k \<in> H j \<Longrightarrow> k \<in> H i \<Longrightarrow> j = i" by (auto simp: holders_def)
    from pass have "taken s' k \<longleftrightarrow> k \<in> K \<or> taken ?s k \<and> k \<notin> H i" by (simp add: passes_def)
    also have "\<dots> \<longleftrightarrow> k \<in> K \<or> (\<exists>j<length (sy_tasks \<sigma>). j \<noteq> i \<and> k \<in> H j)" using old one i(1) by blast
    also have "\<dots> \<longleftrightarrow> (\<exists>j<length ?ts. k \<in> (H(i := K)) j)" using i(1) by auto
    finally show "taken s' k \<longleftrightarrow> (\<exists>j<length ?ts. k \<in> (H(i := K)) j)" .
  qed
  have "\<forall>j\<ge>length ?ts. (H(i := K)) j = {}" using H i(1) by (auto simp: holders_def)
  with a b c have "holders (H(i := K)) ?ts s'" unfolding holders_def by (intro conjI)
  with s' show ?thesis by (auto simp: oinv_def)
qed

lemma oinv_step: "oinv \<sigma> \<Longrightarrow> sys_step P \<sigma> \<tau> \<Longrightarrow> oinv \<tau>"
proof (erule sys_step_cases)
  fix ord pord :: "(string \<times> nat) list \<Rightarrow> (string \<times> nat) list" and pid status
  assume "oinv \<sigma>" and "\<And>xs. mset (ord xs) = mset xs"
    and \<tau>: "\<tau> = \<sigma>\<lparr>sy_tasks := sy_tasks \<sigma> @ [(FromExits, t_exit P ord pord pid status)]\<rparr>"
  show "oinv \<tau>" unfolding \<tau>
    by (rule oinv_task [OF \<open>oinv \<sigma>\<close>]) (simp add: disc_exit [OF \<open>\<And>xs. mset (ord xs) = mset xs\<close>])
qed (auto intro: oinv_task disc_serve oinv_forward oinv_outside oinv_act)

interpretation sy: step_invariant "\<lambda>\<sigma>. \<sigma> = new_system sid x" "sys_step P" oinv for sid x P
  by unfold_locales (auto intro: oinv_new oinv_step)

lemma sy_reach: "(sys_step P)\<^sup>*\<^sup>* (new_system sid x) \<sigma> \<Longrightarrow> oinv \<sigma>"
  by (rule sy.inv_reach [OF refl])

subsection \<open>What every interleaving guarantees\<close>

lemma unfinished_holder: "disc g final H ids t \<Longrightarrow> k \<in> H \<Longrightarrow> finished t \<Longrightarrow> H = {Holds Mu, Closed}"
  by (cases t) (auto simp: finished_def disc_simps final_def)

lemma idle_free:
  assumes "oinv \<sigma>" and fin: "list_all (\<lambda>(og, t). finished t) (sy_tasks \<sigma>)"
  defines "s \<equiv> sy_shared \<sigma>"
  shows "sh_mu s = sh_eventsClosed s" and "\<not> sh_sendMu s" and "\<not> sh_writing s" and "list_all (\<lambda>c. \<not> ct_mu c) (sh_objs s)"
proof -
  from assms(1) obtain H where H: "holders H (sy_tasks \<sigma>) s" by (auto simp: oinv_def s_def)
  have only: "k = Holds Mu \<or> k = Closed" "taken s (Holds Mu)" "taken s Closed" if k: "taken s k" for k
  proof -
    from H k obtain j where j: "j < length (sy_tasks \<sigma>)" "k \<in> H j" by (auto simp: holders_def)
    from H j have "disc (guarded (fst (sy_tasks \<sigma> ! j))) final (H j) (ids_of s) (snd (sy_tasks \<sigma> ! j))"
      by (simp add: holders_def)
    moreover have "finished (snd (sy_tasks \<sigma> ! j))" using fin j(1) by (simp add: list_all_length split_beta)
    ultimately have "H j = {Holds Mu, Closed}" using j(2) unfinished_holder by blast
    with j H show "k = Holds Mu \<or> k = Closed" "taken s (Holds Mu)" "taken s Closed"
      unfolding holders_def by blast+
  qed
  show "sh_mu s = sh_eventsClosed s" using only [of "Holds Mu"] only [of Closed] by auto
  show "\<not> sh_sendMu s" using only(1) [of "Holds SendMu"] by auto
  show "\<not> sh_writing s" using only(1) [of Writing] by auto
  show "list_all (\<lambda>c. \<not> ct_mu c) (sh_objs s)" using only(1) [of "Holds (CtMu a)" for a] by (auto simp: list_all_length)
qed

text \<open>C34: in every interleaving of requests, exits and the forwarding of events the map leads from
  each id to a container of that id, which has its first process and no other, and at most 128
  events wait. When no request is in progress, every mutex is free, and no write to the map is
  going on, except that the lock of the containers is held for ever once the service has shut down.\<close>

theorem overlap_invariant:
  assumes "(sys_step P)\<^sup>*\<^sup>* (new_system sid x) \<sigma>"
  defines "s \<equiv> sy_shared \<sigma>"
  shows "distinct (map fst (sh_containers s)) \<and>
    (\<forall>(cid, a)\<in>set (sh_containers s). a < length (sh_objs s) \<and> ct_ID (sh_objs s ! a) = cid \<and>
       ct_process (sh_objs s ! a) \<noteq> None \<and> ct_processes (sh_objs s ! a) = []) \<and>
    length (sh_events s) \<le> 128 \<and>
    (list_all (\<lambda>(og, t). finished t) (sy_tasks \<sigma>) \<longrightarrow> sh_mu s = sh_eventsClosed s \<and> \<not> sh_sendMu s \<and>
       \<not> sh_writing s \<and> list_all (\<lambda>c. \<not> ct_mu c) (sh_objs s))"
  using sy_reach [OF assms(1)] idle_free [OF sy_reach [OF assms(1)]]
  by (auto simp: s_def oinv_def shinv_def points_def ids_of_def list_all_length made_def eventsCapacity_def)

text \<open>C35: what can make the shim panic, in every interleaving: a call of the process package that
  panics itself, options of a type that are none, an event sent after the service has shut down,
  or accesses to the map of containers of which one belongs to a \<open>Create\<close> or to an exit, which
  do not take its lock. No mutex is unlocked that is not locked, the channel is not closed
  twice, and no container without a process is asked for it.\<close>

theorem overlap_panics:
  assumes "(sys_step P)\<^sup>*\<^sup>* (new_system sid x) \<sigma>" and "(og, t) \<in> set (sy_tasks \<sigma>)"
    and "tstep t (sy_shared \<sigma>) = (Panic msg, s')"
  shows "(\<exists>f. t = Outside f \<and> fst (f (sh_ext (sy_shared \<sigma>))) = Panic msg) \<or>
    t = Die ''interface conversion'' \<or>
    (\<exists>evt u. t = Send evt u) \<and> sh_eventsClosed (sy_shared \<sigma>) \<or>
    ((\<exists>k. t = Map_Read k) \<or> (\<exists>u. t = Begin_Write u)) \<and> sh_writing (sy_shared \<sigma>) \<and>
      (\<not> guarded og \<or> (\<exists>(og', u)\<in>set (sy_tasks \<sigma>). \<not> guarded og' \<and> \<not> finished u))"
proof -
  let ?s = "sy_shared \<sigma>"
  from sy_reach [OF assms(1)] obtain H where i: "shinv ?s" and H: "holders H (sy_tasks \<sigma>) ?s" by (auto simp: oinv_def)
  from assms(2) obtain j where j: "j < length (sy_tasks \<sigma>)" "sy_tasks \<sigma> ! j = (og, t)" by (auto simp: in_set_conv_nth)
  with H have d: "disc (guarded og) final (H j) (ids_of ?s) t" and m: "with_mu (guarded og) (H j)"
    and have_: "\<And>k. k \<in> H j \<Longrightarrow> taken ?s k" by (auto simp: holders_def)
  have race: "\<not> guarded og \<or> (\<exists>(og', u)\<in>set (sy_tasks \<sigma>). \<not> guarded og' \<and> \<not> finished u)"
    if "sh_writing ?s" and mu: "guarded og \<Longrightarrow> Holds Mu \<in> H j \<and> Writing \<notin> H j"
  proof -
    from that(1) H obtain l where l: "l < length (sy_tasks \<sigma>)" "Writing \<in> H l"
      unfolding holders_def by (metis taken.simps(2))
    obtain og' u where u: "sy_tasks \<sigma> ! l = (og', u)" by fastforce
    with H l have d': "disc (guarded og') final (H l) (ids_of ?s) u" and m': "with_mu (guarded og') (H l)"
      by (auto simp: holders_def)
    have "\<not> finished u" using unfinished_holder [OF d' l(2)] l(2) by auto
    moreover have "\<not> guarded og'" if "guarded og"
    proof
      assume "guarded og'"
      with m' l have "Holds Mu \<in> H l" by (simp add: with_mu_def)
      with mu that H have "l = j" unfolding holders_def by blast
      with mu that l show False by simp
    qed
    moreover have "(og', u) \<in> set (sy_tasks \<sigma>)" using l u nth_mem by metis
    ultimately show ?thesis by blast
  qed
  have closed: "\<not> sh_eventsClosed ?s" if "Holds Mu \<in> H j" "Closed \<notin> H j"
  proof
    assume "sh_eventsClosed ?s"
    with H obtain l where l: "l < length (sy_tasks \<sigma>)" "Closed \<in> H l"
      unfolding holders_def by (metis taken.simps(3))
    with H have "Holds Mu \<in> H l" by (auto simp: holders_def with_mu_def)
    with H that l show False unfolding holders_def by blast
  qed
  from assms(3) d show ?thesis
  proof (cases t)
    case (Unlock l u)
    with d have_ have "lock_held ?s l" by (auto simp: disc_simps dest: have_)
    with Unlock assms(3) show ?thesis by simp
  next
    case (Close u)
    with d closed assms(3) show ?thesis by (auto simp: disc_simps split: if_splits)
  next
    case (Load a k)
    with d assms(3) show ?thesis by (auto simp: disc_simps ids_of_def split: if_splits)
  next
    case (Map_Read k)
    with assms(3) have w: "sh_writing ?s" by (auto split: if_splits)
    from d Map_Read have "guarded og \<Longrightarrow> Holds Mu \<in> H j \<and> Writing \<notin> H j" by (simp add: disc_simps)
    from race [OF w this] w Map_Read show ?thesis by simp
  next
    case (Begin_Write u)
    with assms(3) have w: "sh_writing ?s" by (auto split: if_splits)
    from d Begin_Write have "guarded og \<Longrightarrow> Holds Mu \<in> H j \<and> Writing \<notin> H j" by (simp add: disc_simps)
    from race [OF w this] w Begin_Write show ?thesis by simp
  qed (auto simp: disc_simps split: if_splits prod.splits)
qed

text \<open>A system in which nothing can go on by itself: no task can act and no event can be forwarded.\<close>

definition stuck :: "'x system \<Rightarrow> bool" where
  "stuck \<sigma> = (sh_events (sy_shared \<sigma>) = [] \<and>
     list_all (\<lambda>(og, t). fst (tstep t (sy_shared \<sigma>)) = Hang) (sy_tasks \<sigma>))"

definition waits_outside :: "'x shared \<Rightarrow> ('x, 'a) thread \<Rightarrow> bool" where
  "waits_outside s t \<longleftrightarrow> (\<exists>f. t = Outside f \<and> fst (f (sh_ext s)) = Hang)"

lemma blocked:
  assumes "disc g final H ids t" and "fst (tstep t s) = Hang" and "sh_events s = []" and "\<not> sh_eventsClosed s"
    and "\<And>k. k \<in> H \<Longrightarrow> taken s k"
  obtains (fin) "finished t" "H = {}" | (outside) "waits_outside s t" "H \<subseteq> {Holds SendMu}"
  | (lock) l u where "t = Lock l u" "taken s (Holds l)" "can_lock l H ids"
  using assms(1-4) assms(5) [of Closed]
  by (cases t) (auto simp: disc_simps final_def finished_def waits_outside_def eventsCapacity_def
      split: if_splits prod.splits)

text \<open>C36: before the service is shut down, requests and exits cannot block one another for good: when
  nothing can go on, every task that has not finished waits for a call of the process package,
  or for the lock of the events, which a task has that waits for such a call.\<close>

theorem overlap_progress:
  assumes "(sys_step P)\<^sup>*\<^sup>* (new_system sid x) \<sigma>" and "stuck \<sigma>" and "\<not> sh_eventsClosed (sy_shared \<sigma>)"
    and "(og, t) \<in> set (sy_tasks \<sigma>)" and "\<not> finished t"
  shows "waits_outside (sy_shared \<sigma>) t \<or>
    (\<exists>u. t = Lock SendMu u) \<and> (\<exists>(og', u)\<in>set (sy_tasks \<sigma>). waits_outside (sy_shared \<sigma>) u)"
proof -
  let ?s = "sy_shared \<sigma>"
  from sy_reach [OF assms(1)] obtain H where H: "holders H (sy_tasks \<sigma>) ?s" by (auto simp: oinv_def)
  have pos: "finished (snd (sy_tasks \<sigma> ! j)) \<and> H j = {} \<or>
      waits_outside ?s (snd (sy_tasks \<sigma> ! j)) \<and> H j \<subseteq> {Holds SendMu} \<or>
      (\<exists>l u. snd (sy_tasks \<sigma> ! j) = Lock l u \<and> taken ?s (Holds l) \<and> can_lock l (H j) (ids_of ?s))"
    if j: "j < length (sy_tasks \<sigma>)" for j
  proof -
    from H j have d: "disc (guarded (fst (sy_tasks \<sigma> ! j))) final (H j) (ids_of ?s) (snd (sy_tasks \<sigma> ! j))"
      and h: "\<And>k. k \<in> H j \<Longrightarrow> taken ?s k" by (auto simp: holders_def)
    from assms(2) j have "fst (tstep (snd (sy_tasks \<sigma> ! j)) ?s) = Hang" "sh_events ?s = []"
      by (auto simp: stuck_def list_all_length split_beta)
    from blocked [OF d this assms(3) h] show ?thesis by metis
  qed
  have holder: "\<exists>j<length (sy_tasks \<sigma>). k \<in> H j" if "taken ?s k" for k using H that by (auto simp: holders_def)
  have free: "\<not> taken ?s (Holds Mu) \<and> \<not> taken ?s (Holds (CtMu a))" for a
  proof (intro conjI notI)
    assume "taken ?s (Holds Mu)"
    with holder obtain j where "j < length (sy_tasks \<sigma>)" "Holds Mu \<in> H j" by blast
    with pos [of j] show False by (auto elim!: can_lock.elims)
  next
    assume "taken ?s (Holds (CtMu a))"
    with holder obtain j where "j < length (sy_tasks \<sigma>)" "Holds (CtMu a) \<in> H j" by blast
    with pos [of j] show False by (auto elim!: can_lock.elims)
  qed
  have send: "\<exists>(og', u)\<in>set (sy_tasks \<sigma>). waits_outside ?s u" if sm: "taken ?s (Holds SendMu)"
  proof -
    from holder [OF sm] obtain j where j: "j < length (sy_tasks \<sigma>)" "Holds SendMu \<in> H j" by blast
    with pos [of j] free have "waits_outside ?s (snd (sy_tasks \<sigma> ! j))" by (auto elim!: can_lock.elims)
    with j show ?thesis by (intro bexI [of _ "sy_tasks \<sigma> ! j"]) (simp_all add: split_beta)
  qed
  from assms(4) obtain j where j: "j < length (sy_tasks \<sigma>)" "sy_tasks \<sigma> ! j = (og, t)" by (auto simp: in_set_conv_nth)
  from pos [OF j(1)] j(2) assms(5) consider "waits_outside ?s t"
    | l u where "t = Lock l u" "taken ?s (Holds l)" by auto
  then show ?thesis
  proof cases
    case 2
    with free have "l = SendMu" by (cases l) auto
    with 2 send show ?thesis by blast
  qed blast
qed

subsection \<open>The order of the events\<close>

definition sent :: "'x shared \<Rightarrow> (topic \<times> event) list" where
  "sent s = sh_published s @ map (\<lambda>e. (getTopic e, e)) (sh_events s)"

lemma tstep_sent: "tstep t s = (Ret t', s') \<Longrightarrow> prefix (sent s) (sent s')"
proof (cases t)
  case (Lock l u)
  assume "tstep t s = (Ret t', s')"
  with Lock show ?thesis by (cases l) (auto simp: sent_def split: if_splits)
next
  case (Unlock l u)
  assume "tstep t s = (Ret t', s')"
  with Unlock show ?thesis by (cases l) (auto simp: sent_def split: if_splits)
qed (auto simp: sent_def split: if_splits prod.splits)


end
