(* ===== verification/Shim_Alone.thy ===== *)
theory Shim_Alone
  imports Shim_Interleavings
begin

text \<open>
  A request that nothing overlaps. Taken one after the other, the actions of its thread do what
  the sequential model of the request (theory \<open>Shim_Service\<close>) says, with the containers read
  through the pointers of the map: so the sequential model describes every run of the shim in
  which requests come one after the other.
\<close>

subsection \<open>Running a thread to its end\<close>

primrec run :: "('x, 'a) thread \<Rightarrow> ('x shared, 'a) go" where
  "run (Fin a) = ret a"
| "run (Die msg) = go_panic msg"
| "run (Lock l t) = (\<lambda>s. if lock_held s l then (Hang, s) else run t (set_lock l True s))"
| "run (Unlock l t) = (\<lambda>s. if lock_held s l then run t (set_lock l False s)
     else (Panic ''unlock of unlocked mutex'', s))"
| "run (Outside f) = (\<lambda>s. case map_prod (map_outcome run) id (f (sh_ext s)) of
      (Ret g, e) \<Rightarrow> g (s\<lparr>sh_ext := e\<rparr>)
    | (Panic msg, e) \<Rightarrow> (Panic msg, s\<lparr>sh_ext := e\<rparr>)
    | (Hang, e) \<Rightarrow> (Hang, s\<lparr>sh_ext := e\<rparr>))"
| "run (Ask f) = (\<lambda>s. run (f (sh_ext s)) s)"
| "run (Platform f) = (\<lambda>s. run (f (sh_platform s)) s)"
| "run (Map_Read f) = (\<lambda>s. if sh_writing s then (Panic ''concurrent map access'', s) else run (f (sh_containers s)) s)"
| "run (Begin_Write t) = (\<lambda>s. if sh_writing s then (Panic ''concurrent map access'', s) else run t (s\<lparr>sh_writing := True\<rparr>))"
| "run (End_Write u t) = (\<lambda>s. run t (s\<lparr>sh_writing := False, sh_containers := apply_update u (sh_containers s)\<rparr>))"
| "run (New_Object c f) = (\<lambda>s. run (f (length (sh_objs s))) (s\<lparr>sh_objs := sh_objs s @ [c]\<rparr>))"
| "run (Load a f) = (\<lambda>s. if a < length (sh_objs s) then run (f (sh_objs s ! a)) s else (Panic ''invalid address'', s))"
| "run (Drop_Process a eid t) = (\<lambda>s. run t (s\<lparr>sh_objs := (sh_objs s)[a := (sh_objs s ! a)
     \<lparr>ct_processes := AList.delete eid (ct_processes (sh_objs s ! a))\<rparr>]\<rparr>))"
| "run (Send evt t) = (\<lambda>s. if sh_eventsClosed s then (Panic ''send on closed channel'', s)
     else if eventsCapacity \<le> length (sh_events s) then (Hang, s)
     else run t (s\<lparr>sh_events := sh_events s @ [evt]\<rparr>))"
| "run (Cancel t) = (\<lambda>s. run t (s\<lparr>sh_cancelled := True\<rparr>))"
| "run (Close t) = (\<lambda>s. if sh_eventsClosed s then (Panic ''close of closed channel'', s)
     else run t (s\<lparr>sh_eventsClosed := True\<rparr>))"

text \<open>To run a thread is to take its first action and run the rest.\<close>

lemma run_tstep:
  "\<not> finished t \<Longrightarrow> run t s = bnd (tstep t) run s"
  by (cases t) (auto simp: finished_def bnd_def fun_eq_iff split: prod.splits outcome.splits)

lemma run_tbnd: "run (tbnd t k) = bnd (run t) (\<lambda>a. run (k a))"
proof (induction t)
  case (Outside f)
  have step: "run (tbnd t k) = bnd (run t) (\<lambda>a. run (k a))" if "f x = (Ret t, y)" for x t y
    by (rule Outside) (use that in \<open>auto intro: rangeI [of f x]\<close>)
  show ?case
  proof
    fix s :: "'a shared"
    obtain r e where "f (sh_ext s) = (r, e)" by (metis surj_pair)
    with step show "run (tbnd (Outside f) k) s = bnd (run (Outside f)) (\<lambda>a. run (k a)) s"
      by (cases r) (auto simp: bnd_def)
  qed
qed (auto simp: bnd_def fun_eq_iff)

lemma run_steps:
  assumes "run t s = (Ret a, s')" and "i < length ts"
  shows "(sys_step P)\<^sup>*\<^sup>* \<lparr>sy_shared = s, sy_tasks = ts[i := (og, t)]\<rparr> \<lparr>sy_shared = s', sy_tasks = ts[i := (og, Fin a)]\<rparr>"
proof -
  have act: "(sys_step P)\<^sup>*\<^sup>* \<lparr>sy_shared = s, sy_tasks = ts[i := (og, t)]\<rparr> \<lparr>sy_shared = s', sy_tasks = ts[i := (og, Fin a)]\<rparr>"
    if "tstep t s = (Ret t', v)"
      and "(sys_step P)\<^sup>*\<^sup>* \<lparr>sy_shared = v, sy_tasks = ts[i := (og, t')]\<rparr> \<lparr>sy_shared = s', sy_tasks = ts[i := (og, Fin a)]\<rparr>"
    for t t' s v
    using acts [of i "\<lparr>sy_shared = s, sy_tasks = ts[i := (og, t)]\<rparr>" og t t' v P] that assms(2)
    by (auto intro: converse_rtranclp_into_rtranclp)
  show ?thesis
    using assms(1)
  proof (induction t arbitrary: s)
    case (Outside f)
    from Outside.prems obtain t e where f: "f (sh_ext s) = (Ret t, e)" and r: "run t (s\<lparr>sh_ext := e\<rparr>) = (Ret a, s')"
      by (cases "f (sh_ext s)"; cases "fst (f (sh_ext s))") auto
    have "(sys_step P)\<^sup>*\<^sup>* \<lparr>sy_shared = s\<lparr>sh_ext := e\<rparr>, sy_tasks = ts[i := (og, t)]\<rparr> \<lparr>sy_shared = s', sy_tasks = ts[i := (og, Fin a)]\<rparr>"
      by (rule Outside.IH) (use f r in \<open>auto intro: rangeI [of f "sh_ext s"]\<close>)
    then show ?case by (rule act [rotated]) (simp add: f)
  qed (auto intro: act split: if_splits)
qed

subsection \<open>The view of the sequential model\<close>

definition view :: "'x shared \<Rightarrow> 'x service" where
  "view s = \<lparr>sv_mu = sh_mu s, sv_sendMu = sh_sendMu s, sv_events = sh_events s, sv_eventsClosed = sh_eventsClosed s,
     sv_platform = sh_platform s, sv_id = sh_id s,
     sv_containers = map (\<lambda>(cid, a). (cid, sh_objs s ! a)) (sh_containers s),
     sv_cancelled = sh_cancelled s, sv_published = sh_published s, sv_ext = sh_ext s\<rparr>"

lemma view_simps [simp]:
  "sv_mu (view s) = sh_mu s" "sv_sendMu (view s) = sh_sendMu s" "sv_events (view s) = sh_events s"
  "sv_eventsClosed (view s) = sh_eventsClosed s" "sv_platform (view s) = sh_platform s" "sv_ext (view s) = sh_ext s"
  "sv_containers (view s) = map (\<lambda>(cid, a). (cid, sh_objs s ! a)) (sh_containers s)"
  "(view s)\<lparr>sv_ext := e\<rparr> = view (s\<lparr>sh_ext := e\<rparr>)" "(view s)\<lparr>sv_mu := b\<rparr> = view (s\<lparr>sh_mu := b\<rparr>)"
  "(view s)\<lparr>sv_sendMu := b\<rparr> = view (s\<lparr>sh_sendMu := b\<rparr>)" "(view s)\<lparr>sv_events := es\<rparr> = view (s\<lparr>sh_events := es\<rparr>)"
  "(view s)\<lparr>sv_cancelled := b\<rparr> = view (s\<lparr>sh_cancelled := b\<rparr>)"
  "(view s)\<lparr>sv_eventsClosed := b\<rparr> = view (s\<lparr>sh_eventsClosed := b\<rparr>)"
  by (simp_all add: view_def)

text \<open>A state in which no action is half done.\<close>

definition calm :: "'x shared \<Rightarrow> bool" where
  "calm s \<longleftrightarrow> shinv s \<and> \<not> sh_writing s \<and> list_all (\<lambda>c. \<not> ct_mu c) (sh_objs s)"

lemma calm_ext [simp]: "calm (s\<lparr>sh_ext := e\<rparr>) = calm s" "calm (s\<lparr>sh_sendMu := b\<rparr>) = calm s"
  by (simp_all add: calm_def shinv_def ids_same)

text \<open>A thread alone does what a computation of the sequential model does.\<close>

definition alone :: "('x shared, 'a) go \<Rightarrow> ('x, 'a) svc \<Rightarrow> 'x shared \<Rightarrow> bool" where
  "alone g m s \<longleftrightarrow> m (view s) = map_prod id view (g s)"

text \<open>Only calls of the process package, whose effect is on its state.\<close>

definition ext_like :: "('x, 'a) thread \<Rightarrow> ('x, 'a) svc \<Rightarrow> bool" where
  "ext_like t m \<longleftrightarrow> (\<forall>s. \<exists>r e. run t s = (r, s\<lparr>sh_ext := e\<rparr>) \<and> m (view s) = (r, view (s\<lparr>sh_ext := e\<rparr>)))"

lemma ext_likeE:
  assumes "ext_like t m"
  obtains r e where "run t s = (r, s\<lparr>sh_ext := e\<rparr>)" and "m (view s) = (r, view (s\<lparr>sh_ext := e\<rparr>))"
  using assms unfolding ext_like_def by blast

lemma same_ext: "s\<lparr>sh_ext := sh_ext s\<rparr> = (s :: 'x shared)"
  by simp

lemma el_pure: "run t = ret x \<Longrightarrow> ext_like t (ret x)" "run t = go_panic msg \<Longrightarrow> ext_like t (go_panic msg)"
  unfolding ext_like_def by (metis go_panic_apply ret_apply same_ext)+

lemma el_Fin: "ext_like (Fin x) (ret x)" and el_Die: "ext_like (Die msg) (go_panic msg)"
  by (simp_all add: el_pure)

lemma el_ext: "ext_like (t_ext f) (on_ext f)"
  unfolding ext_like_def
proof
  fix s :: "'a shared"
  obtain r e where f: "f (sh_ext s) = (r, e)" by (metis surj_pair)
  then have "run (t_ext f) s = (r, s\<lparr>sh_ext := e\<rparr>)" by (cases r) (simp_all add: t_ext_def)
  with f show "\<exists>r e. run (t_ext f) s = (r, s\<lparr>sh_ext := e\<rparr>) \<and> on_ext f (view s) = (r, view (s\<lparr>sh_ext := e\<rparr>))"
    by (intro exI [of _ r] exI [of _ e]) (simp add: on_ext_def)
qed

lemma el_ask: "ext_like (t_ask f) (ask f)"
  unfolding ext_like_def
proof
  fix s :: "'a shared"
  show "\<exists>r e. run (t_ask f) s = (r, s\<lparr>sh_ext := e\<rparr>) \<and> ask f (view s) = (r, view (s\<lparr>sh_ext := e\<rparr>))"
    by (intro exI [of _ "Ret (f (sh_ext s))"] exI [of _ "sh_ext s"]) (simp add: t_ask_def)
qed

lemma el_bnd:
  assumes "ext_like t m" and "\<And>x. ext_like (k x) (h x)"
  shows "ext_like (tbnd t k) (bnd m h)"
  unfolding ext_like_def run_tbnd
proof
  fix s
  from assms(1) obtain r e where t: "run t s = (r, s\<lparr>sh_ext := e\<rparr>)" "m (view s) = (r, view (s\<lparr>sh_ext := e\<rparr>))"
    by (rule ext_likeE)
  show "\<exists>r e. bnd (run t) (\<lambda>a. run (k a)) s = (r, s\<lparr>sh_ext := e\<rparr>) \<and> bnd m h (view s) = (r, view (s\<lparr>sh_ext := e\<rparr>))"
  proof (cases r)
    case (Ret x)
    from assms(2) obtain r' e' where "run (k x) (s\<lparr>sh_ext := e\<rparr>) = (r', (s\<lparr>sh_ext := e\<rparr>)\<lparr>sh_ext := e'\<rparr>)"
      "h x (view (s\<lparr>sh_ext := e\<rparr>)) = (r', view ((s\<lparr>sh_ext := e\<rparr>)\<lparr>sh_ext := e'\<rparr>))" by (rule ext_likeE)
    with t Ret show ?thesis by (intro exI [of _ r'] exI [of _ e']) (simp add: bnd_def)
  next
    case (Panic msg)
    with t show ?thesis by (intro exI [of _ "Panic msg"] exI [of _ e]) (simp add: bnd_def)
  next
    case Hang
    with t show ?thesis by (intro exI [of _ Hang] exI [of _ e]) (simp add: bnd_def)
  qed
qed

lemma al_ext_like:
  assumes "ext_like t m" and "\<And>x e. alone (run (k x)) (h x) (s\<lparr>sh_ext := e\<rparr>)"
  shows "alone (run (tbnd t k)) (bnd m h) s"
proof -
  from assms(1) obtain r e where t: "run t s = (r, s\<lparr>sh_ext := e\<rparr>)" "m (view s) = (r, view (s\<lparr>sh_ext := e\<rparr>))"
    by (rule ext_likeE)
  then show ?thesis
    by (cases r) (use assms(2) [of _ e] in \<open>auto simp: alone_def run_tbnd bnd_def\<close>)
qed

lemmas al_ext = al_ext_like [OF el_ext] al_ext_like [OF el_ask]

lemma al_ret: "alone (run (Fin x)) (ret x) s" "alone (ret x) (ret x) s"
  by (simp_all add: alone_def)

lemma el_alone: "ext_like t m \<Longrightarrow> alone (run t) m s"
  by (erule ext_likeE [where s = s]) (simp add: alone_def)

subsection \<open>The parts\<close>

lemma calm_object: "calm s \<Longrightarrow> a < length (sh_objs s) \<Longrightarrow> \<not> ct_mu (sh_objs s ! a)"
  by (simp add: calm_def list_all_length)

lemma view_lookup: "map_of (map (\<lambda>(cid, a). (cid, g a)) m) cid = map_option g (map_of m cid)"
  by (induction m) auto

lemma calm_lookup:
  assumes "calm s" and "map_of (sh_containers s) cid = Some a"
  shows "a < length (sh_objs s) \<and> made cid (sh_objs s ! a) \<and> \<not> ct_mu (sh_objs s ! a)"
proof -
  from assms have "shinv s" and "a < length (ids_of s)" and "ids_of s ! a = cid"
    by (auto simp: calm_def shinv_def dest!: points_lookup)
  then show ?thesis using made_at [of s a] calm_object [OF assms(1), of a] by (simp add: ids_of_def)
qed

lemma al_container:
  assumes "calm s" and "\<And>err. alone (run (k (Inl err))) (h (Inl err)) s"
    and "\<And>a. a < length (sh_objs s) \<Longrightarrow> made cid (sh_objs s ! a) \<Longrightarrow> alone (run (k (Inr a))) (h (Inr (sh_objs s ! a))) s"
  shows "alone (run (tbnd (t_getContainer P cid) k)) (bnd (getContainer P cid) h) s"
proof (cases "sh_mu s")
  case True
  then show ?thesis by (simp add: alone_def t_getContainer_def getContainer_def lock_mu_def bnd_def thn_def)
next
  case False
  then have unlocked: "s\<lparr>sh_mu := False\<rparr> = s" by simp
  from assms False show ?thesis using calm_lookup [OF assms(1), of cid]
    by (auto simp: alone_def t_getContainer_def getContainer_def lock_mu_def unlock_mu_def bnd_def thn_def calm_def
        view_lookup unlocked split: option.splits)
qed

lemma al_getProcess:
  assumes "calm s" and "a < length (sh_objs s)" and "c = sh_objs s ! a"
    and "\<And>r. r = find_in P c eid \<Longrightarrow> alone (run (k r)) (h r) s"
  shows "alone (run (tbnd (t_getProcess P a eid) k)) (bnd (getProcess P c eid) h) s"
proof -
  have free: "\<not> ct_mu (sh_objs s ! a)" by (rule calm_object [OF assms(1,2)])
  then have "(sh_objs s)[a := (sh_objs s ! a)\<lparr>ct_mu := False\<rparr>] = sh_objs s"
    by (intro list_update_same_conv [THEN iffD2]) (use assms(2) in simp_all)
  then have "set_lock (CtMu a) False (set_lock (CtMu a) True s) = s" and "lock_held (set_lock (CtMu a) True s) (CtMu a)"
    and "find_in P ((sh_objs s ! a)\<lparr>ct_mu := True\<rparr>) eid = find_in P (sh_objs s ! a) eid"
    using free assms(2) by (simp_all add: find_in_def)
  with assms free show ?thesis
    by (simp add: alone_def t_getProcess_def getProcess_def bnd_def del: set_lock.simps) simp
qed

lemma al_with_container:
  assumes "calm s" and "\<And>a. a < length (sh_objs s) \<Longrightarrow> made cid (sh_objs s ! a) \<Longrightarrow> alone (run (k a)) (h (sh_objs s ! a)) s"
  shows "alone (run (t_with_container P cid k))
    (bnd (getContainer P cid) (\<lambda>r. case r of Inl err \<Rightarrow> ret (Inl err) | Inr c \<Rightarrow> h c)) s"
  unfolding t_with_container_def by (rule al_container [OF assms(1)]) (simp_all add: assms(2) al_ret)

lemma find_made: "made cid c \<Longrightarrow> find_in P c eid = (if eid = [] then Inr (the (ct_process c))
    else Inl (EWrap ''process does not exist %s'' [eid] (pk_NotFound P)))"
  by (auto simp: find_in_def made_def)

lemma al_with_process:
  assumes "calm s" and "\<And>a p. a < length (sh_objs s) \<Longrightarrow> made cid (sh_objs s ! a) \<Longrightarrow> ct_process (sh_objs s ! a) = Some p \<Longrightarrow>
      eid = [] \<Longrightarrow> alone (run (k a p)) (h (sh_objs s ! a) p) s"
  shows "alone (run (t_with_process P cid eid conv k)) (with_process P cid eid conv h) s"
  unfolding t_with_process_def with_process_def
proof (rule al_with_container [OF assms(1)])
  fix a assume a: "a < length (sh_objs s)" and m: "made cid (sh_objs s ! a)"
  show "alone (run (tbnd (t_getProcess P a eid) (\<lambda>r. case r of Inl err \<Rightarrow> Fin (Inl (conv err)) | Inr p \<Rightarrow> k a p)))
    (bnd (getProcess P (sh_objs s ! a) eid) (\<lambda>r. case r of Inl err \<Rightarrow> ret (Inl (conv err)) | Inr p \<Rightarrow> h (sh_objs s ! a) p)) s"
    by (rule al_getProcess [OF assms(1) a refl]) (use assms(2) [OF a m] m in \<open>auto simp: find_made [OF m] al_ret made_def\<close>)
qed

lemma run_ask [simp]: "run (tbnd (t_ask f) k) s = run (k (f (sh_ext s))) s" "run (t_ask f) s = (Ret (f (sh_ext s)), s)"
  by (simp_all add: t_ask_def)

lemma run_send:
  "run (tbnd (t_send evt) k) s = (if sh_eventsClosed s then (Panic ''send on closed channel'', s)
     else if eventsCapacity \<le> length (sh_events s) then (Hang, s) else run (k ()) (s\<lparr>sh_events := sh_events s @ [evt]\<rparr>))"
  by (simp add: t_send_def)

lemma run_process [simp]:
  "a < length (sh_objs s) \<Longrightarrow> ct_process (sh_objs s ! a) = Some p \<Longrightarrow> run (tbnd (t_process a) k) s = run (k p) s"
  by (simp add: t_process_def t_deref_def)

lemma al_send:
  "alone (run (k ())) h (s\<lparr>sh_events := sh_events s @ [evt]\<rparr>) \<Longrightarrow> alone (run (tbnd (t_send evt) k)) (thn (send evt) h) s"
  by (simp add: alone_def run_send send_def thn_def bnd_def)

lemma al_load: "a < length (sh_objs s) \<Longrightarrow> alone (run (f (sh_objs s ! a))) h s \<Longrightarrow> alone (run (Load a f)) h s"
  by (simp add: alone_def)

lemma al_process:
  "a < length (sh_objs s) \<Longrightarrow> made cid (sh_objs s ! a) \<Longrightarrow> c = sh_objs s ! a \<Longrightarrow>
   (\<And>p. ct_process c = Some p \<Longrightarrow> alone (run (k p)) (h p) s) \<Longrightarrow>
   alone (run (tbnd (t_process a) k)) (bnd (deref (ct_process c)) h) s"
  by (auto simp: alone_def made_def)

text \<open>Where only fields of the process are read, both sides are computed.\<close>

lemmas al_compute = alone_def run_send send_def thn_def bnd_def eventsCapacity_def

subsection \<open>The requests\<close>

lemma al_Pause: "calm s \<Longrightarrow> alone (run (t_Pause P cid)) (Pause P cid) s"
  unfolding t_Pause_def Pause_def
  by (auto intro!: al_with_container al_process al_ext simp: al_ret split: option.splits) (auto simp: al_compute)

lemma al_Resume: "calm s \<Longrightarrow> alone (run (t_Resume P cid)) (Resume P cid) s"
  unfolding t_Resume_def Resume_def
  by (auto intro!: al_with_container al_process al_ext simp: al_ret split: option.splits) (auto simp: al_compute)

lemma al_Kill: "calm s \<Longrightarrow> alone (run (t_Kill P cid eid sig every)) (Kill P cid eid sig every) s"
  unfolding t_Kill_def Kill_def
  by (auto intro!: al_with_process al_ext simp: al_ret split: option.splits)

lemma al_State: "calm s \<Longrightarrow> alone (run (t_State P cid eid)) (State P cid eid) s"
  unfolding t_State_def State_def
  by (auto intro!: al_with_process al_ext simp: al_ret split: sum.splits) (auto simp: al_compute)

lemma al_CloseIO: "calm s \<Longrightarrow> alone (run (t_CloseIO P cid eid)) (CloseIO P cid eid) s"
  unfolding t_CloseIO_def CloseIO_def
  by (auto intro!: al_with_process al_ext simp: al_ret split: option.splits)

lemma al_Wait: "calm s \<Longrightarrow> alone (run (t_Wait P cid eid)) (Wait P cid eid) s"
  unfolding t_Wait_def Wait_def thn_def
  by (auto intro!: al_with_process al_ext simp: al_ret) (auto simp: al_compute)

lemma al_Connect: "calm s \<Longrightarrow> alone (run (t_Connect P cid)) (Connect P cid) s"
  unfolding t_Connect_def Connect_def
proof (rule al_container, assumption)
  fix a assume "a < length (sh_objs s)" and "made cid (sh_objs s ! a)"
  then show "alone (run (tbnd (case Inr a of Inl err \<Rightarrow> Fin 0 | Inr a \<Rightarrow> tbnd (t_process a) (\<lambda>p. t_ask (pk_Pid P p)))
      (\<lambda>pid. t_ask (\<lambda>(x, w). Inr (u32 (w_pid w), u32 pid)))))
    (bnd (case Inr (sh_objs s ! a) of Inl err \<Rightarrow> ret 0
        | Inr container \<Rightarrow> bnd (deref (ct_process container)) (\<lambda>p. ask (pk_Pid P p)))
      (\<lambda>pid. ask (\<lambda>(x, w). Inr (u32 (w_pid w), u32 pid)))) s"
    by (auto simp: made_def t_process_def t_deref_def t_ask_def alone_def bnd_def split: prod.splits)
qed (auto simp: alone_def split: prod.splits)

lemma al_lock_send:
  "(\<not> sh_sendMu s \<Longrightarrow> alone (run t) m (s\<lparr>sh_sendMu := True\<rparr>)) \<Longrightarrow> alone (run (Lock SendMu t)) (thn lock_send m) s"
  by (auto simp: alone_def lock_send_def thn_def bnd_def)

lemma al_unlock_send:
  "sh_sendMu s \<Longrightarrow> alone (run t) m (s\<lparr>sh_sendMu := False\<rparr>) \<Longrightarrow> alone (run (Unlock SendMu t)) (thn unlock_send m) s"
  by (simp add: alone_def unlock_send_def thn_def bnd_def)

lemma al_Start: "calm s \<Longrightarrow> alone (run (t_Start P cid eid)) (Start P cid eid) s"
  unfolding t_Start_def Start_def
  by (auto intro!: al_with_container al_lock_send al_getProcess al_unlock_send al_ext simp: al_ret
      split: sum.splits option.splits) (auto simp: alone_def thn_def bnd_def unlock_send_def)

lemma map_delete: "map (\<lambda>(i, a). (i, g a)) (AList.delete cid m) = AList.delete cid (map (\<lambda>(i, a). (i, g a)) m)"
  by (induction m) auto

lemma map_update_entry: "map (\<lambda>(i, a). (i, g a)) (AList.update cid a m) = AList.update cid (g a) (map (\<lambda>(i, a). (i, g a)) m)"
  by (induction m) auto

lemma al_Delete: "calm s \<Longrightarrow> alone (run (t_Delete P cid eid)) (Delete P cid eid) s"
  unfolding t_Delete_def Delete_def
proof (rule al_with_process, assumption)
  fix a p assume s: "calm s" and a: "a < length (sh_objs s)" and m: "made cid (sh_objs s ! a)" and e: "eid = []"
  have forget: "alone (run (tbnd (t_forget P cid [] a p) (\<lambda>i. Fin (Inr i))))
      (thn (forget P cid [] (sh_objs s ! a) p) (bnd (ask (exit_info P p)) (\<lambda>i. ret (Inr i)))) (s\<lparr>sh_ext := x\<rparr>)" for x
    using s a
    by (simp add: alone_def t_forget_def forget_def t_exit_info_def exit_info_def thn_def bnd_def lock_mu_def unlock_mu_def
        calm_def send_def t_send_def t_ask_def view_def map_delete)
  show "alone (run (tbnd (t_ext (pk_Delete P p)) (\<lambda>e. case e of
         Some err \<Rightarrow> Fin (Inl (pk_ToGRPC P err))
       | None \<Rightarrow> tbnd (t_forget P cid eid a p) (\<lambda>i. Fin (Inr i)))))
    (bnd (on_ext (pk_Delete P p)) (\<lambda>e. case e of
         Some err \<Rightarrow> ret (Inl (pk_ToGRPC P err))
       | None \<Rightarrow> thn (forget P cid eid (sh_objs s ! a) p) (bnd (ask (exit_info P p)) (\<lambda>i. ret (Inr i))))) s"
    unfolding e by (rule al_ext) (auto simp: al_ret forget split: option.splits)
qed

lemma tbnd_assoc: "tbnd (tbnd t f) k = tbnd t (\<lambda>x. tbnd (f x) k)"
proof (induction t)
  case (Outside g)
  have "map_prod (map_outcome (\<lambda>t. tbnd t k)) id (map_prod (map_outcome (\<lambda>t. tbnd t f)) id (g x)) =
      map_prod (map_outcome (\<lambda>t. tbnd t (\<lambda>x. tbnd (f x) k))) id (g x)" for x
    by (cases "g x"; cases "fst (g x)") (auto intro!: Outside intro: rangeI [of g x])
  then show ?case by simp
qed auto

lemma run_pid_info: "run (t_pid_info P pid ps) s = (Ret (case List.find (\<lambda>(i, p). pk_Pid P p (sh_ext s) = uint pid) ps of
      None \<Rightarrow> Inr None
    | Some (i, p) \<Rightarrow> (case pk_MarshalDetails P (pk_PID P p (sh_ext s)) of
          Inl err \<Rightarrow> Inl (EWrap ''failed to marshal process %d info'' [itoa (uint pid)] err)
        | Inr a \<Rightarrow> Inr (Some a))), s)"
  by (induction ps) auto

lemma run_pid_details:
  "a < length (sh_objs s) \<Longrightarrow>
   run (t_pid_details P a ord pids) s = (Ret (pid_details P (sh_ext s) ord (ct_processes (sh_objs s ! a)) pids), s)"
  by (induction pids) (auto simp: run_tbnd bnd_def run_pid_info split: sum.splits option.splits)

lemma al_Pids: "calm s \<Longrightarrow> alone (run (t_Pids P ord cid)) (Pids P ord cid) s"
  unfolding t_Pids_def Pids_def
proof (rule al_with_container, assumption)
  fix a assume s: "calm s" and a: "a < length (sh_objs s)"
  show "alone (run (tbnd (t_getContainerPids P cid) (\<lambda>r. case r of
      Inl err \<Rightarrow> Fin (Inl (pk_ToGRPC P err)) | Inr pids \<Rightarrow> t_pid_details P a ord pids)))
    (bnd (getContainerPids P cid) (\<lambda>r. case r of
      Inl err \<Rightarrow> ret (Inl (pk_ToGRPC P err))
    | Inr pids \<Rightarrow> ask (\<lambda>x. pid_details P x ord (ct_processes (sh_objs s ! a)) pids))) s"
    unfolding t_getContainerPids_def getContainerPids_def t_with_process_def with_process_def t_with_container_def
      tbnd_assoc bnd_assoc
    by (auto intro!: al_container al_getProcess al_ext simp: s al_ret tbnd_assoc bnd_assoc split: sum.splits)
      (auto simp: alone_def run_pid_details a)
qed

lemma al_Shutdown: "calm s \<Longrightarrow> alone (run t_Shutdown) Shutdown s"
  by (simp add: alone_def calm_def t_Shutdown_def Shutdown_def thn_def bnd_def lock_mu_def unlock_mu_def close_events_def
      platform_Close_def)

lemma view_new: "shinv s \<Longrightarrow> view (s\<lparr>sh_objs := sh_objs s @ [c]\<rparr>) = view s"
  by (auto simp: view_def shinv_def points_def ids_of_def nth_append)

lemma al_newContainer:
  assumes s: "shinv s" and err: "\<And>err e. alone (run (k (Inl err))) (h (Inl err)) (s\<lparr>sh_ext := e\<rparr>)"
    and new: "\<And>c e. made (rq_ID r) c \<Longrightarrow> alone (run (k (Inr (length (sh_objs s))))) (h (Inr c)) (s\<lparr>sh_ext := e, sh_objs := sh_objs s @ [c]\<rparr>)"
  shows "alone (run (tbnd (t_newContainer P ns platform r) k)) (bnd (newContainer P ns platform r) h) s"
proof -
  have options: "ext_like (t_request_options P o1) (request_options P o1)" for o1
    by (auto simp: t_request_options_def request_options_def el_Fin el_Die split: option.splits sum.splits message.splits)
  have rootfs: "ext_like (t_rootfs_dir r) (rootfs_dir r)"
    by (auto simp: t_rootfs_dir_def rootfs_dir_def Let_def el_Fin intro!: el_bnd el_ext split: option.splits)
  have mounts: "ext_like (t_mount_all P ms rf) (mount_all P ms rf)" for ms rf
  proof (induction ms)
    case Nil
    show ?case unfolding t_mount_all.simps mount_all.simps by (rule el_Fin)
  next
    case (Cons m ms)
    then show ?case unfolding t_mount_all.simps mount_all.simps
      by (intro el_bnd el_ext) (auto simp: el_Fin split: option.splits)
  qed
  have made: "alone (run (New_Object \<lparr>ct_mu = False, ct_ID = rq_ID r, ct_Bundle = b, ct_process = Some p, ct_processes = []\<rparr> (\<lambda>a. k (Inr a))))
      (h (Inr \<lparr>ct_mu = False, ct_ID = rq_ID r, ct_Bundle = b, ct_process = Some p, ct_processes = []\<rparr>)) (s\<lparr>sh_ext := e\<rparr>)" for b p e
    using new [of "\<lparr>ct_mu = False, ct_ID = rq_ID r, ct_Bundle = b, ct_process = Some p, ct_processes = []\<rparr>" e] s
      view_new [of "s\<lparr>sh_ext := e\<rparr>"]
    by (simp add: alone_def made_def shinv_same)
  show ?thesis
    unfolding t_newContainer_def newContainer_def t_mount_and_create_def mount_and_create_def t_newInit_def newInit_def thn_def
    by (auto intro!: al_ext al_ext_like [OF options] al_ext_like [OF rootfs] al_ext_like [OF mounts] err err [of _ "sh_ext s", simplified] made [simplified]
        simp: tbnd_assoc bnd_assoc split: sum.splits option.splits)
qed

lemma al_Create: "calm s \<Longrightarrow> alone (run (t_Create P ns r)) (Create P ns r) s"
proof -
  assume s: "calm s"
  have announce: "alone (run (t_announce_created P r' (length (sh_objs s)))) (announce_created P r' c)
      (s\<lparr>sh_ext := e, sh_objs := sh_objs s @ [c]\<rparr>)" if "made (rq_ID r') c" for r' c e
    using s that
    by (auto simp: alone_def t_announce_created_def announce_created_def t_process_def t_deref_def t_ask_def t_send_def
        put_container_def send_def thn_def bnd_def made_def calm_def view_def map_update_entry)
  show ?thesis
  proof (cases "pk_MarshalOptions P runu_options")
    case (Inl err)
    then show ?thesis by (simp add: t_Create_def Create_def alone_def)
  next
    case (Inr a)
    have "alone (run (tbnd (t_newContainer P ns (sh_platform s) (r\<lparr>rq_Options := Some a\<rparr>)) (\<lambda>res. case res of
            Inl err \<Rightarrow> Fin (Inl err)
          | Inr c \<Rightarrow> t_announce_created P (r\<lparr>rq_Options := Some a\<rparr>) c)))
       (bnd (newContainer P ns (sh_platform s) (r\<lparr>rq_Options := Some a\<rparr>)) (\<lambda>res. case res of
            Inl err \<Rightarrow> ret (Inl err)
          | Inr container \<Rightarrow> announce_created P (r\<lparr>rq_Options := Some a\<rparr>) container)) s"
      by (rule al_newContainer) (use s in \<open>auto simp: calm_def al_ret intro!: announce\<close>)
    with Inr show ?thesis by (simp add: t_Create_def Create_def alone_def bnd_def)
  qed
qed

subsection \<open>One request, one exit\<close>

lemma al_answer: "alone (run t) m s \<Longrightarrow> alone (run (t_answer t)) (answer m) s"
  by (cases "run t s"; cases "fst (run t s)") (auto simp: alone_def t_answer_def answer_def run_tbnd bnd_def)

lemma al_done: "alone (run (Fin None)) (answer (ret (Inr x))) s"
  by (simp add: alone_def answer_def)

lemma al_serve: "calm s \<Longrightarrow> alone (run (t_serve P rq)) (serve P rq) s"
  by (cases rq; simp only: t_serve.simps serve.simps Exec_def ResizePty_def Checkpoint_def Update_def Stats_def al_done)
    (auto
      intro!: al_answer al_Create al_Start al_Delete al_State al_Pause al_Resume al_Kill al_Pids al_CloseIO al_Wait
        al_Connect al_Shutdown)

lemma idle_calm:
  assumes "oinv \<sigma>" and "list_all (\<lambda>(og, t). finished t) (sy_tasks \<sigma>)"
  shows "calm (sy_shared \<sigma>)"
  using assms(1) idle_free [OF assms] by (simp add: calm_def oinv_def)


text \<open>The same for an exit, with an order in which the sequential model's map may be enumerated.\<close>

lemma el_deref: "ext_like (t_deref p) (deref p)"
  by (cases p) (simp_all add: t_deref_def el_Fin el_Die)

lemma el_find_process: "ext_like (t_find_process P pid ps) (find_process P pid ps)"
proof (induction ps)
  case Nil
  show ?case unfolding t_find_process.simps find_process.simps by (rule el_Fin)
next
  case (Cons p ps)
  then show ?case unfolding t_find_process.simps find_process.simps
    by (intro el_bnd el_deref el_ask) (auto simp: el_Fin)
qed

lemma al_exited:
  assumes "a < length (sh_objs s)"
  shows "alone (run (t_exited P a p pid status)) (exited P (sh_objs s ! a) p pid status) s"
  unfolding t_exited_def exited_def thn_def
  by (rule al_ext) (use assms in \<open>auto simp: alone_def t_sendL_def sendL_def lock_send_def unlock_send_def send_def
    thn_def bnd_def t_ask_def\<close>)

lemma exit_alone:
  assumes s: "calm s" and ord: "\<And>xs. mset (ord xs) = mset xs"
  shows "\<exists>ord'. (\<forall>xs. mset (ord' xs) = mset xs) \<and>
    alone (run (t_checkProcesses P ord pord pid status)) (checkProcesses P ord' pord pid status) s"
proof -
  let ?g = "\<lambda>(cid, a). (cid, sh_objs s ! a)"
  let ?ord = "\<lambda>cs. if cs = map ?g (sh_containers s) then map ?g (ord (sh_containers s)) else cs"
  have perm: "\<forall>xs. mset (?ord xs) = mset xs" using ord by (simp add: mset_map)
  have valid: "a < length (sh_objs s)" if "ord (sh_containers s) = (i, a) # rest" for i a rest
  proof -
    have "(i, a) \<in> set (sh_containers s)" using that mset_eq_setD [OF ord [of "sh_containers s"]] by auto
    with s show ?thesis by (auto simp: calm_def shinv_def points_def ids_of_def)
  qed
  have "alone (run (t_checkProcesses P ord pord pid status)) (checkProcesses P ?ord pord pid status) s"
  proof (cases "ord (sh_containers s)")
    case Nil
    with s show ?thesis by (simp add: alone_def t_checkProcesses_def checkProcesses_def bnd_def calm_def)
  next
    case (Cons e rest)
    obtain i a where e: "e = (i, a)" by (cases e)
    note a = valid [OF Cons [unfolded e]]
    have "alone (run (tbnd (t_find_process P pid (container_processes pord (sh_objs s ! a)))
          (\<lambda>r. case r of Some p \<Rightarrow> t_exited P a p pid status | None \<Rightarrow> Fin ())))
        (bnd (find_process P pid (container_processes pord (sh_objs s ! a)))
          (\<lambda>r. case r of Some p \<Rightarrow> exited P (sh_objs s ! a) p pid status | None \<Rightarrow> ret ())) s"
      by (rule al_ext_like [OF el_find_process]) (use a al_exited [of a "s\<lparr>sh_ext := x\<rparr>" for x] in
        \<open>auto simp: al_ret split: option.splits\<close>)
    with s a Cons e show ?thesis
      by (simp add: alone_def t_checkProcesses_def checkProcesses_def bnd_def calm_def)
  qed
  then show ?thesis using perm by (intro exI [of _ ?ord] conjI)
qed

end
