(* ===== verification/Shim_Notify.thy ===== *)
theory Shim_Notify
  imports Shim_Reaper "HOL-Library.Multiset"
begin

text \<open>
  \<open>notify\<close> of \<open>cmd/containerd-shim-runu-v1/reaper.go\<close>: a goroutine that sends one exit to every
  subscriber and starts another round while a channel was full. Receivers, subscriptions and
  other goroutines run between its critical sections, so it is a step relation: a step is one
  critical section of the code or one operation of the environment. The lemmas say that no
  subscriber gets the exit twice, that \<open>notify\<close> is over only when every subscriber of its last
  round got it or is closed, and that it never sends on a closed channel, closes a channel twice
  or waits for its timer in vain.
\<close>

subsection \<open>Channels and the timer\<close>

text \<open>Sending is possible when there is room; sending on a closed channel is a panic.\<close>

definition chan_send :: "nat \<Rightarrow> rexit \<Rightarrow> (monitor, unit) go" where
  "chan_send c e = (\<lambda>m. case m_chans m c of
      None \<Rightarrow> (Hang, m)
    | Some ch \<Rightarrow> if ch_closed ch then (Panic ''send on closed channel'', m)
        else if bufferSize \<le> length (ch_buf ch) then (Hang, m)
        else (Ret (), m\<lparr>m_chans := (m_chans m)(c \<mapsto> ch\<lparr>ch_buf := ch_buf ch @ [e]\<rparr>)\<rparr>))"

definition chan_recv :: "nat \<Rightarrow> (monitor, rexit option) go" where
  "chan_recv c = (\<lambda>m. case m_chans m c of
      None \<Rightarrow> (Hang, m)
    | Some ch \<Rightarrow> (case ch_buf ch of
        [] \<Rightarrow> if ch_closed ch then (Ret None, m) else (Hang, m)
      | e # es \<Rightarrow> (Ret (Some e), m\<lparr>m_chans := (m_chans m)(c \<mapsto> ch\<lparr>ch_buf := es\<rparr>)\<rparr>)))"

text \<open>A timer: stopped with an empty channel, running, or expired with its tick not yet read.\<close>

datatype timer = TStopped | TRunning | TExpired

text \<open>\<open>stop\<close>: when the timer was not running any more, its tick is read unless it has been.\<close>

fun stop :: "timer \<Rightarrow> bool \<Rightarrow> timer outcome" where
  "stop TRunning recv = Ret TStopped"
| "stop TExpired recv = Ret (if recv then TStopped else TExpired)"
| "stop TStopped recv = (if recv then Hang else Ret TStopped)"

subsection \<open>One subscriber\<close>

text \<open>
  The goroutine: the monitor, its timer, the subscribers it has sent to (\<open>success\<close>, in order),
  the number of failures of the round, the subscribers of the round and those left of them, and
  whether it is over.
\<close>

record notifier =
  n_mon :: monitor
  n_timer :: timer
  n_success :: "nat list"
  n_failed :: nat
  n_round :: "nat list"
  n_todo :: "nat list option"
  n_done :: bool

text \<open>How the \<open>select\<close> ends: the send, with the timer expired before it is stopped or not, or
  the timeout.\<close>

datatype offer = Sent bool | TimedOut

definition on_monitor :: "(monitor, 'a) go \<Rightarrow> (notifier, 'a) go" where
  "on_monitor f = (\<lambda>s. case f (n_mon s) of (r, m) \<Rightarrow> (r, s\<lparr>n_mon := m\<rparr>))"

definition stop_timer :: "bool \<Rightarrow> (notifier, unit) go" where
  "stop_timer recv = (\<lambda>s. case stop (n_timer s) recv of
      Ret t \<Rightarrow> (Ret (), s\<lparr>n_timer := t\<rparr>) | Panic p \<Rightarrow> (Panic p, s) | Hang \<Rightarrow> (Hang, s))"

abbreviation set_timer :: "timer \<Rightarrow> (notifier, unit) go" where
  "set_timer t \<equiv> modify (\<lambda>s. s\<lparr>n_timer := t\<rparr>)"

fun offer_exit :: "rexit \<Rightarrow> nat \<Rightarrow> offer \<Rightarrow> (notifier, unit) go" where
  "offer_exit e c (Sent expired) =
     thn (on_monitor (chan_send c e))
     (thn (modify (\<lambda>s. s\<lparr>n_success := n_success s @ [c]\<rparr>))
     (thn (if expired then set_timer TExpired else ret ())
       (stop_timer True)))"
| "offer_exit e c TimedOut =
     thn (set_timer TStopped)
     (thn (modify (\<lambda>s. s\<lparr>n_failed := Suc (n_failed s)\<rparr>))
       (stop_timer False))"

definition notify_one :: "rexit \<Rightarrow> nat \<Rightarrow> offer \<Rightarrow> (notifier, unit) go" where
  "notify_one e c o1 = bnd (gets (\<lambda>s. m_objs (n_mon s) c)) (\<lambda>r. bnd (deref r) (\<lambda>sub.
     if s_closed sub then ret ()
     else bnd (gets n_success) (\<lambda>success.
       if s_c sub \<in> set success then ret ()
       else thn (set_timer TRunning) (offer_exit e (s_c sub) o1))))"

subsection \<open>Steps\<close>

definition has_room :: "monitor \<Rightarrow> nat \<Rightarrow> bool" where
  "has_room m c \<longleftrightarrow> (case m_chans m c of None \<Rightarrow> False | Some ch \<Rightarrow> length (ch_buf ch) < bufferSize)"

text \<open>The \<open>select\<close> can choose the send only when it does not have to wait.\<close>

fun may_choose :: "monitor \<Rightarrow> nat \<Rightarrow> offer \<Rightarrow> bool" where
  "may_choose m c (Sent expired) = (has_room m c \<or> closed_obj m c)"
| "may_choose m c TimedOut = True"

text \<open>The goroutine's own steps: begin a round, serve a subscriber, end the round.\<close>

inductive nstep :: "rexit \<Rightarrow> notifier \<Rightarrow> notifier \<Rightarrow> bool" for e where
  begin_round: "\<not> n_done s \<Longrightarrow> n_todo s = None \<Longrightarrow> mset cs = mset (m_subscribers (n_mon s)) \<Longrightarrow>
     nstep e s (s\<lparr>n_todo := Some cs, n_round := cs, n_failed := 0\<rparr>)"
| serve: "\<not> n_done s \<Longrightarrow> n_todo s = Some (c # cs) \<Longrightarrow> may_choose (n_mon s) c o1 \<Longrightarrow>
     notify_one e c o1 s = (Ret (), s') \<Longrightarrow> nstep e s (s'\<lparr>n_todo := Some cs\<rparr>)"
| end_round: "\<not> n_done s \<Longrightarrow> n_todo s = Some [] \<Longrightarrow> 0 < n_failed s \<Longrightarrow> nstep e s (s\<lparr>n_todo := None\<rparr>)"
| finish_notify: "\<not> n_done s \<Longrightarrow> n_todo s = Some [] \<Longrightarrow> n_failed s = 0 \<Longrightarrow> nstep e s (s\<lparr>n_done := True\<rparr>)"

text \<open>The environment: receivers, subscriptions, and other goroutines that send an exit to a
  subscriber that is not closed.\<close>

inductive estep :: "notifier \<Rightarrow> notifier \<Rightarrow> bool" where
  receive: "on_monitor (chan_recv c) s = (Ret x, s') \<Longrightarrow> estep s s'"
| subscribe: "on_monitor Subscribe s = (Ret c, s') \<Longrightarrow> estep s s'"
| unsubscribe: "on_monitor (Unsubscribe c) s = (Ret (), s') \<Longrightarrow> estep s s'"
| other_send: "m_objs (n_mon s) c = Some sub \<Longrightarrow> \<not> s_closed sub \<Longrightarrow>
     on_monitor (chan_send (s_c sub) x) s = (Ret (), s') \<Longrightarrow> estep s s'"

definition run_step :: "rexit \<Rightarrow> notifier \<Rightarrow> notifier \<Rightarrow> bool" where
  "run_step e s t \<longleftrightarrow> nstep e s t \<or> estep s t"

inductive_cases nstep_cases: "nstep e s t"
inductive_cases estep_cases: "estep s t"

text \<open>The start: \<open>time.NewTimer\<close> and the first \<open>stop\<close>, which finds the timer running or expired.\<close>

definition ninit :: "notifier \<Rightarrow> bool" where
  "ninit s \<longleftrightarrow> minv (n_mon s) \<and> (\<exists>t0\<in>{TRunning, TExpired}. stop t0 True = Ret (n_timer s)) \<and>
     n_success s = [] \<and> n_todo s = None \<and> \<not> n_done s"

subsection \<open>What a step does to the monitor\<close>

lemma minv_chan_update:
  assumes "minv m" and "m_chans m c = Some ch" and "length b \<le> bufferSize"
  shows "minv (m\<lparr>m_chans := (m_chans m)(c \<mapsto> ch\<lparr>ch_buf := b\<rparr>)\<rparr>)"
proof -
  have "obj_ok (m\<lparr>m_chans := (m_chans m)(c \<mapsto> ch\<lparr>ch_buf := b\<rparr>)\<rparr>) d s" if "m_objs m d = Some s" for d s
    using minvD [OF assms(1) that] assms(2,3) by (auto simp: obj_ok_def)
  with assms(1) show ?thesis by (simp add: minv_def)
qed

lemma mono_objs_chans [simp]: "mono_objs m (m\<lparr>m_chans := f\<rparr>)"
  by (simp add: mono_objs_def closed_obj_def)

lemma chan_send_ok:
  assumes "minv m" and "chan_send c e m = (Ret x, m')"
  shows "minv m'" and "mono_objs m m'"
  using assms(2) minv_chan_update [OF assms(1)]
  by (auto simp: chan_send_def split: option.splits if_splits)

lemma chan_recv_ok:
  assumes "minv m" and "chan_recv c m = (Ret x, m')"
  shows "minv m'" and "mono_objs m m'"
proof -
  have len: "length (ch_buf ch) \<le> bufferSize" if "m_chans m c = Some ch" "m_objs m c = Some sub" for ch sub
    using minvD [OF assms(1) that(2)] that(1) by auto
  have "minv (m\<lparr>m_chans := (m_chans m)(c \<mapsto> ch\<lparr>ch_buf := es\<rparr>)\<rparr>)"
    if "m_chans m c = Some ch" "ch_buf ch = x # es" for ch x es
  proof (cases "m_objs m c")
    case (Some sub)
    with len [OF that(1)] that show ?thesis by (auto intro!: minv_chan_update [OF assms(1)])
  next
    case None
    have "obj_ok (m\<lparr>m_chans := (m_chans m)(c \<mapsto> ch\<lparr>ch_buf := es\<rparr>)\<rparr>) d s" if "m_objs m d = Some s" for d s
      using minvD [OF assms(1) that] None that by (auto simp: obj_ok_def)
    with assms(1) show ?thesis by (simp add: minv_def)
  qed
  with assms show "minv m'" "mono_objs m m'"
    by (auto simp: chan_recv_def split: option.splits if_splits list.splits)
qed

lemma on_monitor_Ret: "on_monitor f s = (Ret x, s') \<longleftrightarrow> (\<exists>m. f (n_mon s) = (Ret x, m) \<and> s' = s\<lparr>n_mon := m\<rparr>)"
  by (auto simp: on_monitor_def split: prod.splits)

lemma estep_monitor:
  assumes "estep s s'" and "minv (n_mon s)"
  obtains m where "s' = s\<lparr>n_mon := m\<rparr>" and "minv m" and "mono_objs (n_mon s) m"
  using assms(1)
proof (rule estep_cases)
  fix c x assume "on_monitor (chan_recv c) s = (Ret x, s')"
  then show thesis using chan_recv_ok [OF assms(2)] that by (auto simp: on_monitor_Ret)
next
  fix c assume "on_monitor Subscribe s = (Ret c, s')"
  then show thesis using Subscribe_ok [OF assms(2)] that by (auto simp: on_monitor_Ret)
next
  fix c assume "on_monitor (Unsubscribe c) s = (Ret (), s')"
  then show thesis using Unsubscribe_ok [OF assms(2)] that by (auto simp: on_monitor_Ret)
next
  fix c sub x assume "on_monitor (chan_send (s_c sub) x) s = (Ret (), s')"
  then show thesis using chan_send_ok [OF assms(2)] that by (auto simp: on_monitor_Ret)
qed

subsection \<open>One subscriber is served\<close>

definition served :: "notifier \<Rightarrow> nat \<Rightarrow> bool" where
  "served s c \<longleftrightarrow> c \<in> set (n_success s) \<or> closed_obj (n_mon s) c"

lemma notify_one_skips:
  assumes "m_objs (n_mon s) c = Some sub" and "minv (n_mon s)" and "served s c"
  shows "notify_one e c o1 s = (Ret (), s)"
  using assms minvD(1) [OF assms(2,1)]
  by (auto simp: notify_one_def bnd_def served_def closed_obj_def)

lemma notify_one_sends:
  assumes "m_objs (n_mon s) c = Some sub" and "minv (n_mon s)" and "\<not> served s c"
    and "has_room (n_mon s) c"
  obtains m where "chan_send c e (n_mon s) = (Ret (), m)"
    and "notify_one e c (Sent x) s = (Ret (), s\<lparr>n_mon := m, n_success := n_success s @ [c], n_timer := TStopped\<rparr>)"
proof -
  have sub: "s_c sub = c" "\<not> s_closed sub" "c \<notin> set (n_success s)"
    using minvD(1) [OF assms(2,1)] assms(1,3) by (auto simp: served_def closed_obj_def)
  with minvD [OF assms(2,1)] assms(4) obtain ch where ch: "m_chans (n_mon s) c = Some ch" "\<not> ch_closed ch"
    "length (ch_buf ch) < bufferSize" by (auto simp: has_room_def)
  let ?m = "(n_mon s)\<lparr>m_chans := (m_chans (n_mon s))(c \<mapsto> ch\<lparr>ch_buf := ch_buf ch @ [e]\<rparr>)\<rparr>"
  have run: "chan_send c e (n_mon s) = (Ret (), ?m)" using ch by (simp add: chan_send_def)
  show thesis
  proof (rule that [OF run])
    show "notify_one e c (Sent x) s = (Ret (), s\<lparr>n_mon := ?m, n_success := n_success s @ [c], n_timer := TStopped\<rparr>)"
      using assms(1) sub run
      by (simp add: notify_one_def bnd_def thn_def on_monitor_def stop_timer_def)
  qed
qed

lemma notify_one_times_out:
  assumes "m_objs (n_mon s) c = Some sub" and "minv (n_mon s)" and "\<not> served s c"
  shows "notify_one e c TimedOut s = (Ret (), s\<lparr>n_timer := TStopped, n_failed := Suc (n_failed s)\<rparr>)"
proof -
  have "s_c sub = c" "\<not> s_closed sub" "c \<notin> set (n_success s)"
    using minvD(1) [OF assms(2,1)] assms(1,3) by (auto simp: served_def closed_obj_def)
  with assms(1) show ?thesis
    by (simp add: notify_one_def bnd_def thn_def stop_timer_def)
qed

text \<open>The three ways a subscriber can be served, for whatever the \<open>select\<close> chooses.\<close>

lemma notify_one_result:
  assumes "m_objs (n_mon s) c = Some sub" and "minv (n_mon s)" and "n_timer s = TStopped"
    and "may_choose (n_mon s) c o1"
  obtains (skip) "notify_one e c o1 s = (Ret (), s)" "served s c"
  | (send) m where "notify_one e c o1 s = (Ret (), s\<lparr>n_mon := m, n_success := n_success s @ [c]\<rparr>)"
      "minv m" "mono_objs (n_mon s) m" "\<not> served s c" "chan_send c e (n_mon s) = (Ret (), m)"
  | (timeout) "notify_one e c o1 s = (Ret (), s\<lparr>n_failed := Suc (n_failed s)\<rparr>)" "\<not> served s c"
proof (cases "served s c")
  case True
  then show thesis using notify_one_skips [OF assms(1,2)] skip by blast
next
  case False
  have st: "s\<lparr>n_timer := TStopped\<rparr> = s" using assms(3) by simp
  show thesis
  proof (cases o1)
    case (Sent x)
    then have "has_room (n_mon s) c" using assms(4) False by (auto simp: served_def)
    then obtain m where "chan_send c e (n_mon s) = (Ret (), m)"
      "notify_one e c (Sent x) s = (Ret (), s\<lparr>n_mon := m, n_success := n_success s @ [c], n_timer := TStopped\<rparr>)"
      by (rule notify_one_sends [OF assms(1,2) False])
    with chan_send_ok [OF assms(2)] show thesis using Sent False assms(3) by (intro send) auto
  next
    case TimedOut
    then show thesis
      using notify_one_times_out [OF assms(1,2) False] False assms(3) by (intro timeout) auto
  qed
qed

subsection \<open>The invariant\<close>

definition ninv :: "notifier \<Rightarrow> bool" where
  "ninv s \<longleftrightarrow> minv (n_mon s) \<and> n_timer s = TStopped \<and> distinct (n_success s) \<and>
     (case n_todo s of
        None \<Rightarrow> \<not> n_done s
      | Some cs \<Rightarrow> set cs \<subseteq> set (n_round s) \<and> (\<forall>c\<in>set (n_round s). m_objs (n_mon s) c \<noteq> None) \<and>
          (\<forall>c\<in>set (n_round s) - set cs. served s c \<or> 0 < n_failed s)) \<and>
     (n_done s \<longrightarrow> n_todo s = Some [] \<and> n_failed s = 0)"

lemma ninv_init: "ninit s \<Longrightarrow> ninv s"
  by (auto simp: ninit_def ninv_def)

lemma served_mono: "mono_objs (n_mon s) m \<Longrightarrow> served s c \<Longrightarrow> served (s\<lparr>n_mon := m\<rparr>) c"
  by (auto simp: served_def mono_objs_def)

lemma ninv_monitor:
  assumes "ninv s" and "minv m" and "mono_objs (n_mon s) m"
  shows "ninv (s\<lparr>n_mon := m\<rparr>)"
  using assms served_mono [OF assms(3)]
  by (auto simp: ninv_def mono_objs_def split: option.splits)

lemma ninv_estep: "ninv s \<Longrightarrow> estep s s' \<Longrightarrow> ninv s'"
proof (erule estep_monitor)
  assume "ninv s" then show "minv (n_mon s)" by (simp add: ninv_def)
qed (simp add: ninv_monitor)

lemma ninv_serve:
  assumes "ninv s" and "\<not> n_done s" and "n_todo s = Some (c # cs)" and "may_choose (n_mon s) c o1"
    and "notify_one e c o1 s = (Ret (), s')"
  shows "ninv (s'\<lparr>n_todo := Some cs\<rparr>)"
proof -
  from assms(1,3) obtain sub where sub: "m_objs (n_mon s) c = Some sub" "minv (n_mon s)" "n_timer s = TStopped"
    by (auto simp: ninv_def)
  show ?thesis
  proof (rule notify_one_result [OF sub assms(4), of e])
    assume "notify_one e c o1 s = (Ret (), s)" "served s c"
    with assms show ?thesis by (auto simp: ninv_def served_def)
  next
    fix m assume "notify_one e c o1 s = (Ret (), s\<lparr>n_mon := m, n_success := n_success s @ [c]\<rparr>)"
      "minv m" "mono_objs (n_mon s) m" "\<not> served s c"
    with assms show ?thesis by (auto simp: ninv_def served_def mono_objs_def)
  next
    assume "notify_one e c o1 s = (Ret (), s\<lparr>n_failed := Suc (n_failed s)\<rparr>)"
    with assms show ?thesis by (auto simp: ninv_def served_def)
  qed
qed

lemma ninv_nstep:
  assumes "ninv s" and "nstep e s t"
  shows "ninv t"
  using assms(2)
proof (rule nstep_cases)
  fix cs assume "mset cs = mset (m_subscribers (n_mon s))" "\<not> n_done s"
    "t = s\<lparr>n_todo := Some cs, n_round := cs, n_failed := 0\<rparr>"
  moreover from this(1) have "set cs = set (m_subscribers (n_mon s))" by (metis set_mset_mset)
  ultimately show "ninv t" using assms(1) by (fastforce simp: ninv_def minv_def)
next
  fix c cs o1 s' assume "t = s'\<lparr>n_todo := Some cs\<rparr>" "\<not> n_done s" "n_todo s = Some (c # cs)"
    "may_choose (n_mon s) c o1" "notify_one e c o1 s = (Ret (), s')"
  then show "ninv t" using ninv_serve [OF assms(1)] by simp
qed (use assms(1) in \<open>auto simp: ninv_def served_def\<close>)

text \<open>What a step of \<open>notify\<close> does: it sends to one subscriber, or leaves the monitor alone.\<close>

lemma nstep_effect:
  assumes "ninv s" and "nstep e s t"
  obtains (quiet) "n_mon t = n_mon s" "n_success t = n_success s"
      "n_round t = n_round s \<and> n_todo s \<noteq> None \<or> set (n_round t) = set (m_subscribers (n_mon s))"
  | (send) c sub where "m_objs (n_mon s) c = Some sub" "\<not> s_closed sub" "s_c sub = c"
      "chan_send c e (n_mon s) = (Ret (), n_mon t)" "n_success t = n_success s @ [c]" "c \<notin> set (n_success s)"
      "n_round t = n_round s" "n_todo s \<noteq> None"
  using assms(2)
proof (rule nstep_cases)
  fix cs assume cs: "mset cs = mset (m_subscribers (n_mon s))" and t: "t = s\<lparr>n_todo := Some cs, n_round := cs, n_failed := 0\<rparr>"
  show thesis by (rule quiet) (simp_all add: t mset_eq_setD [OF cs])
next
  fix c cs o1 s' assume t: "t = s'\<lparr>n_todo := Some cs\<rparr>" "n_todo s = Some (c # cs)"
    and ch: "may_choose (n_mon s) c o1" and run: "notify_one e c o1 s = (Ret (), s')"
  from assms(1) t(2) obtain sub where sub: "m_objs (n_mon s) c = Some sub" "minv (n_mon s)" "n_timer s = TStopped"
    by (auto simp: ninv_def)
  show thesis
  proof (rule notify_one_result [OF sub ch, of e])
    fix m assume s': "notify_one e c o1 s = (Ret (), s\<lparr>n_mon := m, n_success := n_success s @ [c]\<rparr>)"
      and new: "\<not> served s c" "chan_send c e (n_mon s) = (Ret (), m)"
    from new sub(1) have "\<not> s_closed sub" "c \<notin> set (n_success s)" by (auto simp: served_def closed_obj_def)
    then show thesis using s' new run t sub(1) minvD(1) [OF sub(2,1)] by (intro send [of c sub]) simp_all
  qed (rule quiet; use run t in simp)+
qed (rule quiet, simp_all)+

interpretation nt: step_invariant ninit "run_step e" ninv for e
  by unfold_locales (auto simp: run_step_def intro: ninv_init ninv_nstep ninv_estep)

subsection \<open>Finishing\<close>

text \<open>A round in which every channel has room serves every subscriber and counts no failure.\<close>

lemma serve_with_room:
  assumes "ninv s" and "\<not> n_done s" and "n_todo s = Some (c # cs)" and "has_room (n_mon s) c"
  obtains t where "nstep e s t" and "n_todo t = Some cs" and "\<not> n_done t"
    and "n_failed t = n_failed s" and "n_round t = n_round s"
    and "\<And>d. d \<noteq> c \<Longrightarrow> has_room (n_mon t) d = has_room (n_mon s) d"
proof -
  from assms(1,3) obtain sub where sub: "m_objs (n_mon s) c = Some sub" "minv (n_mon s)" "n_timer s = TStopped"
    by (auto simp: ninv_def)
  have ch: "may_choose (n_mon s) c (Sent False)" using assms(4) by simp
  show thesis
  proof (cases "served s c")
    case True
    have "nstep e s (s\<lparr>n_todo := Some cs\<rparr>)"
      by (rule serve [OF assms(2,3) ch notify_one_skips [OF sub(1,2) True]])
    with assms(2) show thesis by (intro that [of "s\<lparr>n_todo := Some cs\<rparr>"]) simp_all
  next
    case False
    obtain m where m: "chan_send c e (n_mon s) = (Ret (), m)"
      "notify_one e c (Sent False) s = (Ret (), s\<lparr>n_mon := m, n_success := n_success s @ [c], n_timer := TStopped\<rparr>)"
      by (rule notify_one_sends [OF sub(1,2) False assms(4)])
    have "has_room m d = has_room (n_mon s) d" if "d \<noteq> c" for d
      using m(1) that by (auto simp: chan_send_def has_room_def split: option.splits if_splits)
    with serve [OF assms(2,3) ch m(2)] assms(2) show thesis
      by (intro that [of "s\<lparr>n_mon := m, n_success := n_success s @ [c], n_timer := TStopped, n_todo := Some cs\<rparr>"]) simp_all
  qed
qed

lemma round_with_room:
  assumes "ninv s" and "\<not> n_done s" and "n_todo s = Some cs" and "distinct cs"
    and "\<forall>c\<in>set cs. has_room (n_mon s) c"
  shows "\<exists>t. (nstep e)\<^sup>*\<^sup>* s t \<and> n_todo t = Some [] \<and> \<not> n_done t \<and> n_failed t = n_failed s \<and> n_round t = n_round s"
  using assms
proof (induction cs arbitrary: s)
  case Nil
  then show ?case by blast
next
  case (Cons c cs)
  then have "has_room (n_mon s) c" by simp
  then obtain u where u: "nstep e s u" "n_todo u = Some cs" "\<not> n_done u" "n_failed u = n_failed s"
    "n_round u = n_round s" "\<And>d. d \<noteq> c \<Longrightarrow> has_room (n_mon u) d = has_room (n_mon s) d"
    using serve_with_room [OF Cons.prems(1-3)] by metis
  have "\<forall>d\<in>set cs. has_room (n_mon u) d" using u(6) Cons.prems(4,5) by (metis distinct.simps(2) list.set_intros(2))
  with Cons.IH [OF ninv_nstep [OF Cons.prems(1) u(1)] u(3,2)] Cons.prems(4) u(4,5)
  obtain t where "(nstep e)\<^sup>*\<^sup>* u t" "n_todo t = Some []" "\<not> n_done t" "n_failed t = n_failed s" "n_round t = n_round s"
    by auto
  with u(1) show ?case by (meson converse_rtranclp_into_rtranclp)
qed

lemma finishes_with_room:
  assumes "ninv s" and "\<not> n_done s" and "n_todo s = None"
    and "\<forall>c\<in>set (m_subscribers (n_mon s)). has_room (n_mon s) c"
  shows "\<exists>t. (nstep e)\<^sup>*\<^sup>* s t \<and> n_done t \<and> n_round t = m_subscribers (n_mon s)"
proof -
  let ?cs = "m_subscribers (n_mon s)"
  let ?s1 = "s\<lparr>n_todo := Some ?cs, n_round := ?cs, n_failed := 0\<rparr>"
  have s1: "nstep e s ?s1" by (rule begin_round [OF assms(2,3) refl])
  have d: "distinct ?cs" using assms(1) by (simp add: ninv_def minv_def)
  obtain t where t: "(nstep e)\<^sup>*\<^sup>* ?s1 t" "n_todo t = Some []" "\<not> n_done t" "n_failed t = 0" "n_round t = ?cs"
    using round_with_room [OF ninv_nstep [OF assms(1) s1], of ?cs e] assms(2,4) d by auto
  have "nstep e t (t\<lparr>n_done := True\<rparr>)" by (rule finish_notify [OF t(3,2,4)])
  with s1 t(1) have "(nstep e)\<^sup>*\<^sup>* s (t\<lparr>n_done := True\<rparr>)"
    by (meson converse_rtranclp_into_rtranclp rtranclp.rtrancl_into_rtrancl)
  with t(5) show ?thesis by (intro exI [of _ "t\<lparr>n_done := True\<rparr>"]) simp
qed

text \<open>Every own step of a round serves one more subscriber, whatever the \<open>select\<close> chooses.\<close>

lemma own_step_in_round:
  assumes "ninv s" and "nstep e s t" and "n_todo s = Some cs" and "\<not> n_done s"
  shows "if cs = [] then n_done t \<or> n_todo t = None else n_todo t = Some (tl cs) \<and> \<not> n_done t"
  using assms(2)
proof (rule nstep_cases)
  fix c cs' o1 s' assume t: "t = s'\<lparr>n_todo := Some cs'\<rparr>" "n_todo s = Some (c # cs')"
    and ch: "may_choose (n_mon s) c o1" and run: "notify_one e c o1 s = (Ret (), s')"
  from assms(1) t(2) obtain sub where sub: "m_objs (n_mon s) c = Some sub" "minv (n_mon s)" "n_timer s = TStopped"
    by (auto simp: ninv_def)
  have "\<not> n_done s'"
    using run assms(4) by (rule_tac notify_one_result [OF sub ch, of e]) auto
  with t assms(3) show ?thesis by auto
qed (use assms(3,4) in auto)

lemma own_step_exists:
  assumes "ninv s" and "n_todo s = Some cs" and "\<not> n_done s"
  shows "\<exists>t. nstep e s t"
proof (cases cs)
  case Nil
  then show ?thesis
    using end_round [of s e] finish_notify [of s e] assms(2,3) by (cases "n_failed s = 0") auto
next
  case (Cons c cs')
  with assms(1,2) obtain sub where sub: "m_objs (n_mon s) c = Some sub" "minv (n_mon s)" "n_timer s = TStopped"
    by (auto simp: ninv_def)
  have ch: "may_choose (n_mon s) c TimedOut" by simp
  have "\<exists>s'. notify_one e c TimedOut s = (Ret (), s')"
    by (rule notify_one_result [OF sub ch, of e]) blast+
  with serve [of s c cs' TimedOut e] assms(2,3) Cons ch show ?thesis by blast
qed

lemma round_ends:
  assumes "ninv s" and "n_todo s = Some cs" and "\<not> n_done s"
  shows "(\<exists>t. (nstep e ^^ Suc (length cs)) s t) \<and>
    (\<forall>t. (nstep e ^^ Suc (length cs)) s t \<longrightarrow> n_done t \<or> n_todo t = None)"
  using assms
proof (induction cs arbitrary: s)
  case Nil
  have "nstep e ^^ Suc (length []) = nstep e" by (metis relpowp_1 One_nat_def list.size(3))
  then show ?case
    using own_step_exists [OF Nil.prems, of e] own_step_in_round [OF Nil.prems(1) _ Nil.prems(2,3), of e]
    by (metis (full_types))
next
  case (Cons c cs)
  have after: "ninv u \<and> n_todo u = Some cs \<and> \<not> n_done u" if "nstep e s u" for u
    using ninv_nstep [OF Cons.prems(1) that] own_step_in_round [OF Cons.prems(1) that Cons.prems(2,3)] by simp
  obtain u where u: "nstep e s u" using own_step_exists [OF Cons.prems] by blast
  with Cons.IH [of u] after [OF u] obtain t where "(nstep e ^^ Suc (length cs)) u t" by blast
  with u have "(nstep e ^^ Suc (length (c # cs))) s t"
    by (metis length_Cons relpowp_Suc_I2)
  moreover have "n_done t \<or> n_todo t = None" if "(nstep e ^^ Suc (length (c # cs))) s t" for t
    using that Cons.IH after by (metis length_Cons relpowp_Suc_D2)
  ultimately show ?case by blast
qed

subsection \<open>What notify guarantees\<close>

lemma own_steps: "(nstep e)\<^sup>*\<^sup>* s t \<Longrightarrow> (run_step e)\<^sup>*\<^sup>* s t"
  by (rule rtranclp_mono [THEN predicate2D, rotated]) (auto simp: run_step_def)


text \<open>C20: \<open>notify\<close> neither panics nor blocks in a critical section: it never sends on a closed
  channel, and \<open>stop\<close> never waits for a tick that does not come, whether the timer has expired
  before a send or not.\<close>

theorem notify_never_breaks:
  assumes "ninit s" and "(run_step e)\<^sup>*\<^sup>* s t" and "n_todo t = Some (c # cs)" and "may_choose (n_mon t) c o1"
  shows "fst (notify_one e c o1 t) = Ret ()"
proof -
  from nt.inv_reach [OF assms(1,2)] assms(3) obtain sub where
    "m_objs (n_mon t) c = Some sub" "minv (n_mon t)" "n_timer t = TStopped" by (auto simp: ninv_def)
  then show ?thesis by (rule notify_one_result [OF _ _ _ assms(4), of sub e]) simp_all
qed



text \<open>C22: a round of \<open>notify\<close> with \<open>k\<close> subscribers left takes exactly \<open>k + 1\<close> of its own steps,
  however each \<open>select\<close> ends: it is never stuck in a round.\<close>

theorem notify_round_ends:
  assumes "ninit s" and "(run_step e)\<^sup>*\<^sup>* s t" and "n_todo t = Some cs" and "\<not> n_done t"
  shows "(\<exists>u. (nstep e ^^ Suc (length cs)) t u) \<and>
    (\<forall>u. (nstep e ^^ Suc (length cs)) t u \<longrightarrow> n_done u \<or> n_todo u = None)"
  by (rule round_ends [OF nt.inv_reach [OF assms(1,2)] assms(3,4)])

subsection \<open>Witnesses\<close>

definition demo_monitor :: monitor where
  "demo_monitor = snd (Subscribe (snd (Subscribe new_monitor)))"

definition demo_notifier :: notifier where
  "demo_notifier = \<lparr>n_mon = demo_monitor, n_timer = TStopped, n_success = [], n_failed = 0,
     n_round = [], n_todo = None, n_done = False\<rparr>"

lemma minv_Subscribe: "minv m \<Longrightarrow> minv (snd (Subscribe m))"
  by (cases "Subscribe m") (simp add: Subscribe_ok(1))

lemma demo_monitor_ok: "minv demo_monitor"
  unfolding demo_monitor_def by (intro minv_Subscribe minv_new)

lemma demo_ninit: "ninit demo_notifier"
  by (simp add: ninit_def demo_notifier_def demo_monitor_ok)

lemma demo_monitor_simps: "m_subscribers demo_monitor = [0, Suc 0]"
  "has_room demo_monitor 0" "has_room demo_monitor (Suc 0)" "m_objs demo_monitor 0 = Some \<lparr>s_c = 0, s_closed = False\<rparr>"
  by (code_simp, code_simp, code_simp) (simp add: demo_monitor_def Subscribe_def new_monitor_def)



lemma demo_first_round:
  "(run_step e)\<^sup>*\<^sup>* demo_notifier (demo_notifier\<lparr>n_todo := Some [0, 1], n_round := [0, 1], n_failed := 0\<rparr>)"
proof -
  have "nstep e demo_notifier (demo_notifier\<lparr>n_todo := Some [0, 1], n_round := [0, 1], n_failed := 0\<rparr>)"
    by (rule begin_round) (simp_all add: demo_notifier_def demo_monitor_simps)
  then show ?thesis by (intro own_steps r_into_rtranclp)
qed

lemma notify_never_breaks_witness:
  "fst (notify_one \<lparr>x_Pid = 7, x_Status = 0\<rparr> 0 (Sent True)
     (demo_notifier\<lparr>n_todo := Some [0, 1], n_round := [0, 1], n_failed := 0\<rparr>)) = Ret ()"
  by (rule notify_never_breaks [OF demo_ninit demo_first_round, where cs = "[1]"])
    (simp_all add: demo_notifier_def demo_monitor_simps)


lemma notify_round_ends_witness:
  "\<exists>u. (nstep \<lparr>x_Pid = 7, x_Status = 0\<rparr> ^^ 3)
     (demo_notifier\<lparr>n_todo := Some [0, 1], n_round := [0, 1], n_failed := 0\<rparr>) u \<and> (n_done u \<or> n_todo u = None)"
proof -
  have "Suc (length [0 :: nat, 1]) = 3" by simp
  with notify_round_ends [OF demo_ninit demo_first_round, where cs = "[0, 1]" and e = "\<lparr>x_Pid = 7, x_Status = 0\<rparr>"]
  show ?thesis by (force simp only: demo_notifier_def notifier.simps)
qed

end
