(* ===== verification/Shim_Reporting.thy ===== *)
theory Shim_Reporting
  imports Shim_Alone Shim_Notify
begin

text \<open>
  The shim as a whole: \<open>Reap\<close> of \<open>reaper.go\<close> collects exits and starts a goroutine of \<open>notify\<close> for
  each, waiting for it for at most a second; these goroutines send to the channels of the monitor;
  \<open>processExits\<close> of \<open>service.go\<close> takes the exits out of the service's channel and handles one after
  the other, beside the requests. A step of the shim is a step of one of these parts, so that the
  statements about \<open>notify\<close> (theory \<open>Shim_Notify\<close>) and about overlapping requests (theory
  \<open>Shim_Interleavings\<close>) hold for the parts of a running shim, and what \<open>Reap\<close> collected can be
  followed to the service.
\<close>

subsection \<open>The parts together\<close>

text \<open>
  The monitor \<open>Default\<close>, the channel the service has subscribed, the exits \<open>Reap\<close> has still to
  announce, whether it waits for the \<open>notify\<close> it started last, all that were started, and the
  service. The rest is history: what was collected and received, and whether \<open>Reap\<close> ever went on
  before a \<open>notify\<close> had ended.
\<close>

record 'x shim =
  sm_monitor :: monitor
  sm_ec :: nat
  sm_exits :: "rexit list"
  sm_waits :: bool
  sm_notifying :: "(rexit \<times> notifier) list"
  sm_system :: "'x system"
  sm_reaped :: "rexit list"
  sm_received :: "rexit list"
  sm_late :: bool

text \<open>The beginning of \<open>notify\<close>: a new timer, which may have expired, is stopped.\<close>

definition start_notify :: "timer \<Rightarrow> (monitor, notifier) go" where
  "start_notify t0 = (\<lambda>m. (map_outcome (\<lambda>t. \<lparr>n_mon = m, n_timer = t, n_success = [], n_failed = 0,
     n_round = [], n_todo = None, n_done = False\<rparr>) (stop t0 True), m))"

definition exit_count :: "'x system \<Rightarrow> nat" where
  "exit_count \<sigma> = length (filter (\<lambda>(og, t). og = FromExits) (sy_tasks \<sigma>))"

text \<open>
  The steps: \<open>Reap\<close> collects exits on a child signal, announces the next one, and goes on when
  \<open>notify\<close> has ended or a second is over; a \<open>notify\<close> goes on; \<open>processExits\<close> receives an exit; other
  users of the monitor (\<open>Start\<close> and \<open>Wait\<close>) subscribe, unsubscribe and receive on channels of their
  own; and the service serves requests, handles the exits it has received and forwards events.
\<close>

inductive shim_step :: "'x pkg \<Rightarrow> 'x shim \<Rightarrow> 'x shim \<Rightarrow> bool" for P where
  reaps: "sm_exits s = [] \<Longrightarrow> \<not> sm_waits s \<Longrightarrow> sh_ext (sy_shared (sm_system s)) = (x, w) \<Longrightarrow>
     Reap_exits results pidfile w = (Ret (exits, err), w') \<Longrightarrow>
     shim_step P s (s\<lparr>sm_exits := exits, sm_reaped := sm_reaped s @ exits,
       sm_system := (sm_system s)\<lparr>sy_shared := (sy_shared (sm_system s))\<lparr>sh_ext := (x, w')\<rparr>\<rparr>\<rparr>)"
| announces: "sm_exits s = e # es \<Longrightarrow> \<not> sm_waits s \<Longrightarrow> t0 \<in> {TRunning, TExpired} \<Longrightarrow>
     start_notify t0 (sm_monitor s) = (Ret n, m) \<Longrightarrow>
     shim_step P s (s\<lparr>sm_exits := es, sm_waits := True, sm_notifying := sm_notifying s @ [(e, n)]\<rparr>)"
| notified: "sm_waits s \<Longrightarrow> n_done (snd (last (sm_notifying s))) \<Longrightarrow> shim_step P s (s\<lparr>sm_waits := False\<rparr>)"
| second_over: "sm_waits s \<Longrightarrow> shim_step P s (s\<lparr>sm_waits := False, sm_late := True\<rparr>)"
| notifies: "i < length (sm_notifying s) \<Longrightarrow> sm_notifying s ! i = (e, n) \<Longrightarrow> nstep e (n\<lparr>n_mon := sm_monitor s\<rparr>) n' \<Longrightarrow>
     shim_step P s (s\<lparr>sm_monitor := n_mon n', sm_notifying := (sm_notifying s)[i := (e, n')]\<rparr>)"
| receives: "exits_idle (sm_system s) \<Longrightarrow> (\<And>xs. mset (ord xs) = mset xs) \<Longrightarrow> (\<And>xs. mset (pord xs) = mset xs) \<Longrightarrow>
     chan_recv (sm_ec s) (sm_monitor s) = (Ret (Some e), m) \<Longrightarrow>
     shim_step P s (s\<lparr>sm_monitor := m, sm_received := sm_received s @ [e], sm_system := (sm_system s)\<lparr>sy_tasks :=
       sy_tasks (sm_system s) @ [(FromExits, t_exit P ord pord (x_Pid e) (x_Status e))]\<rparr>\<rparr>)"
| subscribes: "Subscribe (sm_monitor s) = (Ret c, m) \<Longrightarrow> shim_step P s (s\<lparr>sm_monitor := m\<rparr>)"
| unsubscribes: "c \<noteq> sm_ec s \<Longrightarrow> Unsubscribe c (sm_monitor s) = (Ret (), m) \<Longrightarrow> shim_step P s (s\<lparr>sm_monitor := m\<rparr>)"
| takes: "c \<noteq> sm_ec s \<Longrightarrow> chan_recv c (sm_monitor s) = (Ret r, m) \<Longrightarrow> shim_step P s (s\<lparr>sm_monitor := m\<rparr>)"
| serves: "sys_step P (sm_system s) \<sigma> \<Longrightarrow> exit_count \<sigma> = exit_count (sm_system s) \<Longrightarrow> shim_step P s (s\<lparr>sm_system := \<sigma>\<rparr>)"

inductive_cases shim_step_cases: "shim_step P s t"

text \<open>A new shim: the service has subscribed to the monitor, and nothing else has happened.\<close>

definition new_shim :: "string \<Rightarrow> 'x \<times> world \<Rightarrow> 'x shim outcome" where
  "new_shim sid x = (case Subscribe new_monitor of (r, m) \<Rightarrow> map_outcome (\<lambda>c.
     \<lparr>sm_monitor = m, sm_ec = c, sm_exits = [], sm_waits = False, sm_notifying = [], sm_system = new_system sid x,
      sm_reaped = [], sm_received = [], sm_late = False\<rparr>) r)"

text \<open>The exits in the service's channel.\<close>

definition in_channel :: "'x shim \<Rightarrow> rexit list" where
  "in_channel s = (case m_chans (sm_monitor s) (sm_ec s) of None \<Rightarrow> [] | Some ch \<Rightarrow> ch_buf ch)"

subsection \<open>The monitor and the service's channel\<close>

abbreviation buffered :: "monitor \<Rightarrow> nat \<Rightarrow> rexit list" where
  "buffered m c \<equiv> (case m_chans m c of None \<Rightarrow> [] | Some ch \<Rightarrow> ch_buf ch)"

text \<open>The monitor stays consistent and the service registered, and any \<open>notify\<close> sees a step of its
  environment.\<close>

definition goes_on :: "nat \<Rightarrow> monitor \<Rightarrow> monitor \<Rightarrow> bool" where
  "goes_on ec m m' \<longleftrightarrow> minv m' \<and> mono_objs m m' \<and> ec \<in> set (m_subscribers m') \<and>
     (m' = m \<or> (\<forall>n. estep (n\<lparr>n_mon := m\<rparr>) (n\<lparr>n_mon := m'\<rparr>)))"

lemma goes_on_refl: "minv m \<Longrightarrow> ec \<in> set (m_subscribers m) \<Longrightarrow> goes_on ec m m"
  by (simp add: goes_on_def)

lemma registered: "minv m \<Longrightarrow> c \<in> set (m_subscribers m) \<Longrightarrow> \<exists>sub. m_objs m c = Some sub \<and> \<not> s_closed sub \<and> s_c sub = c \<and> c < m_next m"
  using minvD(1,2) [of m c] by (auto simp: minv_def)

lemma open_channel: "minv m \<Longrightarrow> c \<in> set (m_subscribers m) \<Longrightarrow> \<exists>ch. m_chans m c = Some ch \<and> \<not> ch_closed ch"
  using registered [of m c] minvD(3) [of m c] by fastforce

lemma subscribes_goes_on:
  assumes "minv m" and "ec \<in> set (m_subscribers m)" and "Subscribe m = (Ret c, m')"
  shows "goes_on ec m m'" and "buffered m' ec = buffered m ec"
proof -
  have "\<forall>n. estep (n\<lparr>n_mon := m\<rparr>) (n\<lparr>n_mon := m'\<rparr>)" 
    by (intro allI estep.subscribe [of _ c]) (simp add: on_monitor_def assms(3))
  with Subscribe_ok [OF assms(1,3)] assms(2,3) show "goes_on ec m m'" by (auto simp: goes_on_def Subscribe_def Let_def)
  have "ec \<noteq> m_next m" using registered [OF assms(1,2)] by auto
  with assms(3) show "buffered m' ec = buffered m ec" by (auto simp: Subscribe_def Let_def)
qed

lemma unsubscribes_goes_on:
  assumes "minv m" and "ec \<in> set (m_subscribers m)" and "c \<noteq> ec" and "Unsubscribe c m = (Ret (), m')"
  shows "goes_on ec m m'" and "buffered m' ec = buffered m ec"
proof -
  have "\<forall>n. estep (n\<lparr>n_mon := m\<rparr>) (n\<lparr>n_mon := m'\<rparr>)" 
    by (intro allI estep.unsubscribe [of c]) (simp add: on_monitor_def assms(4))
  moreover have "ec \<in> set (m_subscribers m') \<and> buffered m' ec = buffered m ec"
  proof (cases "c \<in> set (m_subscribers m)")
    case True
    then obtain s where "m_objs m c = Some s" using registered [OF assms(1)] by blast
    from Unsubscribe_eval [OF assms(1) True this] assms(2,3,4) show ?thesis by auto
  next
    case False
    with assms(2,4) show ?thesis by (auto simp: Unsubscribe_def bnd_def)
  qed
  ultimately show "goes_on ec m m'" "buffered m' ec = buffered m ec"
    using Unsubscribe_ok [OF assms(1,4)] by (auto simp: goes_on_def)
qed

lemma takes_goes_on:
  assumes "minv m" and "ec \<in> set (m_subscribers m)" and "chan_recv c m = (Ret r, m')"
  shows "goes_on ec m m'" and "c \<noteq> ec \<Longrightarrow> buffered m' ec = buffered m ec"
    and "r = Some e \<Longrightarrow> buffered m c = e # buffered m' c"
proof -
  have "\<forall>n. estep (n\<lparr>n_mon := m\<rparr>) (n\<lparr>n_mon := m'\<rparr>)" 
    by (intro allI estep.receive [of c _ r]) (simp add: on_monitor_def assms(3))
  with chan_recv_ok [OF assms(1,3)] assms(2,3) show "goes_on ec m m'"
    by (auto simp: goes_on_def chan_recv_def split: option.splits list.splits if_splits)
qed (use assms(3) in \<open>auto simp: chan_recv_def split: option.splits list.splits if_splits\<close>)

lemma sends_goes_on:
  assumes "minv m" and "ec \<in> set (m_subscribers m)" and "m_objs m c = Some sub" and "\<not> s_closed sub" and "s_c sub = c"
    and "chan_send c e m = (Ret (), m')"
  shows "goes_on ec m m'" and "buffered m' ec = buffered m ec @ (if c = ec then [e] else [])"
proof -
  have "\<forall>n. estep (n\<lparr>n_mon := m\<rparr>) (n\<lparr>n_mon := m'\<rparr>)"
    by (intro allI estep.other_send [of _ c sub e]) (simp_all add: on_monitor_def assms)
  with chan_send_ok [OF assms(1,6)] assms(2,6) show "goes_on ec m m'"
    by (auto simp: goes_on_def chan_send_def split: option.splits if_splits)
qed (use assms(6) in \<open>auto simp: chan_send_def split: option.splits if_splits\<close>)

subsection \<open>The invariant of the shim\<close>

text \<open>The exits that the \<open>notify\<close> goroutines have sent to the service, in the order they were announced.\<close>

definition got :: "nat \<Rightarrow> (rexit \<times> notifier) list \<Rightarrow> rexit list" where
  "got ec ns = map fst (filter (\<lambda>(e, n). ec \<in> set (n_success n)) ns)"

lemma got_simps [simp]: "got ec [] = []" "got ec (xs @ ys) = got ec xs @ got ec ys"
  "got ec ((e, n) # ns) = (if ec \<in> set (n_success n) then e # got ec ns else got ec ns)"
  by (simp_all add: got_def)

definition fine :: "nat \<Rightarrow> monitor \<Rightarrow> rexit \<times> notifier \<Rightarrow> bool" where
  "fine ec m = (\<lambda>(e, n). ninv (n\<lparr>n_mon := m\<rparr>) \<and> (n_todo n \<noteq> None \<longrightarrow> ec \<in> set (n_round n)))"

definition in_turn :: "bool \<Rightarrow> (rexit \<times> notifier) list \<Rightarrow> bool" where
  "in_turn waits ns = list_all (n_done \<circ> snd) (if waits then butlast ns else ns)"

definition rinv :: "'x shim \<Rightarrow> bool" where
  "rinv s \<longleftrightarrow> minv (sm_monitor s) \<and> sm_ec s \<in> set (m_subscribers (sm_monitor s)) \<and>
     list_all (fine (sm_ec s) (sm_monitor s)) (sm_notifying s) \<and>
     sm_reaped s = map fst (sm_notifying s) @ sm_exits s \<and>
     mset (sm_received s @ in_channel s) = mset (got (sm_ec s) (sm_notifying s)) \<and>
     exit_count (sm_system s) = length (sm_received s) \<and>
     (sm_waits s \<longrightarrow> sm_notifying s \<noteq> []) \<and>
     (\<not> sm_late s \<longrightarrow> sm_received s @ in_channel s = got (sm_ec s) (sm_notifying s) \<and>
        in_turn (sm_waits s) (sm_notifying s))"

lemma fine_goes_on: "fine ec m x \<Longrightarrow> goes_on ec m m' \<Longrightarrow> fine ec m' x"
  using ninv_monitor [of "(snd x)\<lparr>n_mon := m\<rparr>" m'] by (cases x) (auto simp: fine_def goes_on_def)

lemma all_fine: "list_all (fine ec m) ns \<Longrightarrow> goes_on ec m m' \<Longrightarrow> list_all (fine ec m') ns"
  by (auto simp: list_all_iff intro: fine_goes_on)

text \<open>Any user of the monitor but the service itself.\<close>

lemma rinv_monitor:
  assumes "rinv s" and "goes_on (sm_ec s) (sm_monitor s) m" and "buffered m (sm_ec s) = in_channel s"
  shows "rinv (s\<lparr>sm_monitor := m\<rparr>)"
  using assms all_fine [of "sm_ec s" "sm_monitor s" "sm_notifying s" m]
  by (auto simp: rinv_def goes_on_def in_channel_def)

lemma exit_count_task: "exit_count (\<sigma>\<lparr>sy_tasks := sy_tasks \<sigma> @ [(og, t)]\<rparr>) = exit_count \<sigma> + (if og = FromExits then 1 else 0)"
  by (simp add: exit_count_def)

lemma exit_count_shared [simp]: "exit_count (\<sigma>\<lparr>sy_shared := sh\<rparr>) = exit_count \<sigma>"
  by (simp add: exit_count_def)

lemma fine_nstep:
  assumes "fine ec m (e, n)" and "minv m" and "ec \<in> set (m_subscribers m)" and "nstep e (n\<lparr>n_mon := m\<rparr>) n'"
  shows "fine ec (n_mon n') (e, n')" and "goes_on ec m (n_mon n')"
    and "buffered (n_mon n') ec = buffered m ec @ (if ec \<in> set (n_success n') - set (n_success n) then [e] else [])"
    and "set (n_success n) \<subseteq> set (n_success n')"
proof -
  from assms(1) have i: "ninv (n\<lparr>n_mon := m\<rparr>)" and r: "n_todo n \<noteq> None \<longrightarrow> ec \<in> set (n_round n)" by (auto simp: fine_def)
  have "fine ec (n_mon n') (e, n') \<and> goes_on ec m (n_mon n') \<and>
      buffered (n_mon n') ec = buffered m ec @ (if ec \<in> set (n_success n') - set (n_success n) then [e] else []) \<and>
      set (n_success n) \<subseteq> set (n_success n')"
  proof (rule nstep_effect [OF i assms(4)])
    assume q: "n_mon n' = n_mon (n\<lparr>n_mon := m\<rparr>)" "n_success n' = n_success (n\<lparr>n_mon := m\<rparr>)"
      "n_round n' = n_round (n\<lparr>n_mon := m\<rparr>) \<and> n_todo (n\<lparr>n_mon := m\<rparr>) \<noteq> None \<or>
       set (n_round n') = set (m_subscribers (n_mon (n\<lparr>n_mon := m\<rparr>)))"
    with ninv_nstep [OF i assms(4)] r assms(2,3) goes_on_refl show ?thesis
      by (auto simp: fine_def)
  next
    fix c sub assume c: "m_objs (n_mon (n\<lparr>n_mon := m\<rparr>)) c = Some sub" "\<not> s_closed sub" "s_c sub = c"
      "chan_send c e (n_mon (n\<lparr>n_mon := m\<rparr>)) = (Ret (), n_mon n')" "n_success n' = n_success (n\<lparr>n_mon := m\<rparr>) @ [c]"
      "c \<notin> set (n_success (n\<lparr>n_mon := m\<rparr>))" "n_round n' = n_round (n\<lparr>n_mon := m\<rparr>)" "n_todo (n\<lparr>n_mon := m\<rparr>) \<noteq> None"
    then have "m_objs m c = Some sub" "chan_send c e m = (Ret (), n_mon n')" by simp_all
    from sends_goes_on [OF assms(2,3) this(1) c(2,3) this(2)] ninv_nstep [OF i assms(4)] r c show ?thesis
      by (auto simp: fine_def)
  qed
  then show "fine ec (n_mon n') (e, n')" "goes_on ec m (n_mon n')"
    "buffered (n_mon n') ec = buffered m ec @ (if ec \<in> set (n_success n') - set (n_success n) then [e] else [])"
    "set (n_success n) \<subseteq> set (n_success n')" by blast+
qed

lemma rinv_notifies:
  assumes "rinv s" and i: "i < length (sm_notifying s)" "sm_notifying s ! i = (e, n)"
    and step: "nstep e (n\<lparr>n_mon := sm_monitor s\<rparr>) n'"
  shows "rinv (s\<lparr>sm_monitor := n_mon n', sm_notifying := (sm_notifying s)[i := (e, n')]\<rparr>)"
proof -
  let ?ec = "sm_ec s"
  obtain xs ys where ns: "sm_notifying s = xs @ (e, n) # ys" and len: "length xs = i"
    using id_take_nth_drop [OF i(1)] i by (metis length_take min.absorb4)
  from assms(1) have s: "minv (sm_monitor s)" "?ec \<in> set (m_subscribers (sm_monitor s))" "list_all (fine ?ec (sm_monitor s)) (sm_notifying s)"
    by (auto simp: rinv_def)
  from s(3) ns have f: "fine ?ec (sm_monitor s) (e, n)" "list_all (fine ?ec (sm_monitor s)) xs" "list_all (fine ?ec (sm_monitor s)) ys"
    by auto
  note n' = fine_nstep [OF f(1) s(1,2) step]
  let ?new = "if ?ec \<in> set (n_success n') - set (n_success n) then [e] else []"
  have buf: "buffered (n_mon n') ?ec = in_channel s @ ?new" using n'(3) by (simp add: in_channel_def)
  have ns': "(sm_notifying s)[i := (e, n')] = xs @ (e, n') # ys" by (simp add: ns len [symmetric])
  have all: "mset (sm_received s @ in_channel s @ ?new) = mset (got ?ec (xs @ (e, n') # ys))"
    using assms(1) n'(4) by (auto simp: rinv_def ns)
  have order: "sm_received s @ in_channel s @ ?new = got ?ec (xs @ (e, n') # ys) \<and> in_turn (sm_waits s) (xs @ (e, n') # ys)"
    if "\<not> sm_late s"
  proof -
    have "\<not> n_done n" using step by (rule nstep_cases) simp_all
    moreover from assms(1) that have eq: "sm_received s @ in_channel s = got ?ec (xs @ (e, n) # ys)"
      and "in_turn (sm_waits s) (xs @ (e, n) # ys)" by (auto simp: rinv_def ns)
    ultimately have "ys = []" "sm_waits s" "list_all (n_done \<circ> snd) xs"
      by (auto simp: in_turn_def butlast_append split: if_splits)
    moreover have "sm_received s @ in_channel s @ ?new = got ?ec (xs @ [(e, n)]) @ ?new"
      using eq \<open>ys = []\<close> by (metis append_assoc)
    ultimately show ?thesis using n'(4) by (auto simp: in_turn_def)
  qed
  have "list_all (fine ?ec (n_mon n')) (xs @ (e, n') # ys)"
    using n'(1) all_fine [OF f(2) n'(2)] all_fine [OF f(3) n'(2)] by simp
  moreover have "map fst (xs @ (e, n') # ys) = map fst (sm_notifying s)" by (simp add: ns)
  moreover have "minv (n_mon n')" "?ec \<in> set (m_subscribers (n_mon n'))" using n'(2) by (auto simp: goes_on_def)
  ultimately show ?thesis
    using assms(1) all order buf unfolding rinv_def ns' by (simp add: in_channel_def del: got_simps)
qed

lemma rinv_new: "new_shim sid x = Ret s \<Longrightarrow> rinv s"
proof -
  assume new: "new_shim sid x = Ret s"
  have m: "minv (snd (Subscribe new_monitor))" by (rule minv_Subscribe [OF minv_new])
  from new have "sm_monitor s = snd (Subscribe new_monitor)" "sm_ec s = 0" "sm_notifying s = []" "sm_exits s = []"
    "sm_reaped s = []" "sm_received s = []" "\<not> sm_waits s" "sm_system s = new_system sid x"
    by (auto simp: new_shim_def Subscribe_def new_monitor_def Let_def)
  with m show "rinv s"
    by (simp add: rinv_def in_turn_def in_channel_def exit_count_def new_system_def Subscribe_def new_monitor_def Let_def)
qed

lemma new_notifier_ninv: "t0 \<in> {TRunning, TExpired} \<Longrightarrow> start_notify t0 m = (Ret n, m') \<Longrightarrow> minv m \<Longrightarrow>
    ninit n \<and> n_mon n = m \<and> n_success n = [] \<and> n_todo n = None"
  by (auto simp: start_notify_def ninit_def)

lemma fine_new:
  assumes "t0 \<in> {TRunning, TExpired}" and "start_notify t0 m = (Ret n, m')" and "minv m"
  shows "fine ec m (e, n)" and "n_success n = []"
proof -
  from new_notifier_ninv [OF assms] have n: "ninit n" "n_mon n = m" "n_success n = []" "n_todo n = None" by simp_all
  from n(2) have "n\<lparr>n_mon := m\<rparr> = n" by (cases n) simp
  with ninv_init [OF n(1)] n(4) show "fine ec m (e, n)" by (simp add: fine_def)
qed (use new_notifier_ninv [OF assms] in simp)

lemma rinv_step: "rinv s \<Longrightarrow> shim_step P s t \<Longrightarrow> rinv t"
proof (erule shim_step_cases)
  fix x w results pidfile exits err w'
  assume "rinv s" "sm_exits s = []" "t = s\<lparr>sm_exits := exits, sm_reaped := sm_reaped s @ exits,
    sm_system := (sm_system s)\<lparr>sy_shared := (sy_shared (sm_system s))\<lparr>sh_ext := (x, w')\<rparr>\<rparr>\<rparr>"
  then show "rinv t" by (simp add: rinv_def in_channel_def)
next
  fix e es t0 n m
  assume s: "rinv s" "sm_exits s = e # es" "\<not> sm_waits s" and n: "t0 = TRunning \<or> t0 = TExpired" "start_notify t0 (sm_monitor s) = (Ret n, m)"
    and t: "t = s\<lparr>sm_exits := es, sm_waits := True, sm_notifying := sm_notifying s @ [(e, n)]\<rparr>"
  from s(1) have "minv (sm_monitor s)" by (simp add: rinv_def)
  from fine_new [of t0, OF _ n(2) this] n(1) s show "rinv t" unfolding t by (auto simp: rinv_def in_channel_def in_turn_def)
next
  assume s: "rinv s" "sm_waits s" "n_done (snd (last (sm_notifying s)))" "t = s\<lparr>sm_waits := False\<rparr>"
  then have "in_turn False (sm_notifying s)" if "in_turn True (sm_notifying s)"
    using that by (cases "sm_notifying s" rule: rev_cases) (auto simp: in_turn_def rinv_def)
  with s show "rinv t" by (auto simp: rinv_def in_channel_def)
next
  assume "rinv s" "sm_waits s" "t = s\<lparr>sm_waits := False, sm_late := True\<rparr>"
  then show "rinv t" by (auto simp: rinv_def in_channel_def)
next
  fix i e n n'
  assume "rinv s" "t = s\<lparr>sm_monitor := n_mon n', sm_notifying := (sm_notifying s)[i := (e, n')]\<rparr>"
    "i < length (sm_notifying s)" "sm_notifying s ! i = (e, n)" "nstep e (n\<lparr>n_mon := sm_monitor s\<rparr>) n'"
  then show "rinv t" by (auto intro: rinv_notifies)
next
  fix ord pord :: "(string \<times> nat) list \<Rightarrow> (string \<times> nat) list" and e m
  assume s: "rinv s" and r: "chan_recv (sm_ec s) (sm_monitor s) = (Ret (Some e), m)"
    and t: "t = s\<lparr>sm_monitor := m, sm_received := sm_received s @ [e], sm_system := (sm_system s)\<lparr>sy_tasks :=
       sy_tasks (sm_system s) @ [(FromExits, t_exit P ord pord (x_Pid e) (x_Status e))]\<rparr>\<rparr>"
  from s have "minv (sm_monitor s)" "sm_ec s \<in> set (m_subscribers (sm_monitor s))" by (auto simp: rinv_def)
  note m = takes_goes_on [OF this r]
  from m(3) [of e] have "in_channel s = e # buffered m (sm_ec s)" by (simp add: in_channel_def)
  with s m(1) all_fine [of "sm_ec s" "sm_monitor s" "sm_notifying s" m] show "rinv t" unfolding t
    by (auto simp: rinv_def in_channel_def exit_count_task goes_on_def)
next
  fix c m assume s: "rinv s" "Subscribe (sm_monitor s) = (Ret c, m)" "t = s\<lparr>sm_monitor := m\<rparr>"
  then have "minv (sm_monitor s)" "sm_ec s \<in> set (m_subscribers (sm_monitor s))" by (auto simp: rinv_def)
  from subscribes_goes_on [OF this s(2)] s(1,3) show "rinv t" by (simp add: in_channel_def rinv_monitor)
next
  fix c m assume s: "rinv s" "c \<noteq> sm_ec s" "Unsubscribe c (sm_monitor s) = (Ret (), m)" "t = s\<lparr>sm_monitor := m\<rparr>"
  then have "minv (sm_monitor s)" "sm_ec s \<in> set (m_subscribers (sm_monitor s))" by (auto simp: rinv_def)
  from unsubscribes_goes_on [OF this s(2,3)] s(1,4) show "rinv t" by (simp add: in_channel_def rinv_monitor)
next
  fix c r m assume s: "rinv s" "c \<noteq> sm_ec s" "chan_recv c (sm_monitor s) = (Ret r, m)" "t = s\<lparr>sm_monitor := m\<rparr>"
  then have "minv (sm_monitor s)" "sm_ec s \<in> set (m_subscribers (sm_monitor s))" by (auto simp: rinv_def)
  from takes_goes_on(1,2) [OF this s(3)] s(1,2,4) show "rinv t" by (simp add: in_channel_def rinv_monitor)
next
  fix \<sigma> assume "rinv s" "t = s\<lparr>sm_system := \<sigma>\<rparr>" "exit_count \<sigma> = exit_count (sm_system s)"
  then show "rinv t" by (simp add: rinv_def in_channel_def)
qed

interpretation rep: step_invariant "\<lambda>s. new_shim sid x = Ret s" "shim_step P" rinv for sid x P
  by unfold_locales (blast intro: rinv_new rinv_step)+

subsection \<open>The parts of a running shim\<close>

lemma shim_step_system: "shim_step P s t \<Longrightarrow> (sys_step P)\<^sup>*\<^sup>* (sm_system s) (sm_system t)"
  by (erule shim_step_cases) (auto intro: sys_step.outside sys_step.exits)

lemma shim_system:
  assumes "new_shim sid x = Ret s0" and "(shim_step P)\<^sup>*\<^sup>* s0 s"
  shows "(sys_step P)\<^sup>*\<^sup>* (new_system sid x) (sm_system s)"
  using assms(2)
proof (induction rule: rtranclp_induct)
  case base
  from assms(1) show ?case by (auto simp: new_shim_def Subscribe_def Let_def)
next
  case (step s t)
  then show ?case using shim_step_system by (meson rtranclp_trans)
qed

text \<open>What a step of the shim is for one \<open>notify\<close>: a step of its own or of its environment, if any.\<close>

definition notify_moves :: "rexit \<Rightarrow> notifier \<Rightarrow> notifier \<Rightarrow> bool" where
  "notify_moves e n n' \<longleftrightarrow> n' = n \<or> run_step e n n'"

lemma goes_on_moves: "goes_on ec m m' \<Longrightarrow> notify_moves e (n\<lparr>n_mon := m\<rparr>) (n\<lparr>n_mon := m'\<rparr>)"
  by (auto simp: goes_on_def notify_moves_def run_step_def)

lemma rinv_consistent: "rinv s \<Longrightarrow> minv (sm_monitor s)" "rinv s \<Longrightarrow> sm_ec s \<in> set (m_subscribers (sm_monitor s))"
  by (simp_all add: rinv_def)

lemma shim_step_monitor:
  assumes "rinv s" and "shim_step P s t"
  shows "goes_on (sm_ec s) (sm_monitor s) (sm_monitor t)"
  using assms(2)
proof (rule shim_step_cases)
  fix i e n n'
  assume t: "t = s\<lparr>sm_monitor := n_mon n', sm_notifying := (sm_notifying s)[i := (e, n')]\<rparr>"
    and i: "i < length (sm_notifying s)" "sm_notifying s ! i = (e, n)" and step: "nstep e (n\<lparr>n_mon := sm_monitor s\<rparr>) n'"
  have "fine (sm_ec s) (sm_monitor s) (e, n)" using assms(1) i by (auto simp: rinv_def list_all_length)
  from fine_nstep(2) [OF this rinv_consistent [OF assms(1)] step] show ?thesis by (simp add: t)
qed (use rinv_consistent [OF assms(1)] in \<open>auto intro: goes_on_refl takes_goes_on(1) subscribes_goes_on(1) unsubscribes_goes_on(1)\<close>)

lemma shim_step_notify:
  assumes "rinv s" and "shim_step P s t" and "i < length (sm_notifying s)" and "sm_notifying s ! i = (e, n)"
  shows "\<exists>n'. i < length (sm_notifying t) \<and> sm_notifying t ! i = (e, n') \<and>
    notify_moves e (n\<lparr>n_mon := sm_monitor s\<rparr>) (n'\<lparr>n_mon := sm_monitor t\<rparr>)"
proof -
  have moves: "notify_moves e (n\<lparr>n_mon := sm_monitor s\<rparr>) (n\<lparr>n_mon := sm_monitor t\<rparr>)"
    by (rule goes_on_moves [OF shim_step_monitor [OF assms(1,2)]])
  show ?thesis
    using assms(2)
  proof (rule shim_step_cases)
    fix j e' k n'
    assume t: "t = s\<lparr>sm_monitor := n_mon n', sm_notifying := (sm_notifying s)[j := (e', n')]\<rparr>"
      and j: "j < length (sm_notifying s)" "sm_notifying s ! j = (e', k)" and step: "nstep e' (k\<lparr>n_mon := sm_monitor s\<rparr>) n'"
    show ?thesis
    proof (cases "i = j")
      case True
      with j assms(4) step have "run_step e (n\<lparr>n_mon := sm_monitor s\<rparr>) n'" by (simp add: run_step_def)
      moreover have "n'\<lparr>n_mon := n_mon n'\<rparr> = n'" by simp
      ultimately show ?thesis using True j assms(4) by (auto simp: t notify_moves_def)
    next
      case False
      with moves assms(3,4) show ?thesis by (auto simp: t)
    qed
  qed (use moves assms(3,4) in \<open>auto simp: nth_append\<close>)
qed

lemma shim_step_starts:
  assumes "rinv s" and "shim_step P s t" and "\<not> i < length (sm_notifying s)" and "i < length (sm_notifying t)"
    and "sm_notifying t ! i = (e, n)"
  shows "ninit (n\<lparr>n_mon := sm_monitor t\<rparr>)"
  using assms(2)
proof (rule shim_step_cases)
  fix e' es t0 n' m
  assume t0: "t0 = TRunning \<or> t0 = TExpired" and n': "start_notify t0 (sm_monitor s) = (Ret n', m)"
    and t: "t = s\<lparr>sm_exits := es, sm_waits := True, sm_notifying := sm_notifying s @ [(e', n')]\<rparr>"
  from assms(3-5) have "n = n'" by (simp add: t nth_append less_Suc_eq)
  moreover have "ninit n'" "n_mon n' = sm_monitor s"
    using new_notifier_ninv [of t0, OF _ n' rinv_consistent(1) [OF assms(1)]] t0 by auto
  moreover from this(2) have same: "n'\<lparr>n_mon := sm_monitor s\<rparr> = n'" by (cases n') simp
  ultimately show ?thesis by (simp add: t same)
qed (use assms(3,4) in simp_all)

lemma shim_notify:
  assumes "new_shim sid x = Ret s0" and "(shim_step P)\<^sup>*\<^sup>* s0 s" and "(e, n) \<in> set (sm_notifying s)"
  shows "\<exists>n0. ninit n0 \<and> (run_step e)\<^sup>*\<^sup>* n0 (n\<lparr>n_mon := sm_monitor s\<rparr>)"
  using assms(2,3)
proof (induction arbitrary: n rule: rtranclp_induct)
  case base
  with assms(1) show ?case by (auto simp: new_shim_def Subscribe_def Let_def)
next
  case (step s t)
  have r: "rinv s" by (rule rep.inv_reach [OF assms(1) step.hyps(1)])
  from step.prems obtain i where i: "i < length (sm_notifying t)" "sm_notifying t ! i = (e, n)"
    by (auto simp: in_set_conv_nth)
  show ?case
  proof (cases "i < length (sm_notifying s)")
    case True
    obtain e1 n1 where n1: "sm_notifying s ! i = (e1, n1)" by (cases "sm_notifying s ! i")
    from shim_step_notify [OF r step.hyps(2) True n1] i(2) have e: "e1 = e"
      and m: "notify_moves e (n1\<lparr>n_mon := sm_monitor s\<rparr>) (n\<lparr>n_mon := sm_monitor t\<rparr>)" by auto
    have "(e, n1) \<in> set (sm_notifying s)" using True n1 e nth_mem by metis
    from step.IH [OF this] m show ?thesis unfolding notify_moves_def by (metis rtranclp.rtrancl_into_rtrancl)
  next
    case False
    from shim_step_starts [OF r step.hyps(2) False i] show ?thesis by blast
  qed
qed


subsection \<open>From Reap to the service\<close>

lemma done_has_sent:
  assumes "rinv s" and "(e, n) \<in> set (sm_notifying s)" and "n_done n"
  shows "sm_ec s \<in> set (n_success n)"
proof -
  let ?n = "n\<lparr>n_mon := sm_monitor s\<rparr>"
  from assms(1,2) have i: "ninv ?n" and r: "n_todo n \<noteq> None \<longrightarrow> sm_ec s \<in> set (n_round n)"
    by (auto simp: rinv_def fine_def list_all_iff)
  from i r assms(3) have "served ?n (sm_ec s)" by (auto simp: ninv_def)
  moreover have "\<not> closed_obj (sm_monitor s) (sm_ec s)"
    using registered [OF rinv_consistent [OF assms(1)]] by (auto simp: closed_obj_def)
  ultimately show ?thesis by (simp add: served_def)
qed

lemma got_some: "mset (got ec ns) \<subseteq># mset (map fst ns)"
  by (induction ns) (auto simp: subset_mset.le_iff_add split: prod.splits)

lemma got_all: "list_all (\<lambda>(e, n). ec \<in> set (n_success n)) ns \<Longrightarrow> got ec ns = map fst ns"
  by (induction ns) auto

text \<open>C25: every exit that \<open>Reap\<close> collects reaches the service at most once, whatever the timing: what
  the service has received or finds in its channel are exits that were announced, each announced
  one at most once; and when every \<open>notify\<close> has ended they are exactly those that were announced.\<close>

theorem exits_reach_service_once:
  assumes "new_shim sid x = Ret s0" and "(shim_step P)\<^sup>*\<^sup>* s0 s"
  shows "sm_reaped s = map fst (sm_notifying s) @ sm_exits s \<and>
    mset (sm_received s @ in_channel s) \<subseteq># mset (map fst (sm_notifying s)) \<and>
    (list_all (\<lambda>(e, n). n_done n) (sm_notifying s) \<longrightarrow>
       mset (sm_received s @ in_channel s) = mset (map fst (sm_notifying s))) \<and>
    exit_count (sm_system s) = length (sm_received s)"
proof -
  have r: "rinv s" by (rule rep.inv_reach [OF assms])
  have "got (sm_ec s) (sm_notifying s) = map fst (sm_notifying s)" if "list_all (\<lambda>(e, n). n_done n) (sm_notifying s)"
    by (rule got_all) (use that done_has_sent [OF r] in \<open>auto simp: list_all_iff\<close>)
  with r show ?thesis using got_some [of "sm_ec s" "sm_notifying s"] by (simp add: rinv_def)
qed

text \<open>C26: as long as no \<open>notify\<close> takes longer than the second that \<open>Reap\<close> waits for it, the service gets
  the exits in the order in which they were collected, and at most the last announced is missing.\<close>

theorem exits_in_order:
  assumes "new_shim sid x = Ret s0" and "(shim_step P)\<^sup>*\<^sup>* s0 s" and "\<not> sm_late s"
  shows "prefix (sm_received s @ in_channel s) (sm_reaped s) \<and>
    length (sm_notifying s) \<le> Suc (length (sm_received s @ in_channel s))"
proof -
  have r: "rinv s" by (rule rep.inv_reach [OF assms(1,2)])
  with assms(3) have eq: "sm_received s @ in_channel s = got (sm_ec s) (sm_notifying s)"
    and turn: "in_turn (sm_waits s) (sm_notifying s)" and reaped: "sm_reaped s = map fst (sm_notifying s) @ sm_exits s"
    by (auto simp: rinv_def)
  have all: "got (sm_ec s) ns = map fst ns" if "list_all (n_done \<circ> snd) ns" "set ns \<subseteq> set (sm_notifying s)" for ns
    by (rule got_all) (use that done_has_sent [OF r] in \<open>force simp: list_all_iff\<close>)
  have "prefix (got (sm_ec s) (sm_notifying s)) (map fst (sm_notifying s)) \<and>
      length (sm_notifying s) \<le> Suc (length (got (sm_ec s) (sm_notifying s)))"
  proof (cases "sm_notifying s" rule: rev_cases)
    case (snoc ns x)
    from turn snoc have "list_all (n_done \<circ> snd) ns" by (auto simp: in_turn_def split: if_splits)
    then have "got (sm_ec s) ns = map fst ns" using snoc by (intro all) auto
    with snoc show ?thesis by (cases x) (auto simp: prefix_def)
  qed simp
  then show ?thesis unfolding eq reaped by (auto simp: prefix_def)
qed

end
