(* ===== verification/Shim_Guarantees.thy ===== *)
theory Shim_Guarantees
  imports Shim_Calls
begin

text \<open>
  What the shim's task service guarantees and what it misses, for every state that it can reach:
  what it knows of its containers, which events it sends and in what order, what the single
  requests do, and which exits are never reported. The theory ends with a small instance of the
  packages the shim calls, on which the statements are applied.
\<close>

subsection \<open>What the service guarantees\<close>

text \<open>A service that has served any requests, seen any exits and forwarded any events knows
  every container under its own id, with its first process and no other; the lock of the events
  is free, the lock of the containers is free as long as the service has not shut down, at most
  128 events are waiting, and it has shut down only without containers.\<close>

theorem service_invariant:
  assumes "(svc_step P)\<^sup>*\<^sup>* (new_service sid x) t"
  shows "(\<forall>cid c. map_of (sv_containers t) cid = Some c \<longrightarrow>
      ct_ID c = cid \<and> ct_process c \<noteq> None \<and> ct_processes c = []) \<and>
    \<not> sv_sendMu t \<and> sv_mu t = sv_eventsClosed t \<and> length (sv_events t) \<le> 128 \<and>
    (sv_eventsClosed t \<longrightarrow> sv_containers t = [])"
  using sv_reach [OF assms] sinv_fresh [OF sv_reach [OF assms]]
  by (auto simp: sinv_def fresh_container_def eventsCapacity_def)

lemma with_process_missing:
  assumes "getContainer P cid t = (Ret (Inr c), t)" and "getProcess P c eid = ret (Inl e)"
  shows "with_process P cid eid conv k t = (Ret (Inl (conv e)), t)"
  using assms by (simp add: with_process_def bnd_def)

text \<open>\<open>Exec\<close> reports success but no process is ever added, so that every request that names
  a process of the container is answered with an error, in every state of the service.\<close>

theorem exec_process_not_found:
  assumes "(svc_step P)\<^sup>*\<^sup>* (new_service sid x) t" and "map_of (sv_containers t) cid = Some c" and "eid \<noteq> []"
  shows "Exec t = (Ret (Inr ()), t) \<and> (\<exists>e. Start P cid eid t = (Ret (Inl e), t)) \<and>
    (\<exists>e. Delete P cid eid t = (Ret (Inl e), t)) \<and> (\<exists>e. Kill P cid eid sig every t = (Ret (Inl e), t)) \<and>
    (\<exists>e. State P cid eid t = (Ret (Inl e), t)) \<and> (\<exists>e. Wait P cid eid t = (Ret (Inl e), t))"
proof -
  have i: "sinv t" by (rule sv_reach [OF assms(1)])
  have free: "\<not> sv_mu t" "\<not> sv_sendMu t" using i assms(2) by (auto simp: sinv_def)
  then have gc: "getContainer P cid t = (Ret (Inr c), t)" using assms(2) by (simp add: getContainer_Ret)
  have gp: "getProcess P c eid = ret (Inl (EWrap ''process does not exist %s'' [eid] (pk_NotFound P)))"
    by (simp add: getProcess_fresh [OF sinv_fresh [OF i assms(2)]] assms(3))
  have "t\<lparr>sv_sendMu := True, sv_sendMu := False\<rparr> = t" using free by simp
  then have "\<exists>e. Start P cid eid t = (Ret (Inl e), t)"
    by (simp add: Start_def bnd_def thn_def gc gp lock_send_def unlock_send_def free)
  then show ?thesis unfolding Delete_def Kill_def State_def Wait_def
    by (simp add: with_process_missing [OF gc gp] Exec_def)
qed

text \<open>Every event that was ever sent, with its topic: published first, then those that wait.\<close>

definition event_log :: "'x service \<Rightarrow> (topic \<times> event) list" where
  "event_log s = sv_published s @ map (\<lambda>e. (getTopic e, e)) (sv_events s)"

lemma quiet_log: "quiet s t \<Longrightarrow> prefix (event_log s) (event_log t)"
  by (auto simp: quiet_def event_log_def prefix_def)

lemma event_log_containers [simp]: "event_log (s\<lparr>sv_containers := c\<rparr>) = event_log s"
  by (simp add: event_log_def)

lemma quiet_log_containers:
  "quiet s u \<Longrightarrow> quiet (u\<lparr>sv_containers := c\<rparr>) t \<Longrightarrow> prefix (event_log s) (event_log t)"
  by (metis quiet_log event_log_containers prefix_order.trans)

lemma log_step:
  assumes "sinv s" and "svc_step P s t"
  shows "prefix (event_log s) (event_log t)"
  using assms(2)
proof (rule svc_step_cases)
  fix rq r assume "serve P rq s = (Ret r, t)"
  from serve_quiet [OF this] show ?thesis
  proof (elim disjE exE conjE)
    fix ns rq' x assume "Create P ns rq' s = (Ret x, t)"
    then show ?thesis by (rule Create_effect) (auto intro: quiet_log quiet_log_containers)
  next
    fix cid eid x assume "Delete P cid eid s = (Ret x, t)"
    then show ?thesis
      by (rule Delete_effect) (auto intro: quiet_log quiet_log_containers sinv_fresh [OF assms(1)])
  next
    fix x assume "Shutdown s = (Ret x, t)"
    then show ?thesis by (auto simp: Shutdown_Ret event_log_def split: if_splits)
  qed (rule quiet_log)
next
  fix ord pord pid status assume "checkProcesses P ord pord pid status s = (Ret (), t)"
  then show ?thesis by (rule quiet_log [OF returns_keepE [OF checkProcesses_quiet]])
next
  fix b assume "forward_one s = (Ret b, t)"
  then show ?thesis by (auto simp: forward_one_Ret event_log_def split: list.splits)
qed

text \<open>No event is lost, repeated or reordered on its way to the publisher: what was published
  or is waiting at one time is a prefix of what was published or is waiting later, and an event is
  published under the topic of its type.\<close>

theorem events_in_order:
  assumes "(svc_step P)\<^sup>*\<^sup>* (new_service sid x) s" and "(svc_step P)\<^sup>*\<^sup>* s t"
  shows "prefix (event_log s) (event_log t)"
  using assms(2)
proof (induction rule: rtranclp_induct)
  case (step u v)
  have "sinv u" by (rule sv.inv_run [OF step.hyps(1) sv_reach [OF assms(1)]])
  with step show ?case using log_step prefix_order.trans by blast
qed simp

text \<open>C28: \<open>Create\<close> either fails and leaves containers and events as they are, or records the
  container under its id, replacing whatever was there, sends one create event with the pid it
  answers, and leaves every other container alone.\<close>

theorem Create_result:
  assumes "Create P ns r s = (Ret x, t)"
  shows "case x of
      Inl e \<Rightarrow> sv_containers t = sv_containers s \<and> sv_events t = sv_events s
    | Inr pid \<Rightarrow> \<exists>c p. map_of (sv_containers t) = (map_of (sv_containers s))(rq_ID r \<mapsto> c) \<and>
        ct_process c = Some p \<and> pid = u32 (pk_Pid P p (sv_ext t)) \<and>
        sv_events t = sv_events s @ [TaskCreate (rq_ID r) (rq_Bundle r) (rq_Rootfs r)
          \<lparr>io_Stdin = rq_Stdin r, io_Stdout = rq_Stdout r, io_Stderr = rq_Stderr r, io_Terminal = rq_Terminal r\<rparr>
          (rq_Checkpoint r) pid]"
proof (cases "pk_MarshalOptions P runu_options")
  case (Inl err)
  with assms show ?thesis by (auto simp: Create_def)
next
  case (Inr a)
  let ?r = "r\<lparr>rq_Options := Some a\<rparr>"
  from assms Inr obtain res u where nc: "newContainer P ns (sv_platform s) ?r s = (Ret res, u)"
    and rest: "(case res of Inl err \<Rightarrow> ret (Inl err) | Inr c \<Rightarrow> announce_created P ?r c) u = (Ret x, t)"
    unfolding Create_def by (auto simp: bnd_Ret_iff)
  note only = ext_onlyD [OF keepsE [OF newContainer_only nc]]
  show ?thesis
  proof (cases res)
    case (Inl err)
    with rest only show ?thesis by auto
  next
    case (Inr c)
    with rest have "announce_created P ?r c u = (Ret x, t)" by simp
    then show ?thesis
      by (rule announce_created_Ret) (use only in \<open>auto simp: send_def update_conv' split: if_splits\<close>)
  qed
qed

text \<open>When something fails after the root file system has been set up, \<open>newContainer\<close>
  unmounts everything from it, as its last operation, and returns the error.\<close>

theorem newContainer_unmounts:
  assumes "request_options P (rq_Options r) s = (Ret (Inr opts), s)"
    and "rootfs_dir r s = (Ret (Inr rootfs), u)"
    and "mount_and_create P ns platform r opts rootfs u = (Ret (Inl err), v)"
    and "on_ext (pk_UnmountAll P rootfs) v = (Ret e, w)"
  shows "newContainer P (Inr ns) platform r s = (Ret (Inl err), w)"
  using assms by (simp add: newContainer_def bnd_def thn_def)

text \<open>C29: \<open>Delete\<close> of a container that succeeds forgets this container and no other, sends one
  delete event with what it answers, and after it the container is not found.\<close>

theorem Delete_forgets:
  assumes "(svc_step P)\<^sup>*\<^sup>* (new_service sid x) s" and "Delete P cid [] s = (Ret (Inr (st, at1, pid)), t)"
  shows "map_of (sv_containers t) = (map_of (sv_containers s))(cid := None) \<and>
    sv_events t = sv_events s @ [TaskDelete cid pid st at1] \<and>
    (\<exists>e. fst (getContainer P cid t) = Ret (Inl e))"
proof -
  have i: "sinv s" by (rule sv_reach [OF assms(1)])
  from assms(2) obtain c where c: "map_of (sv_containers s) cid = Some c"
    by (auto simp: Delete_def with_process_def bnd_iffs getContainer_Ret split: option.splits)
  note f = sinv_fresh [OF i c]
  let ?p = "the (ct_process c)"
  from assms(2) c obtain u where pd: "on_ext (pk_Delete P ?p) s = (Ret None, u)"
    and fg: "forget P cid [] c ?p u = (Ret (), t)" and r: "exit_info P ?p (sv_ext t) = (st, at1, pid)"
    by (auto simp: Delete_def with_process_def bnd_iffs getContainer_Ret getProcess_fresh [OF f])
  note only = ext_onlyD [OF keepsE [OF on_ext_only pd]]
  from i c have mu: "\<not> sv_mu u" by (auto simp: only sinv_def)
  obtain st' at' pid' where ei: "exit_info P ?p (sv_ext u) = (st', at', pid')" by (cases "exit_info P ?p (sv_ext u)")
  have del: "u\<lparr>sv_mu := True, sv_containers := AList.delete cid (sv_containers u), sv_mu := False\<rparr> =
      u\<lparr>sv_containers := AList.delete cid (sv_containers u)\<rparr>" using mu by simp
  from fg mu ei have "send (TaskDelete (ct_ID c) pid' st' at') (u\<lparr>sv_containers := AList.delete cid (sv_containers u), sv_mu := False\<rparr>) = (Ret (), t)"
    by (simp add: forget_def lock_mu_def unlock_mu_def bnd_iffs)
  then have t: "t = u\<lparr>sv_containers := AList.delete cid (sv_containers u), sv_mu := False,
      sv_events := sv_events u @ [TaskDelete (ct_ID c) pid' st' at']\<rparr>"
    by (auto simp: send_def split: if_splits)
  with r ei have "st' = st" "at' = at1" "pid' = pid" by auto
  with t f show ?thesis by (auto simp: only fresh_container_def AList.delete_conv' getContainer_Ret
        getContainer_def lock_mu_def unlock_mu_def bnd_def thn_def)
qed

text \<open>A successful \<open>Start\<close> starts the process that the request names and answers its pid;
  nothing else changes, in particular it sends no start event.\<close>

theorem Start_sends_no_event:
  assumes "Start P cid eid s = (Ret (Inr pid), t)"
  shows "\<exists>c p. map_of (sv_containers s) cid = Some c \<and> getProcess P c eid s = (Ret (Inr p), s) \<and>
    on_ext (pk_Start P p) s = (Ret None, t) \<and> pid = u32 (pk_Pid P p (sv_ext t)) \<and> sv_events t = sv_events s"
proof -
  from assms obtain c where c: "map_of (sv_containers s) cid = Some c"
    and free: "\<not> sv_sendMu s"
    by (auto simp: Start_def bnd_iffs getContainer_Ret lock_send_def split: option.splits if_splits)
  from free have same: "s\<lparr>sv_sendMu := False\<rparr> = s" by simp
  obtain p where p: "getProcess P c eid = ret (Inr p)"
    using assms c getProcess_pure [of P c eid]
    by (auto simp: Start_def bnd_iffs getContainer_Ret split: sum.splits)
  from assms c p show ?thesis
    by (auto simp: Start_def bnd_iffs getContainer_Ret lock_send_def unlock_send_def on_ext_def
        split: if_splits option.splits prod.splits)
qed

subsection \<open>Exits\<close>

lemma find_process_fresh:
  assumes "fresh_container cid c" and "\<And>xs. mset (pord xs) = mset xs"
  shows "find_process P pid (container_processes pord c) s =
    (Ret (if pk_Pid P (the (ct_process c)) (sv_ext s) = pid then ct_process c else None), s)"
proof -
  have "pord [] = []" using assms(2) [of "[]"] by simp
  with assms(1) show ?thesis by (auto simp: container_processes_def fresh_container_def bnd_def)
qed

text \<open>The exit of the process of the only container marks it as exited with its status and
  sends one exit event, with the container, the pid and the status.\<close>

theorem checkProcesses_reports:
  assumes "(svc_step P)\<^sup>*\<^sup>* (new_service sid x) s" and "sv_containers s = [(cid, c)]" and "ct_process c = Some p"
    and "pk_Pid P p (sv_ext s) = pid" and "pk_SetExited P p status (sv_ext s) = (Ret (), x')"
    and "length (sv_events s) < 128"
  shows "checkProcesses P (\<lambda>cs. cs) (\<lambda>ps. ps) pid status s =
    (Ret (), s\<lparr>sv_ext := x', sv_events := sv_events s @
       [TaskExit cid (pk_PID P p x') (u32 pid) (u32 status) (pk_ExitedAt P p x')]\<rparr>)"
proof -
  have i: "sinv s" by (rule sv_reach [OF assms(1)])
  then have f: "fresh_container cid c" and free: "\<not> sv_sendMu s" "\<not> sv_eventsClosed s"
    using assms(2) by (auto simp: sinv_def)
  have "find_process P pid (container_processes (\<lambda>ps. ps) c) s = (Ret (Some p), s)"
    using find_process_fresh [OF f, of "\<lambda>ps. ps" P pid s] assms(3,4) by simp
  with assms(2,5,6) free f show ?thesis
    by (simp add: checkProcesses_def exited_def bnd_def thn_def on_ext_def sendL_def lock_send_def
        send_def unlock_send_def eventsCapacity_def fresh_container_def)
qed

text \<open>C30: only the container that the map happens to enumerate first is looked at: if the process
  that exited belongs to another one, nothing happens, and its exit is never reported.\<close>

theorem checkProcesses_only_first:
  assumes "(svc_step P)\<^sup>*\<^sup>* (new_service sid x) s" and "\<And>xs. mset (ord xs) = mset xs" and "\<And>xs. mset (pord xs) = mset xs"
    and "ord (sv_containers s) = (cid, c) # others"
    and "pk_Pid P (the (ct_process c)) (sv_ext s) \<noteq> pid"
  shows "checkProcesses P ord pord pid status s = (Ret (), s)"
proof -
  have "(cid, c) \<in> set (sv_containers s)" using assms(2,4) by (metis list.set_intros(1) set_mset_mset)
  then have f: "fresh_container cid c" using sv_reach [OF assms(1)] by (auto simp: sinv_def)
  show ?thesis
    using find_process_fresh [OF f assms(3), of P pid s] assms(4,5) by (simp add: checkProcesses_def bnd_def)
qed

text \<open>With a container left, \<open>Shutdown\<close> does nothing; without one it ends the service and
  keeps the lock of the containers, so that every later request that looks for a container, and
  every later \<open>Shutdown\<close>, waits for ever.\<close>

theorem Shutdown_keeps_lock:
  assumes "(svc_step P)\<^sup>*\<^sup>* (new_service sid x) s" and "\<not> sv_eventsClosed s"
  shows "if sv_containers s \<noteq> [] then Shutdown s = (Ret (Inr ()), s)
    else (\<exists>t. Shutdown s = (Ret (Inr ()), t) \<and> sv_cancelled t \<and> fst (Shutdown t) = (Hang :: (goerr + unit) outcome) \<and>
      (\<forall>cid. fst (getContainer P cid t) = Hang))"
proof -
  have "\<not> sv_mu s" using sv_reach [OF assms(1)] assms(2) by (simp add: sinv_def)
  moreover have "fst (Shutdown u) = (Hang :: (goerr + unit) outcome)" "fst (getContainer P cid u) = Hang" if "sv_mu u" for u :: "'a service" and cid
    using that by (simp_all add: Shutdown_def getContainer_def lock_mu_def thn_def bnd_def)
  ultimately show ?thesis using assms(2) by (auto simp: Shutdown_Ret)
qed

subsection \<open>Witnesses\<close>

text \<open>A process package: processes are numbered, their pids are 100, 101, ..., everything succeeds.\<close>

type_synonym demo_procs = "(string \<times> int) list"

definition demo_pkg :: "demo_procs pkg" where
  "demo_pkg = \<lparr>pk_ToGRPC = (\<lambda>e. e), pk_NotFound = EFmt ''not found'' [],
     pk_FailedPrecondition = EFmt ''failed precondition'' [],
     pk_MarshalOptions = (\<lambda>opts. Inr \<lparr>any_url = ''options'', any_value = op_BinaryName opts\<rparr>),
     pk_UnmarshalAny = (\<lambda>a. Inr (MOptions (no_options\<lparr>op_BinaryName := any_value a\<rparr>))),
     pk_MarshalDetails = (\<lambda>d. Inr \<lparr>any_url = ''details'', any_value = d\<rparr>),
     pk_New = (\<lambda>ic (x, w). (Ret (length x), (x @ [(ic_ID ic, -1)], w))),
     pk_Create = (\<lambda>p c. ret None), pk_Start = (\<lambda>p. ret None), pk_Delete = (\<lambda>p. ret None),
     pk_Pause = (\<lambda>p. ret None), pk_Resume = (\<lambda>p. ret None), pk_Kill = (\<lambda>p sig all1. ret None),
     pk_SetExited = (\<lambda>p st (x, w). (Ret (), (x[p := (fst (x ! p), st)], w))),
     pk_Wait = (\<lambda>p. ret ()), pk_Status = (\<lambda>p. ret (Inr ''running'')),
     pk_Ps = (\<lambda>p cid. ret (Inr [100 + int p])), pk_StdinClose = (\<lambda>p. ret None),
     pk_Mount = (\<lambda>m target. ret (if mn_Type m = ''bind'' then None else Some (EOs ENODEV))),
     pk_UnmountAll = (\<lambda>target. ret None),
     pk_Pid = (\<lambda>p x. 100 + int p), pk_PID = (\<lambda>p x. fst (fst x ! p)),
     pk_ExitStatus = (\<lambda>p x. snd (fst x ! p)), pk_ExitedAt = (\<lambda>p x. 0),
     pk_Stdio = (\<lambda>p x. \<lparr>io_Stdin = [], io_Stdout = [], io_Stderr = [], io_Terminal = False\<rparr>),
     pk_HasStdin = (\<lambda>p x. False)\<rparr>"

definition demo_create :: "string \<Rightarrow> create_request" where
  "demo_create cid = \<lparr>rq_ID = cid, rq_Bundle = ''/b'', rq_Rootfs = [], rq_Terminal = False, rq_Stdin = [],
     rq_Stdout = [], rq_Stderr = [], rq_Checkpoint = [], rq_ParentCheckpoint = [], rq_Options = None\<rparr>"

definition demo_service :: "demo_procs service" where
  "demo_service = new_service ''shim'' ([], demo_world)"

definition demo_container :: "string \<Rightarrow> nat \<Rightarrow> darwinContainer" where
  "demo_container cid p = \<lparr>ct_mu = False, ct_ID = cid, ct_Bundle = ''/b'', ct_process = Some p, ct_processes = []\<rparr>"

abbreviation demo_created :: "string \<Rightarrow> 32 word \<Rightarrow> event" where
  "demo_created cid pid \<equiv> TaskCreate cid ''/b'' []
     \<lparr>io_Stdin = [], io_Stdout = [], io_Stderr = [], io_Terminal = False\<rparr> [] pid"

text \<open>The service with one container, and with two.\<close>

definition demo_service1 :: "demo_procs service" where
  "demo_service1 = demo_service\<lparr>sv_containers := [(''c1'', demo_container ''c1'' 0)],
     sv_events := [demo_created ''c1'' 100], sv_ext := ([(''c1'', -1)], demo_world)\<rparr>"

definition demo_service2 :: "demo_procs service" where
  "demo_service2 = demo_service\<lparr>sv_containers := [(''c1'', demo_container ''c1'' 0), (''c2'', demo_container ''c2'' 1)],
     sv_events := [demo_created ''c1'' 100, demo_created ''c2'' 101], sv_ext := ([(''c1'', -1), (''c2'', -1)], demo_world)\<rparr>"

lemmas demo_shim_defs = demo_pkg_def demo_create_def demo_service_def new_service_eq demo_container_def
  demo_service1_def demo_service2_def

lemma demo_Create:
  assumes "pid = u32 (100 + int (length x))" and "\<not> sv_eventsClosed s" and "length (sv_events s) < 128"
    and "sv_ext s = (x, w)"
  shows "Create demo_pkg (Inr ''ns'') (demo_create cid) s =
    (Ret (Inr pid), s\<lparr>sv_containers := AList.update cid (demo_container cid (length x)) (sv_containers s),
       sv_events := sv_events s @ [demo_created cid pid], sv_ext := (x @ [(cid, -1)], w)\<rparr>)"
  using assms
  by (simp add: Create_def newContainer_def request_options_def rootfs_dir_def mount_and_create_def newInit_def init_config_of_def
      create_config_of_def announce_created_def put_container_def send_def bnd_def thn_def on_ext_def
      demo_pkg_def demo_create_def demo_container_def eventsCapacity_def)

lemma demo_step1: "Create demo_pkg (Inr ''ns'') (demo_create ''c1'') demo_service = (Ret (Inr 100), demo_service1)"
  by (subst demo_Create [of 100 "[]" _ demo_world])
    (simp_all add: demo_service1_def demo_service_def new_service_eq u32_def)

lemma demo_step2: "Create demo_pkg (Inr ''ns'') (demo_create ''c2'') demo_service1 = (Ret (Inr 101), demo_service2)"
  by (subst demo_Create [of 101 "[(''c1'', -1)]" _ demo_world])
    (simp_all add: demo_service1_def demo_service2_def demo_service_def new_service_eq u32_def)

lemma demo_run:
  "(svc_step demo_pkg)\<^sup>*\<^sup>* (new_service ''shim'' ([], demo_world)) demo_service1"
  "(svc_step demo_pkg)\<^sup>*\<^sup>* (new_service ''shim'' ([], demo_world)) demo_service2"
  "(svc_step demo_pkg)\<^sup>*\<^sup>* demo_service1 demo_service2"
proof -
  have a: "svc_step demo_pkg demo_service demo_service1"
    by (rule request [of _ "RqCreate (Inr ''ns'') (demo_create ''c1'')"]) (simp add: answer_def bnd_def demo_step1)
  have b: "svc_step demo_pkg demo_service1 demo_service2"
    by (rule request [of _ "RqCreate (Inr ''ns'') (demo_create ''c2'')"]) (simp add: answer_def bnd_def demo_step2)
  show "(svc_step demo_pkg)\<^sup>*\<^sup>* (new_service ''shim'' ([], demo_world)) demo_service1"
    "(svc_step demo_pkg)\<^sup>*\<^sup>* demo_service1 demo_service2"
    using a b by (auto simp: demo_service_def)
  show "(svc_step demo_pkg)\<^sup>*\<^sup>* (new_service ''shim'' ([], demo_world)) demo_service2"
    using a b by (metis converse_rtranclp_into_rtranclp demo_service_def r_into_rtranclp)
qed

lemma demo_service_simps [simp]:
  "sv_containers demo_service1 = [(''c1'', demo_container ''c1'' 0)]"
  "sv_containers demo_service2 = [(''c1'', demo_container ''c1'' 0), (''c2'', demo_container ''c2'' 1)]"
  "sv_ext demo_service1 = ([(''c1'', -1)], demo_world)" "sv_ext demo_service2 = ([(''c1'', -1), (''c2'', -1)], demo_world)"
  "sv_events demo_service1 = [demo_created ''c1'' 100]"
  "sv_events demo_service2 = [demo_created ''c1'' 100, demo_created ''c2'' 101]"
  "\<not> sv_mu demo_service1" "\<not> sv_mu demo_service2" "\<not> sv_eventsClosed demo_service1" "\<not> sv_sendMu demo_service1"
  by (simp_all add: demo_shim_defs)

lemma service_invariant_witness:
  "ct_ID (demo_container ''c2'' 1) = ''c2'' \<and> ct_processes (demo_container ''c2'' 1) = [] \<and>
   length (sv_events demo_service2) \<le> 128"
proof -
  have "map_of (sv_containers demo_service2) ''c2'' = Some (demo_container ''c2'' 1)" by simp
  with service_invariant [OF demo_run(2)] show ?thesis by blast
qed

lemma exec_process_not_found_witness:
  "\<exists>e. Kill demo_pkg ''c1'' ''exec1'' 9 False demo_service1 = (Ret (Inl e), demo_service1)"
  using exec_process_not_found [OF demo_run(1), where cid = "''c1''" and eid = "''exec1''" and c = "demo_container ''c1'' 0"
      and sig = 9 and every = False] by simp

lemma events_in_order_witness: "prefix (event_log demo_service1) (event_log demo_service2)"
  by (rule events_in_order [OF demo_run(1,3)])

lemma Create_result_witness:
  "\<exists>c p. map_of (sv_containers demo_service2) = (map_of (sv_containers demo_service1))(''c2'' \<mapsto> c) \<and> ct_process c = Some p"
  using Create_result [OF demo_step2] by (auto simp: demo_create_def)

lemma newContainer_unmounts_witness:
  "newContainer demo_pkg (Inr ''ns'') True ((demo_create ''c1'')\<lparr>rq_Rootfs := [\<lparr>mn_Type = ''x'', mn_Source = ''/s'',
     mn_Target = [], mn_Options = []\<rparr>]\<rparr>) demo_service1 =
   (Ret (Inl (EWrap ''failed to mount rootfs component %v'' [''/s''] (EOs ENODEV))), demo_service1)"
proof -
  let ?r = "(demo_create ''c1'')\<lparr>rq_Rootfs := [\<lparr>mn_Type = ''x'', mn_Source = ''/s'', mn_Target = [], mn_Options = []\<rparr>]\<rparr>"
  have mk: "os_Mkdir (filepath_Join [''/b'', ''rootfs'']) 457 demo_world = (Ret (Some EEXIST), demo_world)"
  proof -
    let ?m = "os_Mkdir (filepath_Join [''/b'', ''rootfs'']) 457 demo_world"
    have f: "fst ?m = Ret (Some EEXIST)" by code_simp
    have "snd ?m = demo_world" if "fst ?m = Ret (Some e)" for e
      using that by (auto simp: os_Mkdir_def Let_def split: option.splits sum.splits oserr.splits if_splits)
    with f show ?thesis by (metis prod.collapse)
  qed
  have upd: "demo_service1\<lparr>sv_ext := ([(''c1'', -1)], demo_world)\<rparr> = demo_service1"
    by (simp add: demo_service1_def)
  show ?thesis
  proof (rule newContainer_unmounts [where opts = no_options and rootfs = "filepath_Join [''/b'', ''rootfs'']"
        and u = demo_service1 and v = demo_service1 and e = None])
    show "request_options demo_pkg (rq_Options ?r) demo_service1 = (Ret (Inr no_options), demo_service1)"
      by (simp add: request_options_def demo_create_def)
    show "rootfs_dir ?r demo_service1 = (Ret (Inr (filepath_Join [''/b'', ''rootfs''])), demo_service1)"
      by (simp add: rootfs_dir_def demo_create_def bnd_def on_ext_def on_world_def mk os_IsExist_def upd Let_def)
    show "on_ext (pk_UnmountAll demo_pkg (filepath_Join [''/b'', ''rootfs''])) demo_service1 = (Ret None, demo_service1)"
      by (simp add: on_ext_def demo_pkg_def upd)
    show "mount_and_create demo_pkg ''ns'' True ?r no_options (filepath_Join [''/b'', ''rootfs'']) demo_service1 =
      (Ret (Inl (EWrap ''failed to mount rootfs component %v'' [''/s''] (EOs ENODEV))), demo_service1)"
      by (simp add: mount_and_create_def bnd_def on_ext_def demo_pkg_def upd)
  qed
qed

lemma Delete_forgets_witness:
  "\<exists>t. fst (Delete demo_pkg ''c1'' [] demo_service1) = Ret (Inr (-1, 0, 100)) \<and> snd (Delete demo_pkg ''c1'' [] demo_service1) = t \<and>
     map_of (sv_containers t) = Map.empty \<and> sv_events t = [demo_created ''c1'' 100, TaskDelete ''c1'' 100 (-1) 0]"
proof -
  let ?d = "Delete demo_pkg ''c1'' [] demo_service1"
  have r: "fst ?d = Ret (Inr (-1, 0, 100))"
    by (simp add: Delete_def with_process_def getContainer_def getProcess_def find_in_def forget_def lock_mu_def unlock_mu_def
        bnd_def thn_def on_ext_def exit_info_def send_def demo_shim_defs eventsCapacity_def u32_def)
  then have "?d = (Ret (Inr (-1, 0, 100)), snd ?d)" by (metis prod.collapse)
  from Delete_forgets [OF demo_run(1) this] r show ?thesis by auto
qed

lemma Start_sends_no_event_witness:
  "\<exists>t. Start demo_pkg ''c1'' [] demo_service1 = (Ret (Inr 100), t) \<and> sv_events t = [demo_created ''c1'' 100]"
proof -
  let ?d = "Start demo_pkg ''c1'' [] demo_service1"
  have r: "fst ?d = Ret (Inr 100)"
    by (simp add: Start_def getContainer_def getProcess_def find_in_def lock_mu_def unlock_mu_def lock_send_def unlock_send_def
        bnd_def thn_def on_ext_def demo_shim_defs u32_def)
  then have "?d = (Ret (Inr 100), snd ?d)" by (metis prod.collapse)
  from Start_sends_no_event [OF this] this show ?thesis by auto
qed

lemma checkProcesses_reports_witness:
  "checkProcesses demo_pkg (\<lambda>cs. cs) (\<lambda>ps. ps) 100 137 demo_service1 =
    (Ret (), demo_service1\<lparr>sv_ext := ([(''c1'', 137)], demo_world), sv_events :=
       [demo_created ''c1'' 100, TaskExit ''c1'' ''c1'' 100 137 0]\<rparr>)"
  using checkProcesses_reports [OF demo_run(1), where cid = "''c1''" and c = "demo_container ''c1'' 0" and p = 0 and
      pid = 100 and status = 137 and x' = "([(''c1'', 137)], demo_world)"]
  by (simp add: demo_container_def demo_pkg_def u32_def)

text \<open>The second container's process, whose pid is 101, exits.\<close>

lemma checkProcesses_only_first_witness:
  "checkProcesses demo_pkg (\<lambda>cs. cs) (\<lambda>ps. ps) 101 0 demo_service2 = (Ret (), demo_service2)"
  by (rule checkProcesses_only_first [OF demo_run(2) refl refl, where cid = "''c1''" and c = "demo_container ''c1'' 0"])
    (simp_all add: demo_container_def demo_pkg_def)

lemma Shutdown_keeps_lock_witness:
  "Shutdown demo_service1 = (Ret (Inr ()), demo_service1)"
  using Shutdown_keeps_lock [OF demo_run(1)] by simp

end
