(* ===== verification/Shim_Hazards.thy ===== *)
theory Shim_Hazards
  imports Shim_Alone Shim_Guarantees
begin

text \<open>
  Interleavings that go wrong: a \<open>Create\<close> that a \<open>Shutdown\<close> or another request overtakes, and an
  exit that is reported before the creation of its container. Each starts from any reachable
  system in which a \<open>Create\<close> has made its container and is about to record it. The theory ends
  with the instances on which the statements on interleavings are applied.
\<close>

subsection \<open>Some actions of one task\<close>

definition tsteps :: "('x, 'a) thread \<times> 'x shared \<Rightarrow> ('x, 'a) thread \<times> 'x shared \<Rightarrow> bool" where
  "tsteps = (\<lambda>(t, s) (t', s'). tstep t s = (Ret t', s'))\<^sup>*\<^sup>*"

lemma tsteps_refl: "tsteps c c"
  by (simp add: tsteps_def)

lemma tsteps_step: "tstep t s = (Ret t', s') \<Longrightarrow> tsteps (t', s') c \<Longrightarrow> tsteps (t, s) c"
  unfolding tsteps_def by (rule converse_rtranclp_into_rtranclp) simp_all

lemma tsteps_trans: "tsteps c d \<Longrightarrow> tsteps d e \<Longrightarrow> tsteps c e"
  unfolding tsteps_def by (rule rtranclp_trans)

lemma tsteps_sys:
  assumes "tsteps (t, s) (t', s')" and "i < length ts"
  shows "(sys_step P)\<^sup>*\<^sup>* \<lparr>sy_shared = s, sy_tasks = ts[i := (og, t)]\<rparr> \<lparr>sy_shared = s', sy_tasks = ts[i := (og, t')]\<rparr>"
  using assms(1) unfolding tsteps_def
proof (induction "(t, s)" arbitrary: t s rule: converse_rtranclp_induct)
  case (step c)
  obtain u v where c: "c = (u, v)" by (cases c)
  with step.hyps(1) have "tstep t s = (Ret u, v)" by simp
  then have "sys_step P \<lparr>sy_shared = s, sy_tasks = ts[i := (og, t)]\<rparr> \<lparr>sy_shared = v, sy_tasks = ts[i := (og, u)]\<rparr>"
    using acts [of i "\<lparr>sy_shared = s, sy_tasks = ts[i := (og, t)]\<rparr>" og t u v P] assms(2) by simp
  then show ?case using step.hyps(3) [OF c] by (rule converse_rtranclp_into_rtranclp)
qed simp

lemma act_on:
  assumes "tsteps (t, sy_shared \<sigma>) (t', s')" and "i < length (sy_tasks \<sigma>)" and "sy_tasks \<sigma> ! i = (og, t)"
  shows "(sys_step P)\<^sup>*\<^sup>* \<sigma> \<lparr>sy_shared = s', sy_tasks = (sy_tasks \<sigma>)[i := (og, t')]\<rparr>"
proof -
  have "(sy_tasks \<sigma>)[i := (og, t)] = sy_tasks \<sigma>" using assms(3) by (metis list_update_id)
  then show ?thesis using tsteps_sys [OF assms(1,2), of P og] by (cases \<sigma>) simp
qed

text \<open>A request that runs to its end while the others stand still.\<close>

lemma run_whole:
  assumes "run (t_serve P rq) (sy_shared \<sigma>) = (Ret a, s')"
  shows "(sys_step P)\<^sup>*\<^sup>* \<sigma> \<lparr>sy_shared = s', sy_tasks = sy_tasks \<sigma> @ [(FromRequest rq, Fin a)]\<rparr>"
proof (rule converse_rtranclp_into_rtranclp, rule arrives)
  let ?ts = "sy_tasks \<sigma> @ [(FromRequest rq, t_serve P rq)]"
  from run_steps [OF assms, of "length (sy_tasks \<sigma>)" ?ts P "FromRequest rq"]
  show "(sys_step P)\<^sup>*\<^sup>* (\<sigma>\<lparr>sy_tasks := ?ts\<rparr>) \<lparr>sy_shared = s', sy_tasks = sy_tasks \<sigma> @ [(FromRequest rq, Fin a)]\<rparr>"
    by (cases \<sigma>) simp
qed

subsection \<open>A container that is about to be recorded\<close>

definition pending :: "'x pkg \<Rightarrow> create_request \<Rightarrow> nat \<Rightarrow> ('x, goerr option) thread" where
  "pending P r a = t_answer (t_announce_created P r a)"

lemma pending_object:
  assumes "oinv \<sigma>" and "i < length (sy_tasks \<sigma>)" and "sy_tasks \<sigma> ! i = (og, pending P r a)"
  shows "a < length (sh_objs (sy_shared \<sigma>)) \<and> made (rq_ID r) (sh_objs (sy_shared \<sigma>) ! a)"
proof -
  from assms obtain H where "shinv (sy_shared \<sigma>)"
    and "disc (guarded og) final H (ids_of (sy_shared \<sigma>)) (pending P r a)" by (fastforce simp: oinv_def holders_def)
  then show ?thesis using made_at [of "sy_shared \<sigma>" a]
    by (auto simp: pending_def t_answer_def t_announce_created_def disc_simps) (auto simp: ids_of_def)
qed

text \<open>What it does next: it records the container and reads the pid for its event.\<close>

definition created_event :: "create_request \<Rightarrow> 32 word \<Rightarrow> event" where
  "created_event r pid = TaskCreate (rq_ID r) (rq_Bundle r) (rq_Rootfs r)
     \<lparr>io_Stdin = rq_Stdin r, io_Stdout = rq_Stdout r, io_Stderr = rq_Stderr r, io_Terminal = rq_Terminal r\<rparr>
     (rq_Checkpoint r) pid"

lemma pending_shape:
  "\<exists>K. pending P r a = Begin_Write (End_Write (Put (rq_ID r) a) (Load a K)) \<and>
     (\<forall>c p. ct_process c = Some p \<longrightarrow> (\<exists>F. K c = Ask F \<and>
        (\<forall>x. \<exists>u. F x = Send (created_event r (u32 (pk_Pid P p x))) u)))"
  unfolding pending_def t_answer_def t_announce_created_def t_process_def t_ask_def t_send_def created_event_def
  by (rule exI, simp only: tbnd.simps, rule conjI, rule refl) (auto simp: t_deref_def)

lemma pending_records:
  assumes "a < length (sh_objs s)" and "ct_process (sh_objs s ! a) = Some p" and "\<not> sh_writing s"
  obtains u where "tsteps (pending P r a, s) (Send (created_event r (u32 (pk_Pid P p (sh_ext s)))) u,
    s\<lparr>sh_containers := AList.update (rq_ID r) a (sh_containers s)\<rparr>)"
proof -
  let ?s = "s\<lparr>sh_containers := AList.update (rq_ID r) a (sh_containers s)\<rparr>"
  obtain K where K: "pending P r a = Begin_Write (End_Write (Put (rq_ID r) a) (Load a K))"
    and F: "\<And>c p. ct_process c = Some p \<Longrightarrow> \<exists>F. K c = Ask F \<and> (\<forall>x. \<exists>u. F x = Send (created_event r (u32 (pk_Pid P p x))) u)"
    using pending_shape [of P r a] by blast
  from F [OF assms(2)] obtain F u where F': "K (sh_objs s ! a) = Ask F"
    and u: "F (sh_ext s) = Send (created_event r (u32 (pk_Pid P p (sh_ext s)))) u" by blast
  let ?w = "s\<lparr>sh_writing := True\<rparr>" and ?e = "End_Write (Put (rq_ID r) a) (Load a K)"
  have "?w\<lparr>sh_writing := False, sh_containers := m\<rparr> = s\<lparr>sh_containers := m\<rparr>" for m using assms(3) by simp
  then have "tstep ?e ?w = (Ret (Load a K), ?s)" by simp
  moreover have "tstep (Begin_Write ?e) s = (Ret ?e, ?w)" using assms(3) by simp
  moreover have "tstep (Load a K) ?s = (Ret (Ask F), ?s)" using assms(1) F' by simp
  moreover have "tstep (Ask F) ?s = (Ret (F (sh_ext s)), ?s)" by simp
  ultimately have "tsteps (pending P r a, s) (F (sh_ext s), ?s)"
    unfolding K by (meson tsteps_step tsteps_refl)
  then have "tsteps (pending P r a, s) (Send (created_event r (u32 (pk_Pid P p (sh_ext s)))) u, ?s)"
    by (simp only: u)
  then show thesis by (rule that)
qed

text \<open>C39: a \<open>Shutdown\<close> that comes while a \<open>Create\<close> has made its container but not recorded it finds no
  container and closes the channel of the events: the \<open>Create\<close> then records its container and
  panics, which ends the shim, on the event it sends.\<close>

theorem shutdown_kills_create:
  assumes "(sys_step P)\<^sup>*\<^sup>* (new_system sid x) \<sigma>" and "i < length (sy_tasks \<sigma>)"
    and "sy_tasks \<sigma> ! i = (FromRequest (RqCreate ns r), pending P r' a)"
    and "\<not> sh_mu (sy_shared \<sigma>)" and "\<not> sh_eventsClosed (sy_shared \<sigma>)" and "\<not> sh_writing (sy_shared \<sigma>)"
    and "sh_containers (sy_shared \<sigma>) = []"
  shows "\<exists>\<tau> t. (sys_step P)\<^sup>*\<^sup>* \<sigma> \<tau> \<and> i < length (sy_tasks \<tau>) \<and> sy_tasks \<tau> ! i = (FromRequest (RqCreate ns r), t) \<and>
    fst (tstep t (sy_shared \<tau>)) = Panic ''send on closed channel''"
proof -
  let ?s = "sy_shared \<sigma>"
  let ?s' = "?s\<lparr>sh_mu := True, sh_cancelled := True, sh_eventsClosed := True\<rparr>"
  from pending_object [OF sy_reach [OF assms(1)] assms(2,3)] obtain p
    where a: "a < length (sh_objs ?s)" and p: "ct_process (sh_objs ?s ! a) = Some p" by (auto simp: made_def)
  have "run (t_serve P RqShutdown) ?s = (Ret None, ?s')"
    using assms(4-7) by (simp add: t_answer_def t_Shutdown_def)
  note one = run_whole [OF this]
  let ?\<tau> = "\<lparr>sy_shared = ?s', sy_tasks = sy_tasks \<sigma> @ [(FromRequest RqShutdown, Fin None)]\<rparr>"
  obtain u where "tsteps (pending P r' a, ?s') (Send (created_event r' (u32 (pk_Pid P p (sh_ext ?s')))) u,
      ?s'\<lparr>sh_containers := AList.update (rq_ID r') a (sh_containers ?s')\<rparr>)"
    by (rule pending_records [of a ?s' p]) (use a p assms(6) in simp_all)
  moreover define \<upsilon> where "\<upsilon> = \<lparr>sy_shared = ?s'\<lparr>sh_containers := AList.update (rq_ID r') a (sh_containers ?s')\<rparr>,
      sy_tasks = (sy_tasks ?\<tau>)[i := (FromRequest (RqCreate ns r), Send (created_event r' (u32 (pk_Pid P p (sh_ext ?s')))) u)]\<rparr>"
  ultimately have "(sys_step P)\<^sup>*\<^sup>* ?\<tau> \<upsilon>"
    using act_on [of "pending P r' a" ?\<tau> _ _ i "FromRequest (RqCreate ns r)" P] assms(2,3)
    by (simp add: nth_append)
  with one have "(sys_step P)\<^sup>*\<^sup>* \<sigma> \<upsilon>" by (rule rtranclp_trans)
  moreover have "i < length (sy_tasks \<upsilon>) \<and>
      sy_tasks \<upsilon> ! i = (FromRequest (RqCreate ns r), Send (created_event r' (u32 (pk_Pid P p (sh_ext ?s')))) u) \<and>
      fst (tstep (Send (created_event r' (u32 (pk_Pid P p (sh_ext ?s')))) u) (sy_shared \<upsilon>)) = Panic ''send on closed channel''"
    using assms(2) by (simp add: \<upsilon>_def)
  ultimately show ?thesis by blast
qed

text \<open>A request that looks for a container while a \<open>Create\<close> records its own can meet the write to
  the map, which the Go runtime answers with a fatal error: the write does not take the lock that
  the reader holds.\<close>

theorem create_races:
  assumes "(sys_step P)\<^sup>*\<^sup>* (new_system sid x) \<sigma>" and "i < length (sy_tasks \<sigma>)"
    and "sy_tasks \<sigma> ! i = (FromRequest (RqCreate ns r), pending P r' a)"
    and "\<not> sh_mu (sy_shared \<sigma>)" and "\<not> sh_writing (sy_shared \<sigma>)"
  shows "\<exists>\<tau> t. (sys_step P)\<^sup>*\<^sup>* \<sigma> \<tau> \<and> (FromRequest (RqState cid eid), t) \<in> set (sy_tasks \<tau>) \<and>
    fst (tstep t (sy_shared \<tau>)) = Panic ''concurrent map access''"
proof -
  let ?s = "sy_shared \<sigma>"
  let ?\<tau> = "\<sigma>\<lparr>sy_tasks := sy_tasks \<sigma> @ [(FromRequest (RqState cid eid), t_serve P (RqState cid eid))]\<rparr>"
  have one: "sys_step P \<sigma> ?\<tau>" by (rule arrives)
  obtain k where k: "t_serve P (RqState cid eid) = Lock Mu (Map_Read k)"
    by (simp add: t_answer_def t_State_def t_with_process_def t_with_container_def t_getContainer_def)
  obtain u where u: "pending P r' a = Begin_Write u" using pending_shape [of P r' a] by blast
  let ?n = "length (sy_tasks \<sigma>)" and ?s1 = "?s\<lparr>sh_mu := True\<rparr>"
  let ?ts = "sy_tasks \<sigma> @ [(FromRequest (RqState cid eid), Map_Read k)]"
  let ?\<omega> = "\<lparr>sy_shared = ?s1\<lparr>sh_writing := True\<rparr>, sy_tasks = ?ts[i := (FromRequest (RqCreate ns r), u)]\<rparr>"
  have "tsteps (Lock Mu (Map_Read k), ?s) (Map_Read k, ?s1)"
    by (rule tsteps_step [OF _ tsteps_refl]) (use assms(4) in simp)
  then have two: "(sys_step P)\<^sup>*\<^sup>* ?\<tau> \<lparr>sy_shared = ?s1, sy_tasks = ?ts\<rparr>"
    using act_on [of "Lock Mu (Map_Read k)" ?\<tau> "Map_Read k" ?s1 ?n "FromRequest (RqState cid eid)" P] k
    by (simp del: t_serve.simps)
  have "tsteps (Begin_Write u, ?s1) (u, ?s1\<lparr>sh_writing := True\<rparr>)"
    by (rule tsteps_step [OF _ tsteps_refl]) (use assms(5) in simp)
  then have three: "(sys_step P)\<^sup>*\<^sup>* \<lparr>sy_shared = ?s1, sy_tasks = ?ts\<rparr> ?\<omega>"
    using act_on [of "Begin_Write u" "\<lparr>sy_shared = ?s1, sy_tasks = ?ts\<rparr>" u _ i "FromRequest (RqCreate ns r)" P] assms(2,3) u
    by (simp add: nth_append)
  have "(sys_step P)\<^sup>*\<^sup>* \<sigma> ?\<omega>"
    by (rule converse_rtranclp_into_rtranclp [where r = "sys_step P", OF one]) (rule rtranclp_trans [OF two three])
  moreover have "(FromRequest (RqState cid eid), Map_Read k) \<in> set (sy_tasks ?\<omega>)"
    using assms(2) by (auto simp: list_update_append)
  ultimately show ?thesis by (intro exI [of _ ?\<omega>] exI [of _ "Map_Read k"]) simp
qed

lemma run_whole_exit:
  assumes "run (t_exit P (\<lambda>cs. cs) (\<lambda>ps. ps) pid status) (sy_shared \<sigma>) = (Ret a, s')" and "exits_idle \<sigma>"
  shows "(sys_step P)\<^sup>*\<^sup>* \<sigma> \<lparr>sy_shared = s', sy_tasks = sy_tasks \<sigma> @ [(FromExits, Fin a)]\<rparr>"
proof (rule converse_rtranclp_into_rtranclp, rule exits [OF assms(2)])
  let ?ts = "sy_tasks \<sigma> @ [(FromExits, t_exit P (\<lambda>cs. cs) (\<lambda>ps. ps) pid status)]"
  from run_steps [OF assms(1), of "length (sy_tasks \<sigma>)" ?ts P FromExits]
  show "(sys_step P)\<^sup>*\<^sup>* (\<sigma>\<lparr>sy_tasks := ?ts\<rparr>) \<lparr>sy_shared = s', sy_tasks = sy_tasks \<sigma> @ [(FromExits, Fin a)]\<rparr>"
    by (cases \<sigma>) simp
qed simp_all

lemma run_exit:
  assumes "sh_containers s = [(cid, a)]" and "a < length (sh_objs s)" and "made cid (sh_objs s ! a)"
    and "ct_process (sh_objs s ! a) = Some p" and "pk_Pid P p (sh_ext s) = pid"
    and "pk_SetExited P p status (sh_ext s) = (Ret (), y)" and "\<not> sh_writing s" and "\<not> sh_sendMu s"
    and "\<not> sh_eventsClosed s" and "length (sh_events s) < eventsCapacity"
  shows "run (t_exit P (\<lambda>cs. cs) (\<lambda>ps. ps) pid status) s = (Ret None, s\<lparr>sh_ext := y, sh_events := sh_events s @
    [TaskExit cid (pk_PID P p y) (u32 pid) (u32 status) (pk_ExitedAt P p y)]\<rparr>)"
proof -
  have "s\<lparr>sh_sendMu := False\<rparr> = s" using assms(8) by simp
  with assms show ?thesis
    by (simp add: t_exit_def t_checkProcesses_def container_processes_def made_def t_deref_def t_exited_def t_ext_def
        t_ask_def t_sendL_def)
qed

text \<open>The process of a new container can exit, and its exit be reported, before the event that
  announces the container is sent: the publisher is then given the exit first.\<close>

theorem exit_before_create:
  assumes "(sys_step P)\<^sup>*\<^sup>* (new_system sid x) \<sigma>" and "i < length (sy_tasks \<sigma>)"
    and "sy_tasks \<sigma> ! i = (FromRequest (RqCreate ns r), pending P r' a)" and "exits_idle \<sigma>"
    and "\<not> sh_sendMu (sy_shared \<sigma>)" and "\<not> sh_eventsClosed (sy_shared \<sigma>)" and "\<not> sh_writing (sy_shared \<sigma>)"
    and "sh_containers (sy_shared \<sigma>) = []" and "length (sh_events (sy_shared \<sigma>)) < 127"
    and "ct_process (sh_objs (sy_shared \<sigma>) ! a) = Some p"
    and "pk_SetExited P p status (sh_ext (sy_shared \<sigma>)) = (Ret (), y)"
  defines "pid \<equiv> pk_Pid P p (sh_ext (sy_shared \<sigma>))"
  shows "\<exists>\<tau>. (sys_step P)\<^sup>*\<^sup>* \<sigma> \<tau> \<and> sh_events (sy_shared \<tau>) = sh_events (sy_shared \<sigma>) @
    [TaskExit (rq_ID r') (pk_PID P p y) (u32 pid) (u32 status) (pk_ExitedAt P p y), created_event r' (u32 pid)]"
proof -
  let ?s = "sy_shared \<sigma>" and ?og = "FromRequest (RqCreate ns r)"
  let ?exit = "TaskExit (rq_ID r') (pk_PID P p y) (u32 pid) (u32 status) (pk_ExitedAt P p y)"
  let ?s1 = "?s\<lparr>sh_containers := [(rq_ID r', a)]\<rparr>"
  let ?s2 = "?s1\<lparr>sh_ext := y, sh_events := sh_events ?s @ [?exit]\<rparr>"
  from pending_object [OF sy_reach [OF assms(1)] assms(2,3)]
  have a: "a < length (sh_objs ?s)" and m: "made (rq_ID r') (sh_objs ?s ! a)" by auto
  obtain u where "tsteps (pending P r' a, ?s) (Send (created_event r' (u32 pid)) u, ?s1)"
    using pending_records [OF a assms(10,7), of P r'] assms(8) by (auto simp: pid_def)
  from act_on [OF this assms(2,3)]
  have one: "(sys_step P)\<^sup>*\<^sup>* \<sigma> \<lparr>sy_shared = ?s1, sy_tasks = (sy_tasks \<sigma>)[i := (?og, Send (created_event r' (u32 pid)) u)]\<rparr>" .
  define \<tau> where "\<tau> = \<lparr>sy_shared = ?s1, sy_tasks = (sy_tasks \<sigma>)[i := (?og, Send (created_event r' (u32 pid)) u)]\<rparr>"
  have idle: "exits_idle \<tau>"
    using assms(2-4) by (auto simp: exits_idle_def \<tau>_def list_all_length nth_list_update)
  have "run (t_exit P (\<lambda>cs. cs) (\<lambda>ps. ps) pid status) (sy_shared \<tau>) = (Ret None, ?s2)"
    using run_exit [of ?s1 "rq_ID r'" a p P pid status y] a m assms(5-11)
    by (simp add: \<tau>_def pid_def eventsCapacity_def)
  from run_whole_exit [OF this idle]
  have two: "(sys_step P)\<^sup>*\<^sup>* \<tau> \<lparr>sy_shared = ?s2, sy_tasks = sy_tasks \<tau> @ [(FromExits, Fin None)]\<rparr>" .
  define \<upsilon> where "\<upsilon> = \<lparr>sy_shared = ?s2, sy_tasks = sy_tasks \<tau> @ [(FromExits, Fin None)]\<rparr>"
  have "tsteps (Send (created_event r' (u32 pid)) u, ?s2) (u, ?s2\<lparr>sh_events := sh_events ?s2 @ [created_event r' (u32 pid)]\<rparr>)"
    by (rule tsteps_step [OF _ tsteps_refl]) (use assms(6,9) in \<open>simp add: eventsCapacity_def\<close>)
  then have "(sys_step P)\<^sup>*\<^sup>* \<upsilon> \<lparr>sy_shared = ?s2\<lparr>sh_events := sh_events ?s2 @ [created_event r' (u32 pid)]\<rparr>,
      sy_tasks = (sy_tasks \<upsilon>)[i := (?og, u)]\<rparr>"
    using act_on [of "Send (created_event r' (u32 pid)) u" \<upsilon> u _ i ?og P] assms(2)
    by (simp add: \<upsilon>_def \<tau>_def nth_append)
  with one two have "(sys_step P)\<^sup>*\<^sup>* \<sigma> \<lparr>sy_shared = ?s2\<lparr>sh_events := sh_events ?s2 @ [created_event r' (u32 pid)]\<rparr>,
      sy_tasks = (sy_tasks \<upsilon>)[i := (?og, u)]\<rparr>"
    unfolding \<upsilon>_def \<tau>_def by (meson rtranclp_trans)
  then show ?thesis by (intro exI conjI, assumption) simp
qed

subsection \<open>Witnesses\<close>

text \<open>The small process package of theory \<open>Shim_Guarantees\<close>: a \<open>Create\<close> up to its record, and whole.\<close>

definition demo_system :: "demo_procs system" where
  "demo_system = new_system ''shim'' ([], demo_world)"

definition demo_request :: request where
  "demo_request = RqCreate (Inr ''ns'') (demo_create ''c1'')"

definition demo_stored :: create_request where
  "demo_stored = (demo_create ''c1'')\<lparr>rq_Options := Some \<lparr>any_url = ''options'', any_value = ''runu''\<rparr>\<rparr>"

definition demo_shared :: "demo_procs shared" where
  "demo_shared = (sy_shared demo_system)\<lparr>sh_ext := ([(''c1'', -1)], demo_world), sh_objs := [demo_container ''c1'' 0]\<rparr>"

definition demo_pending :: "demo_procs system" where
  "demo_pending = \<lparr>sy_shared = demo_shared, sy_tasks = [(FromRequest demo_request, pending demo_pkg demo_stored 0)]\<rparr>"

lemma demo_ops:
  "pk_MarshalOptions demo_pkg opts = Inr \<lparr>any_url = ''options'', any_value = op_BinaryName opts\<rparr>"
  "pk_UnmarshalAny demo_pkg e = Inr (MOptions (no_options\<lparr>op_BinaryName := any_value e\<rparr>))"
  "pk_New demo_pkg ic = (\<lambda>(x, w). (Ret (length x), (x @ [(ic_ID ic, -1)], w)))" "pk_Create demo_pkg p c = ret None"
  "pk_Pid demo_pkg p x = 100 + int p" "pk_PID demo_pkg p x = fst (fst x ! p)" "pk_ExitedAt demo_pkg p x = 0"
  "pk_SetExited demo_pkg p st = (\<lambda>(x, w). (Ret (), (x[p := (fst (x ! p), st)], w)))"
  by (simp_all add: demo_pkg_def)

lemmas demo_eval = t_answer_def t_Create_def t_newContainer_def t_request_options_def t_rootfs_dir_def
  t_mount_and_create_def t_newInit_def t_ext_def demo_ops demo_create_def demo_system_def new_system_def

lemma demo_to_pending:
  "tsteps (t_serve demo_pkg demo_request, sy_shared demo_system) (pending demo_pkg demo_stored 0, demo_shared)"
  unfolding demo_request_def
  apply (rule tsteps_step)
   apply (simp add: demo_eval)
  apply (rule tsteps_step)
   apply simp
  apply (rule tsteps_step)
   apply (simp add: t_ext_def demo_ops)
  apply (rule tsteps_step)
   apply simp
  apply (simp add: pending_def t_answer_def demo_stored_def demo_shared_def demo_system_def new_system_def demo_create_def
      init_config_of_def create_config_of_def demo_container_def runu_options_def)
  apply (rule tsteps_refl)
  done

lemma demo_pending_reached: "(sys_step demo_pkg)\<^sup>*\<^sup>* (new_system ''shim'' ([], demo_world)) demo_pending"
proof -
  have "sys_step demo_pkg demo_system (demo_system\<lparr>sy_tasks := [(FromRequest demo_request, t_serve demo_pkg demo_request)]\<rparr>)"
    using arrives [of demo_pkg demo_system demo_request] by (simp add: demo_system_def new_system_def)
  moreover have "(sys_step demo_pkg)\<^sup>*\<^sup>* (demo_system\<lparr>sy_tasks := [(FromRequest demo_request, t_serve demo_pkg demo_request)]\<rparr>)
      demo_pending"
    using act_on [of "t_serve demo_pkg demo_request" "demo_system\<lparr>sy_tasks := [(FromRequest demo_request, t_serve demo_pkg demo_request)]\<rparr>"
        "pending demo_pkg demo_stored 0" demo_shared 0 "FromRequest demo_request" demo_pkg] demo_to_pending
    by (simp add: demo_pending_def)
  ultimately show ?thesis unfolding demo_system_def [symmetric] by (rule converse_rtranclp_into_rtranclp)
qed

lemma demo_shared_simps [simp]:
  "sy_shared demo_pending = demo_shared" "sy_tasks demo_pending = [(FromRequest demo_request, pending demo_pkg demo_stored 0)]"
  "\<not> sh_mu demo_shared" "\<not> sh_sendMu demo_shared" "\<not> sh_writing demo_shared" "\<not> sh_eventsClosed demo_shared"
  "sh_containers demo_shared = []" "sh_events demo_shared = []" "sh_objs demo_shared = [demo_container ''c1'' 0]"
  "sh_ext demo_shared = ([(''c1'', -1)], demo_world)"
  by (simp_all add: demo_pending_def demo_shared_def demo_system_def new_system_def)

lemma overlap_invariant_witness:
  "distinct (map fst (sh_containers demo_shared)) \<and> length (sh_events demo_shared) \<le> 128"
  using overlap_invariant [OF demo_pending_reached] by simp

lemma shutdown_kills_create_witness:
  "\<exists>\<tau> t. (sys_step demo_pkg)\<^sup>*\<^sup>* demo_pending \<tau> \<and> sy_tasks \<tau> ! 0 = (FromRequest demo_request, t) \<and>
     fst (tstep t (sy_shared \<tau>)) = Panic ''send on closed channel''"
  using shutdown_kills_create [OF demo_pending_reached, of 0 "Inr ''ns''" "demo_create ''c1''" demo_stored 0]
  by (auto simp: demo_request_def)

lemma create_races_witness:
  "\<exists>\<tau> t. (sys_step demo_pkg)\<^sup>*\<^sup>* demo_pending \<tau> \<and> (FromRequest (RqState ''c1'' []), t) \<in> set (sy_tasks \<tau>) \<and>
     fst (tstep t (sy_shared \<tau>)) = Panic ''concurrent map access''"
  by (rule create_races [OF demo_pending_reached, of 0 "Inr ''ns''" "demo_create ''c1''" demo_stored 0])
    (simp_all add: demo_request_def)

lemma exit_before_create_witness:
  "\<exists>\<tau>. (sys_step demo_pkg)\<^sup>*\<^sup>* demo_pending \<tau> \<and>
     sh_events (sy_shared \<tau>) = [TaskExit ''c1'' ''c1'' 100 137 0, demo_created ''c1'' 100]"
  using exit_before_create [OF demo_pending_reached, of 0 "Inr ''ns''" "demo_create ''c1''" demo_stored 0 0 137
      "([(''c1'', 137)], demo_world)"]
  by (simp add: demo_request_def exits_idle_def demo_container_def demo_ops u32_def demo_stored_def created_event_def demo_create_def)

text \<open>Options that decode to another type, and a process package whose \<open>New\<close> never returns.\<close>

definition demo_mistyped :: "demo_procs pkg" where
  "demo_mistyped = demo_pkg\<lparr>pk_UnmarshalAny := \<lambda>a. Inr MOther\<rparr>"

definition demo_waiting :: "demo_procs pkg" where
  "demo_waiting = demo_pkg\<lparr>pk_New := \<lambda>ic. hang\<rparr>"

lemma demo_first_act:
  assumes "t_serve P demo_request = Platform k"
  shows "(sys_step P)\<^sup>*\<^sup>* (new_system ''shim'' ([], demo_world))
    \<lparr>sy_shared = sy_shared demo_system, sy_tasks = [(FromRequest demo_request, k True)]\<rparr>"
proof -
  let ?\<sigma> = "demo_system\<lparr>sy_tasks := [(FromRequest demo_request, t_serve P demo_request)]\<rparr>"
  have "sys_step P demo_system ?\<sigma>"
    using arrives [of P demo_system demo_request] by (simp add: demo_system_def new_system_def)
  moreover have "sys_step P ?\<sigma> \<lparr>sy_shared = sy_shared demo_system, sy_tasks = [(FromRequest demo_request, k True)]\<rparr>"
    using acts [of 0 ?\<sigma> "FromRequest demo_request" "t_serve P demo_request" "k True" "sy_shared demo_system" P] assms
    by (simp add: demo_system_def new_system_def)
  ultimately show ?thesis unfolding demo_system_def by (meson converse_rtranclp_into_rtranclp rtranclp.rtrancl_refl)
qed

lemma overlap_panics_witness:
  "\<exists>\<sigma> t. (sys_step demo_mistyped)\<^sup>*\<^sup>* (new_system ''shim'' ([], demo_world)) \<sigma> \<and>
     (FromRequest demo_request, t) \<in> set (sy_tasks \<sigma>) \<and> fst (tstep t (sy_shared \<sigma>)) = Panic ''interface conversion'' \<and>
     ((\<exists>f. t = Outside f) \<or> t = Die ''interface conversion'' \<or> sh_eventsClosed (sy_shared \<sigma>) \<or> sh_writing (sy_shared \<sigma>))"
proof -
  define t where "t = (Die ''interface conversion'' :: (demo_procs, goerr option) thread)"
  define \<sigma> where "\<sigma> = \<lparr>sy_shared = sy_shared demo_system, sy_tasks = [(FromRequest demo_request, t)]\<rparr>"
  have "t_serve demo_mistyped demo_request = Platform (\<lambda>b. t)"
    by (simp add: t_def demo_request_def demo_mistyped_def t_answer_def t_Create_def t_newContainer_def t_request_options_def
        demo_ops demo_create_def)
  from demo_first_act [OF this] have r: "(sys_step demo_mistyped)\<^sup>*\<^sup>* (new_system ''shim'' ([], demo_world)) \<sigma>"
    by (simp add: \<sigma>_def)
  have p: "tstep t (sy_shared \<sigma>) = (Panic ''interface conversion'', sy_shared \<sigma>)" by (simp add: t_def)
  have m: "(FromRequest demo_request, t) \<in> set (sy_tasks \<sigma>)" by (simp add: \<sigma>_def)
  from overlap_panics [OF r m p]
  have "(\<exists>f. t = Outside f) \<or> t = Die ''interface conversion'' \<or> sh_eventsClosed (sy_shared \<sigma>) \<or> sh_writing (sy_shared \<sigma>)"
    by blast
  with r m p show ?thesis by (intro exI [of _ \<sigma>] exI [of _ t]) simp
qed

lemma overlap_progress_witness:
  "\<exists>\<sigma> t. (sys_step demo_waiting)\<^sup>*\<^sup>* (new_system ''shim'' ([], demo_world)) \<sigma> \<and> stuck \<sigma> \<and>
     (FromRequest demo_request, t) \<in> set (sy_tasks \<sigma>) \<and> waits_outside (sy_shared \<sigma>) t"
proof -
  obtain f where t: "t_serve demo_waiting demo_request = Platform (\<lambda>b. Outside f)" and f: "\<And>x. f x = (Hang, x)"
    by (simp add: demo_request_def demo_waiting_def demo_eval runu_options_def create_config_of_def)
  let ?\<sigma> = "\<lparr>sy_shared = sy_shared demo_system, sy_tasks = [(FromRequest demo_request, Outside f)]\<rparr>"
  note r = demo_first_act [OF t]
  have "stuck ?\<sigma>" by (simp add: stuck_def f demo_system_def new_system_def)
  with overlap_progress [OF r this, of "FromRequest demo_request" "Outside f"] r show ?thesis
    by (auto simp: demo_system_def new_system_def finished_def intro!: exI [of _ ?\<sigma>])
qed



end
