(* ===== verification/Shim_Published.thy ===== *)
theory Shim_Published
  imports Shim_Reporting Shim_Hazards
begin

text \<open>
  The way of one exit through the whole shim: collected by \<open>Reap\<close>, sent by \<open>notify\<close>, received by
  \<open>processExits\<close> and handed to the publisher. The theory ends with the instances on which the
  statements on the shim as a whole are applied.
\<close>

subsection \<open>Steps of the parts as steps of the shim\<close>

lemma exit_count_mono: "sys_step P \<sigma> \<tau> \<Longrightarrow> exit_count \<sigma> \<le> exit_count \<tau>"
proof (erule sys_step_cases)
  fix i og t t' s'
  assume i: "i < length (sy_tasks \<sigma>)" "sy_tasks \<sigma> ! i = (og, t)"
    and \<tau>: "\<tau> = \<sigma>\<lparr>sy_shared := s', sy_tasks := (sy_tasks \<sigma>)[i := (og, t')]\<rparr>"
  obtain xs ys where "sy_tasks \<sigma> = xs @ (og, t) # ys" "length xs = i"
    using id_take_nth_drop [OF i(1)] i by (metis length_take min.absorb4)
  then show "exit_count \<sigma> \<le> exit_count \<tau>" by (auto simp: \<tau> exit_count_def)
qed (auto simp: exit_count_task)

lemma exit_counts_mono: "(sys_step P)\<^sup>*\<^sup>* \<sigma> \<tau> \<Longrightarrow> exit_count \<sigma> \<le> exit_count \<tau>"
  by (induction rule: rtranclp_induct) (auto dest: exit_count_mono)

text \<open>A run of the service in which no new exit is handled.\<close>

lemma serves_run:
  assumes "(sys_step P)\<^sup>*\<^sup>* \<sigma> \<tau>" and "exit_count \<tau> = exit_count \<sigma>" and "sm_system s = \<sigma>"
  shows "(shim_step P)\<^sup>*\<^sup>* s (s\<lparr>sm_system := \<tau>\<rparr>)"
  using assms
proof (induction arbitrary: s rule: converse_rtranclp_induct)
  case base
  then show ?case by (cases s) simp
next
  case (step \<sigma> \<rho>)
  have "exit_count \<rho> = exit_count \<sigma>" and c: "exit_count \<tau> = exit_count \<rho>"
    using exit_count_mono [OF step.hyps(1)] exit_counts_mono [OF step.hyps(2)] step.prems(1) by simp_all
  with step.hyps(1) step.prems(2) have "shim_step P s (s\<lparr>sm_system := \<rho>\<rparr>)" by (intro serves) simp_all
  moreover have "(shim_step P)\<^sup>*\<^sup>* (s\<lparr>sm_system := \<rho>\<rparr>) (s\<lparr>sm_system := \<tau>\<rparr>)"
    using step.IH [OF c, of "s\<lparr>sm_system := \<rho>\<rparr>"] by simp
  ultimately show ?case by (rule converse_rtranclp_into_rtranclp)
qed

text \<open>An announced exit comes into the service's channel.\<close>

lemma exit_announced:
  assumes "rinv s" and "sm_exits s = [e]" and "\<not> sm_waits s" and "in_channel s = []"
  obtains t where "(shim_step P)\<^sup>*\<^sup>* s t" and "sm_system t = sm_system s" and "in_channel t = [e]"
    and "sm_received t = sm_received s" and "sm_late t = sm_late s"
proof -
  let ?m = "sm_monitor s" and ?ec = "sm_ec s"
  let ?cs = "?ec # remove1 ?ec (m_subscribers ?m)"
  define n where "n = \<lparr>n_mon = ?m, n_timer = TStopped, n_success = [], n_failed = 0, n_round = [], n_todo = None, n_done = False\<rparr>"
  define n1 where "n1 = n\<lparr>n_todo := Some ?cs, n_round := ?cs, n_failed := 0\<rparr>"
  let ?s1 = "s\<lparr>sm_exits := [], sm_waits := True, sm_notifying := sm_notifying s @ [(e, n)]\<rparr>"
  let ?s2 = "?s1\<lparr>sm_notifying := sm_notifying s @ [(e, n1)]\<rparr>"
  note c = rinv_consistent [OF assms(1)]
  have sub: "\<exists>sub. m_objs ?m ?ec = Some sub" using registered [OF c] by blast
  then obtain sub where sub: "m_objs (n_mon n1) ?ec = Some sub" by (auto simp: n1_def n_def)
  have room: "has_room (n_mon n1) ?ec" using open_channel [OF c] assms(4)
    by (auto simp: n1_def n_def has_room_def in_channel_def bufferSize_def)
  have one: "shim_step P s ?s1"
    by (rule announces [OF assms(2,3), of TRunning _ ?m]) (simp_all add: start_notify_def n_def)
  have "nstep e n n1" unfolding n1_def by (rule begin_round) (use c in \<open>simp_all add: n_def\<close>)
  moreover have "n\<lparr>n_mon := ?m\<rparr> = n" by (simp add: n_def)
  ultimately have "shim_step P ?s1 (?s1\<lparr>sm_monitor := n_mon n1, sm_notifying := (sm_notifying ?s1)[length (sm_notifying s) := (e, n1)]\<rparr>)"
    by (intro notifies [where n = n]) simp_all
  moreover have "?s1\<lparr>sm_monitor := n_mon n1, sm_notifying := (sm_notifying ?s1)[length (sm_notifying s) := (e, n1)]\<rparr> = ?s2"
    by (simp add: n1_def n_def)
  ultimately have two: "shim_step P ?s1 ?s2" by simp
  have m1: "n_mon n1 = ?m" "\<not> n_done n1" "n_todo n1 = Some (?ec # remove1 ?ec (m_subscribers ?m))"
    by (simp_all add: n1_def n_def)
  have notyet: "\<not> served n1 ?ec"
    using registered [OF c] by (auto simp: served_def closed_obj_def n1_def n_def)
  obtain m where m: "chan_send ?ec e (n_mon n1) = (Ret (), m)"
    and r: "notify_one e ?ec (Sent False) n1 = (Ret (), n1\<lparr>n_mon := m, n_success := n_success n1 @ [?ec], n_timer := TStopped\<rparr>)"
    using notify_one_sends [OF sub _ notyet room, of e False] c(1) m1(1) by metis
  define n2 where "n2 = n1\<lparr>n_mon := m, n_success := n_success n1 @ [?ec], n_timer := TStopped, n_todo := Some (remove1 ?ec (m_subscribers ?m))\<rparr>"
  let ?s3 = "?s2\<lparr>sm_monitor := m, sm_notifying := sm_notifying s @ [(e, n2)]\<rparr>"
  have "nstep e n1 n2"
    using serve [OF m1(2,3) _ r] room by (simp add: n2_def)
  moreover have "n1\<lparr>n_mon := ?m\<rparr> = n1" using m1(1) by (cases n1) simp
  ultimately have "shim_step P ?s2 (?s2\<lparr>sm_monitor := n_mon n2, sm_notifying := (sm_notifying ?s2)[length (sm_notifying s) := (e, n2)]\<rparr>)"
    by (intro notifies [where n = n1]) simp_all
  then have three: "shim_step P ?s2 ?s3" by (simp add: n2_def)
  from one two three have run: "(shim_step P)\<^sup>*\<^sup>* s ?s3" by (meson converse_rtranclp_into_rtranclp r_into_rtranclp)
  have "in_channel ?s3 = [e]"
    using m m1(1) assms(4) by (auto simp: in_channel_def chan_send_def split: option.splits if_splits)
  with run show thesis by (intro that [of ?s3]) simp_all
qed

text \<open>From there to the publisher, when it is an exit of the only container's process.\<close>

lemma exit_handled:
  assumes "rinv s" and "oinv (sm_system s)" and "sm_exits s = [\<lparr>x_Pid = pid, x_Status = status\<rparr>]" and "\<not> sm_waits s"
    and "in_channel s = []" and "exits_idle (sm_system s)"
  defines "sh \<equiv> sy_shared (sm_system s)"
  assumes "sh_containers sh = [(cid, a)]" and "ct_process (sh_objs sh ! a) = Some p" and "pk_Pid P p (sh_ext sh) = pid"
    and "pk_SetExited P p status (sh_ext sh) = (Ret (), y)" and "\<not> sh_writing sh" and "\<not> sh_sendMu sh"
    and "\<not> sh_eventsClosed sh" and "length (sh_events sh) < 128"
  obtains t where "(shim_step P)\<^sup>*\<^sup>* s t" and "sm_received t = sm_received s @ [\<lparr>x_Pid = pid, x_Status = status\<rparr>]"
    and "sm_late t = sm_late s" and "sy_shared (sm_system t) = sh\<lparr>sh_ext := y, sh_events := sh_events sh @
      [TaskExit cid (pk_PID P p y) (u32 pid) (u32 status) (pk_ExitedAt P p y)]\<rparr>"
proof -
  let ?e = "\<lparr>x_Pid = pid, x_Status = status\<rparr>" and ?ts = "sy_tasks (sm_system s)"
  obtain s2 where s2: "(shim_step P)\<^sup>*\<^sup>* s s2" "sm_system s2 = sm_system s" "in_channel s2 = [?e]"
    "sm_received s2 = sm_received s" "sm_late s2 = sm_late s"
    by (rule exit_announced [OF assms(1,3-5)])
  obtain m where m: "chan_recv (sm_ec s2) (sm_monitor s2) = (Ret (Some ?e), m)"
    using s2(3) by (auto simp: in_channel_def chan_recv_def split: option.splits)
  let ?t = "t_exit P (\<lambda>cs. cs) (\<lambda>ps. ps) pid status"
  let ?s3 = "s2\<lparr>sm_monitor := m, sm_received := sm_received s @ [?e],
    sm_system := (sm_system s)\<lparr>sy_tasks := ?ts @ [(FromExits, ?t)]\<rparr>\<rparr>"
  have three: "shim_step P s2 ?s3"
    using receives [OF _ _ _ m, of "\<lambda>cs. cs" "\<lambda>ps. ps" P] assms(6) by (simp add: s2(2,4))
  define sh' where "sh' = sh\<lparr>sh_ext := y, sh_events := sh_events sh @
    [TaskExit cid (pk_PID P p y) (u32 pid) (u32 status) (pk_ExitedAt P p y)]\<rparr>"
  have i: "shinv sh" using assms(2) by (auto simp: oinv_def sh_def)
  then have a: "a < length (sh_objs sh)" "made cid (sh_objs sh ! a)"
    using made_at [of sh a] assms(8) by (auto simp: shinv_def points_def ids_of_def)
  have "run ?t sh = (Ret None, sh')"
    unfolding sh'_def by (rule run_exit) (use assms(8-15) a in \<open>simp_all add: eventsCapacity_def\<close>)
  from run_steps [OF this, of "length ?ts" "?ts @ [(FromExits, ?t)]" P FromExits]
  have "(sys_step P)\<^sup>*\<^sup>* (sm_system ?s3) \<lparr>sy_shared = sh', sy_tasks = ?ts @ [(FromExits, Fin None)]\<rparr>"
    by (cases "sm_system s") (simp add: sh_def)
  from serves_run [OF this _ refl]
  have "(shim_step P)\<^sup>*\<^sup>* ?s3 (?s3\<lparr>sm_system := \<lparr>sy_shared = sh', sy_tasks = ?ts @ [(FromExits, Fin None)]\<rparr>\<rparr>)"
    by (simp add: exit_count_def)
  with s2(1) three have "(shim_step P)\<^sup>*\<^sup>* s (?s3\<lparr>sm_system := \<lparr>sy_shared = sh', sy_tasks = ?ts @ [(FromExits, Fin None)]\<rparr>\<rparr>)"
    by (meson converse_rtranclp_into_rtranclp rtranclp_trans)
  then show thesis by (rule that) (simp_all add: sh'_def s2(5))
qed

text \<open>C27: a child of the shim that \<open>Reap\<close> collects, and that is the process of its only container, can
  be followed through the shim: there are steps after which the service has received the exit
  and has sent one exit event, with the container, the pid and the status.\<close>

theorem child_exit_published:
  assumes "new_shim sid x0 = Ret s0" and "(shim_step P)\<^sup>*\<^sup>* s0 s"
    and "sm_exits s = []" and "\<not> sm_waits s" and "in_channel s = []" and "exits_idle (sm_system s)"
    and "sh_ext (sy_shared (sm_system s)) = (x, w)"
    and "Reap_exits results pidfile w = (Ret ([\<lparr>x_Pid = pid, x_Status = status\<rparr>], err), w')"
    and "sh_containers (sy_shared (sm_system s)) = [(cid, a)]"
    and "ct_process (sh_objs (sy_shared (sm_system s)) ! a) = Some p"
    and "pk_Pid P p (x, w') = pid" and "pk_SetExited P p status (x, w') = (Ret (), y)"
    and "\<not> sh_writing (sy_shared (sm_system s))" and "\<not> sh_sendMu (sy_shared (sm_system s))"
    and "\<not> sh_eventsClosed (sy_shared (sm_system s))" and "length (sh_events (sy_shared (sm_system s))) < 128"
  shows "\<exists>t. (shim_step P)\<^sup>*\<^sup>* s t \<and> sm_received t = sm_received s @ [\<lparr>x_Pid = pid, x_Status = status\<rparr>] \<and>
    sent (sy_shared (sm_system t)) = sent (sy_shared (sm_system s)) @
      [(TaskExitEventTopic, TaskExit cid (pk_PID P p y) (u32 pid) (u32 status) (pk_ExitedAt P p y))]"
proof -
  let ?e = "\<lparr>x_Pid = pid, x_Status = status\<rparr>" and ?sh = "(sy_shared (sm_system s))\<lparr>sh_ext := (x, w')\<rparr>"
  let ?s1 = "s\<lparr>sm_exits := [?e], sm_reaped := sm_reaped s @ [?e], sm_system := (sm_system s)\<lparr>sy_shared := ?sh\<rparr>\<rparr>"
  have one: "shim_step P s ?s1" by (rule reaps [OF assms(3,4,7,8)])
  have r: "rinv ?s1" by (rule rinv_step [OF rep.inv_reach [OF assms(1,2)] one])
  have o1: "oinv (sm_system ?s1)" using oinv_outside [OF sy_reach [OF shim_system [OF assms(1,2)]]] by simp
  obtain t where t: "(shim_step P)\<^sup>*\<^sup>* ?s1 t" "sm_received t = sm_received ?s1 @ [?e]"
    "sy_shared (sm_system t) = ?sh\<lparr>sh_ext := y, sh_events := sh_events ?sh @
      [TaskExit cid (pk_PID P p y) (u32 pid) (u32 status) (pk_ExitedAt P p y)]\<rparr>"
    by (rule exit_handled [OF r o1, of pid status cid a p P y])
      (use assms(4-6,9-16) in \<open>simp_all add: in_channel_def exits_idle_def\<close>)
  then have "(shim_step P)\<^sup>*\<^sup>* s t" using one by (meson converse_rtranclp_into_rtranclp)
  with t show ?thesis by (intro exI [of _ t]) (simp add: sent_def)
qed

subsection \<open>Witnesses\<close>

text \<open>The demo package's shim after it has created the container \<open>c1\<close>.\<close>

definition demo_shim :: "demo_procs shim" where
  "demo_shim = \<lparr>sm_monitor = snd (Subscribe new_monitor), sm_ec = 0, sm_exits = [], sm_waits = False, sm_notifying = [],
     sm_system = demo_system, sm_reaped = [], sm_received = [], sm_late = False\<rparr>"

definition demo_recorded :: "demo_procs shared" where
  "demo_recorded = demo_shared\<lparr>sh_containers := [(''c1'', 0)], sh_events := [demo_created ''c1'' 100]\<rparr>"

definition demo_shim1 :: "demo_procs shim" where
  "demo_shim1 = demo_shim\<lparr>sm_system := \<lparr>sy_shared = demo_recorded, sy_tasks = [(FromRequest demo_request, Fin None)]\<rparr>\<rparr>"

lemma demo_new_shim: "new_shim ''shim'' ([], demo_world) = Ret demo_shim"
  by (simp add: new_shim_def demo_shim_def demo_system_def Subscribe_def new_monitor_def Let_def)

lemma demo_create_runs: "run (t_serve demo_pkg demo_request) (sy_shared demo_system) = (Ret None, demo_recorded)"
  by (simp add: demo_request_def demo_eval runu_options_def init_config_of_def create_config_of_def demo_recorded_def
      demo_shared_def demo_container_def t_announce_created_def t_process_def t_deref_def t_ask_def t_send_def
      eventsCapacity_def u32_def)

lemma demo_shim1_reached: "(shim_step demo_pkg)\<^sup>*\<^sup>* demo_shim demo_shim1"
proof -
  have "(sys_step demo_pkg)\<^sup>*\<^sup>* demo_system \<lparr>sy_shared = demo_recorded, sy_tasks = [(FromRequest demo_request, Fin None)]\<rparr>"
    using run_whole [OF demo_create_runs] by (simp add: demo_system_def new_system_def)
  from serves_run [OF this, of demo_shim] show ?thesis
    by (simp add: demo_shim1_def demo_shim_def exit_count_def demo_system_def new_system_def)
qed

lemma demo_shim1_simps [simp]:
  "sm_exits demo_shim1 = []" "\<not> sm_waits demo_shim1" "in_channel demo_shim1 = []" "sm_received demo_shim1 = []"
  "exits_idle (sm_system demo_shim1)" "sy_shared (sm_system demo_shim1) = demo_recorded" "sm_notifying demo_shim1 = []"
  "sh_ext demo_recorded = ([(''c1'', -1)], demo_world)" "sh_containers demo_recorded = [(''c1'', 0)]"
  "sh_objs demo_recorded = [demo_container ''c1'' 0]" "\<not> sh_writing demo_recorded" "\<not> sh_sendMu demo_recorded"
  "\<not> sh_eventsClosed demo_recorded" "sh_events demo_recorded = [demo_created ''c1'' 100]" "sh_published demo_recorded = []"
  by (simp_all add: demo_shim1_def demo_shim_def demo_recorded_def in_channel_def exits_idle_def Subscribe_def new_monitor_def
      demo_shared_def demo_system_def new_system_def Let_def)

text \<open>Its process is killed by signal 9; the pid file cannot be read.\<close>

lemma child_exit_published_witness:
  "\<exists>t. (shim_step demo_pkg)\<^sup>*\<^sup>* demo_shim1 t \<and> sm_received t = [\<lparr>x_Pid = 100, x_Status = 137\<rparr>] \<and>
     sent (sy_shared (sm_system t)) = [(TaskCreateEventTopic, demo_created ''c1'' 100),
       (TaskExitEventTopic, TaskExit ''c1'' ''c1'' 100 137 0)]"
  using child_exit_published [OF demo_new_shim demo_shim1_reached, where
      results = "[WPid 100 (WSignaled 9), WPid 0 WStopped]" and pidfile = "(0, None)" and p = 0 and a = 0 and
      y = "([(''c1'', 137)], demo_world)"]
  by (simp add: Reap_exits_def reapOS_def exitSignalOffset_def demo_container_def demo_ops u32_def sent_def)


lemma demo_exit_received:
  obtains t where "(shim_step demo_pkg)\<^sup>*\<^sup>* demo_shim t" and "sm_received t = [\<lparr>x_Pid = 100, x_Status = 137\<rparr>]"
    and "\<not> sm_late t"
proof -
  let ?e = "\<lparr>x_Pid = 100, x_Status = 137\<rparr>"
  let ?s = "demo_shim1\<lparr>sm_exits := [?e], sm_reaped := sm_reaped demo_shim1 @ [?e], sm_system := (sm_system demo_shim1)
    \<lparr>sy_shared := demo_recorded\<lparr>sh_ext := ([(''c1'', -1)], demo_world)\<rparr>\<rparr>\<rparr>"
  have "shim_step demo_pkg demo_shim1 ?s"
    using reaps [of demo_shim1 "[(''c1'', -1)]" demo_world "[WPid 100 (WSignaled 9), WPid 0 WStopped]" "(0, None)"
        "[?e]" _ demo_world demo_pkg]
    by (simp add: Reap_exits_def reapOS_def exitSignalOffset_def)
  with demo_shim1_reached have run: "(shim_step demo_pkg)\<^sup>*\<^sup>* demo_shim ?s" by (rule rtranclp.rtrancl_into_rtrancl)
  obtain t where "(shim_step demo_pkg)\<^sup>*\<^sup>* ?s t" "sm_received t = sm_received ?s @ [?e]" "sm_late t = sm_late ?s"
    by (rule exit_handled [OF rep.inv_reach [OF demo_new_shim run] sy_reach [OF shim_system [OF demo_new_shim run]],
        of 100 137 "''c1''" 0 0 demo_pkg "([(''c1'', 137)], demo_world)"])
      (auto simp: in_channel_def exits_idle_def demo_container_def demo_ops demo_shim1_def demo_shim_def Subscribe_def new_monitor_def)
  with run show thesis by (intro that [of t]) (auto simp: demo_shim1_def demo_shim_def)
qed

lemma exits_reach_service_once_witness:
  "\<exists>s. (shim_step demo_pkg)\<^sup>*\<^sup>* demo_shim s \<and> sm_received s = [\<lparr>x_Pid = 100, x_Status = 137\<rparr>] \<and>
     mset (sm_received s @ in_channel s) \<subseteq># mset (map fst (sm_notifying s)) \<and> exit_count (sm_system s) = 1"
proof -
  obtain t where t: "(shim_step demo_pkg)\<^sup>*\<^sup>* demo_shim t" "sm_received t = [\<lparr>x_Pid = 100, x_Status = 137\<rparr>]"
    by (rule demo_exit_received)
  with exits_reach_service_once [OF demo_new_shim t(1)] show ?thesis by (intro exI [of _ t]) simp
qed

lemma exits_in_order_witness:
  "\<exists>s. (shim_step demo_pkg)\<^sup>*\<^sup>* demo_shim s \<and> sm_received s = [\<lparr>x_Pid = 100, x_Status = 137\<rparr>] \<and>
     prefix (sm_received s @ in_channel s) (sm_reaped s)"
proof -
  obtain t where t: "(shim_step demo_pkg)\<^sup>*\<^sup>* demo_shim t" "sm_received t = [\<lparr>x_Pid = 100, x_Status = 137\<rparr>]" "\<not> sm_late t"
    by (rule demo_exit_received)
  with exits_in_order [OF demo_new_shim t(1,3)] show ?thesis by (intro exI [of _ t]) simp
qed

end
