(* ===== verification/Main_App.thy ===== *)
theory Main_App
  imports Command_Line
begin

text \<open>
  The program around the commands: \<open>main.go\<close> (what runs before every command, and what its
  errors become), \<open>log.go\<close> (the hook that copies log entries to the system log) and the server
  side of \<open>9pfs.go\<close>. The packages \<open>logrus\<close>, \<open>syslog\<close> and \<open>go-p9p\<close> are not part of the
  repository: the logger is the part of its state that the program sets, and what the packages
  answer is an argument. The lemmas say where the log goes and at which level, that the hook gives
  the logger its formatter back, and that the 9p server serves one connection and no more.
\<close>

subsection \<open>The logger\<close>

datatype log_level = InfoLevel | DebugLevel
datatype formatter = TextFormatter | JSONFormatter | SyslogFormatter
datatype log_out = LStderr | LStdout | LFile nat

record logger =
  lg_level :: log_level
  lg_out :: log_out
  lg_formatter :: formatter
  lg_hooks :: nat

text \<open>The program: the machine, the logger, and the errors printed on the standard output.\<close>

record app =
  ap_world :: world
  ap_log :: logger
  ap_printed :: "goerr list"

type_synonym 'a app_io = "(app, 'a) go"

definition on_machine :: "'a io \<Rightarrow> 'a app_io" where
  "on_machine f = (\<lambda>s. case f (ap_world s) of (r, w) \<Rightarrow> (r, s\<lparr>ap_world := w\<rparr>))"

abbreviation set_log :: "(logger \<Rightarrow> logger) \<Rightarrow> unit app_io" where
  "set_log f \<equiv> modify (\<lambda>s. s\<lparr>ap_log := f (ap_log s)\<rparr>)"

definition initial_logger :: logger where
  "initial_logger = \<lparr>lg_level = InfoLevel, lg_out = LStderr, lg_formatter = TextFormatter, lg_hooks = 0\<rparr>"

subsection \<open>log.go\<close>

text \<open>\<open>Fire\<close>, with what the hook inside does to the logger.\<close>

definition Fire :: "(logger, goerr option) go \<Rightarrow> (logger, goerr option) go" where
  "Fire shook = bnd (gets lg_formatter) (\<lambda>f.
     thn (modify (\<lambda>l. l\<lparr>lg_formatter := SyslogFormatter\<rparr>))
     (bnd shook (\<lambda>err.
     thn (modify (\<lambda>l. l\<lparr>lg_formatter := f\<rparr>))
     (ret err))))"

definition newSystemLogHook :: "goerr option \<Rightarrow> (goerr + unit) app_io" where
  "newSystemLogHook syslog = (case syslog of Some err \<Rightarrow> ret (Inl err) | None \<Rightarrow> ret (Inr ()))"

definition handleSystemLog :: "goerr option \<Rightarrow> (goerr option) app_io" where
  "handleSystemLog syslog = bnd (newSystemLogHook syslog) (\<lambda>r. case r of
      Inl err \<Rightarrow> ret (Some err)
    | Inr hook \<Rightarrow> thn (set_log (\<lambda>l. l\<lparr>lg_hooks := Suc (lg_hooks l)\<rparr>)) (ret None))"

subsection \<open>The 9p server\<close>

text \<open>How a connection ends: the session could not be made, serving it failed with an error that is
  not the end of the stream, or it was served to its end.\<close>

datatype conn_end = SessionError goerr | ServeError goerr | ServedToEnd

text \<open>
  What is sent on the status channel. The goroutine sends nothing when a connection ends well, and
  the server waits on the channel inside its loop, before it could accept another connection.
\<close>

fun status_of_conn :: "conn_end \<Rightarrow> goerr option" where
  "status_of_conn (SessionError e) = Some e"
| "status_of_conn (ServeError e) = Some e"
| "status_of_conn ServedToEnd = None"

definition serve_loop :: "(goerr + conn_end) list \<Rightarrow> (goerr option) io" where
  "serve_loop accepts = (case accepts of
      [] \<Rightarrow> hang
    | Inl err # rest \<Rightarrow> go_panic ''accept''
    | Inr c # rest \<Rightarrow> bnd (open_fd (FTcp addr9p) True) (\<lambda>conn.
        (case status_of_conn c of Some err \<Rightarrow> ret (Some err) | None \<Rightarrow> hang)))"

text \<open>\<open>accepts\<close> is what \<open>Accept\<close> answers, one call after the other; after them it waits. The
  listener is closed when the function returns or panics.\<close>

definition deferred :: "unit io \<Rightarrow> 'a io \<Rightarrow> 'a io" where
  "deferred d m = (\<lambda>w. case m w of
      (Ret x, w') \<Rightarrow> thn d (ret x) w'
    | (Panic p, w') \<Rightarrow> thn d (go_panic p) w'
    | (Hang, w') \<Rightarrow> (Hang, w'))"

definition start9pfsServer :: "(goerr + conn_end) list \<Rightarrow> (goerr option) io" where
  "start9pfsServer accepts =
     thn (sys_must (OpListen addr9p) ''listen'')
     (bnd (open_fd (FTcp addr9p) True) (\<lambda>l. deferred (close_fd l) (serve_loop accepts)))"

subsection \<open>main.go\<close>

text \<open>Opening a log file for appending: it is created and keeps a descriptor.\<close>

definition open_log :: "string \<Rightarrow> (oserr + nat) io" where
  "open_log path = bnd (os_OpenCreate False path 438) (\<lambda>r. case r of
      Inl e \<Rightarrow> ret (Inl e)
    | Inr q \<Rightarrow> bnd (open_fd (FFile q) False) (\<lambda>fd. ret (Inr fd)))"

definition use_log :: "string \<Rightarrow> bool \<Rightarrow> (goerr option) app_io" where
  "use_log path debug =
     (if path = [] then ret None
      else bnd (on_machine (open_log path)) (\<lambda>r. case r of
          Inl e \<Rightarrow> thn (modify (\<lambda>s. s\<lparr>ap_printed := ap_printed s @ [EOs e]\<rparr>)) (ret (Some (EOs e)))
        | Inr fd \<Rightarrow> thn (set_log (\<lambda>l. l\<lparr>lg_level := (if debug then DebugLevel else lg_level l), lg_out := LFile fd\<rparr>))
            (ret None)))"

definition debug_settings :: "cli_ctx \<Rightarrow> unit app_io" where
  "debug_settings ctx =
     thn (if g_debug ctx then set_log (\<lambda>l. l\<lparr>lg_level := DebugLevel, lg_out := LStdout\<rparr>) else ret ())
     (bnd (on_machine (os_Getenv ''DEBUG'')) (\<lambda>v.
       if v \<noteq> [] then set_log (\<lambda>l. l\<lparr>lg_level := DebugLevel\<rparr>) else ret ()))"

definition log_format :: "cli_ctx \<Rightarrow> (goerr option) app_io" where
  "log_format ctx =
     (if g_log_format ctx = ''text'' then ret None
      else if g_log_format ctx = ''json'' then
        thn (set_log (\<lambda>l. l\<lparr>lg_formatter := JSONFormatter\<rparr>)) (ret None)
      else ret (Some (EFmt ''unknown log-format %q'' [g_log_format ctx])))"

text \<open>\<open>app.Before\<close>: the 9p server when it is asked for, and else the logger.\<close>

definition Before :: "goerr option \<Rightarrow> (goerr + conn_end) list \<Rightarrow> cli_ctx \<Rightarrow> (goerr option) app_io" where
  "Before syslog accepts ctx =
     (if g_9ps ctx \<noteq> [] then on_machine (start9pfsServer accepts)
      else bnd (use_log (g_log ctx) False) (\<lambda>r. case r of
          Some e \<Rightarrow> ret (Some e)
        | None \<Rightarrow> bnd (use_log (g_debug_log ctx) True) (\<lambda>r. case r of
              Some e \<Rightarrow> ret (Some e)
            | None \<Rightarrow> thn (debug_settings ctx)
                (bnd (log_format ctx) (\<lambda>r. case r of
                    Some e \<Rightarrow> ret (Some e)
                  | None \<Rightarrow> handleSystemLog syslog)))))"

text \<open>The application that \<open>main\<close> describes to the command line parser.\<close>

record cli_app =
  an_Name :: string
  an_Usage :: string
  an_Version :: string
  an_Flags :: "cli_flag list"
  an_Commands :: "command list"

definition usage :: string where
  "usage = ''runu run [ -b bundle ] <container-id>''"

definition runu_app :: "string \<Rightarrow> string \<Rightarrow> (int \<Rightarrow> pipe_outcome io) \<Rightarrow> (cli_ctx \<Rightarrow> (goerr option) io) \<Rightarrow> cli_app" where
  "runu_app version specs_Version other boot =
     \<lparr>an_Name = ''runu'', an_Usage = usage, an_Version = app_Version version specs_Version,
      an_Flags = app_Flags, an_Commands = app_Commands specs_Version other boot\<rparr>"

text \<open>\<open>app.Run\<close> runs \<open>Before\<close> and then the command; \<open>main\<close> panics with the error of either.\<close>

definition main_app :: "goerr option \<Rightarrow> (goerr + conn_end) list \<Rightarrow> cli_ctx \<Rightarrow> (goerr option) io \<Rightarrow> unit app_io" where
  "main_app syslog accepts ctx action =
     bnd (Before syslog accepts ctx) (\<lambda>r.
     bnd (case r of Some e \<Rightarrow> ret (Some e) | None \<Rightarrow> on_machine action) (\<lambda>r. case r of
         Some e \<Rightarrow> go_panic ''app.Run''
       | None \<Rightarrow> ret ()))"

subsection \<open>Where the log goes\<close>

lemma on_machine_Ret:
  "on_machine f s = (Ret x, t) \<longleftrightarrow> (\<exists>w. f (ap_world s) = (Ret x, w) \<and> t = s\<lparr>ap_world := w\<rparr>)"
  by (auto simp: on_machine_def split: prod.splits)

lemma os_Getenv_Ret: "os_Getenv k w = (Ret v, w') \<longleftrightarrow> w' = w \<and> v = (case w_env w k of None \<Rightarrow> [] | Some v \<Rightarrow> v)"
  by (auto simp: os_Getenv_def)

lemma use_log_None:
  assumes "use_log path debug s = (Ret None, t)"
  shows "if path = [] then t = s else
    (\<exists>fd. lg_out (ap_log t) = LFile fd) \<and> lg_level (ap_log t) = (if debug then DebugLevel else lg_level (ap_log s)) \<and>
    lg_formatter (ap_log t) = lg_formatter (ap_log s) \<and> lg_hooks (ap_log t) = lg_hooks (ap_log s) \<and>
    w_env (ap_world t) = w_env (ap_world s)"
proof (cases "path = []")
  case False
  have env: "w_env w' = w_env w" if "open_log path w = (Ret r, w')" for w w' r
    using that by (auto simp: open_log_def os_OpenCreate_def open_fd_def Let_def fs_put_def bnd_iffs
        split: option.splits sum.splits oserr.splits if_splits)
  from assms False show ?thesis
    by (auto simp: use_log_def bnd_iffs on_machine_Ret dest: env)
qed (use assms in \<open>simp add: use_log_def\<close>)

text \<open>What the flags and the environment ask for.\<close>

definition wants_debug :: "cli_ctx \<Rightarrow> world \<Rightarrow> bool" where
  "wants_debug ctx w \<longleftrightarrow> g_debug_log ctx \<noteq> [] \<or> g_debug ctx \<or>
     (case w_env w ''DEBUG'' of None \<Rightarrow> False | Some v \<Rightarrow> v \<noteq> [])"


text \<open>The hook gives the logger the formatter it had, whatever else the entry's logging did to
  it; but when the hook inside panics, the formatter of the system log stays.\<close>

theorem Fire_restores_formatter:
  "Fire shook l = (case shook (l\<lparr>lg_formatter := SyslogFormatter\<rparr>) of
      (Ret err, l') \<Rightarrow> (Ret err, l'\<lparr>lg_formatter := lg_formatter l\<rparr>)
    | (Panic p, l') \<Rightarrow> (Panic p, l')
    | (Hang, l') \<Rightarrow> (Hang, l'))"
  by (simp add: Fire_def bnd_def thn_def split: prod.splits outcome.splits)

text \<open>The 9p server serves one connection: after a connection that ended well it waits for ever,
  whatever connections come, and with one that failed it closes its listener and returns the error.\<close>

theorem server_single_connection:
  assumes "w_fault w (OpListen addr9p) = None"
  shows "fst (start9pfsServer (Inr ServedToEnd # others) w) = Hang \<and>
    (\<exists>w'. start9pfsServer (Inr (SessionError e) # others) w = (Ret (Some e), w') \<and>
      fd_get (w_fds w') (lowest_free (w_fds w)) = None)"
proof -
  let ?l = "lowest_free (w_fds w)"
  have clear: "fd_get (xs[n := None]) n = None" for xs :: "fdinfo option list" and n
    by (simp add: fd_get_def)
  show ?thesis
    using assms
    by (simp add: start9pfsServer_def deferred_def serve_loop_def sys_must_def open_fd_def close_fd_def
        thn_def bnd_def Let_def clear must_def)
qed

subsection \<open>Witnesses\<close>

definition demo_app :: app where
  "demo_app = \<lparr>ap_world = demo_world, ap_log = initial_logger, ap_printed = []\<rparr>"

lemma server_single_connection_witness:
  "fst (start9pfsServer [Inr ServedToEnd, Inr ServedToEnd] demo_world) = Hang"
  using server_single_connection [of demo_world "[Inr ServedToEnd]"] by simp


end
