(* ===== verification/Spec2Isabelle.thy ===== *)
theory Spec2Isabelle
  imports State_Dir Container_Store Mounts Devices Net Lkl_Config Env_Args Launch Launch_Order Lifecycle
    Life_Store Start_Launched Handshake Command_Line Shim_Start Shim_Published Main_App
begin

text \<open>
  \<^bold>\<open>runu\<close> is a container runtime for unikernels, with a shim for containerd. This development models
  its Go code and proves what its parts guarantee and where they do not do what they mean to.

  \<^bold>\<open>The program.\<close> \<open>main.go\<close> sets up the logger and runs one command. \<open>create\<close> makes the state directory
  of a container, mounts its volumes and starts a second instance of the program, \<open>boot\<close>, which reads
  the specification, takes the network configuration over from the container's network namespace,
  writes the configuration file of the library operating system, opens the disk, the network devices
  and the configuration file, starts the unikernel's process with them as its descriptors, stops it
  and sends one byte to the waiting \<open>create\<close>. \<open>start\<close> continues the process that the pid file names,
  \<open>kill\<close> signals it, \<open>state\<close> prints what was recorded, \<open>delete\<close> removes the state directory. The shim
  (\<open>cmd/containerd-shim-runu-v1\<close>) serves containerd's requests through the package \<open>process\<close>, which
  calls these commands, and announces the exits that its reaper collects.

  \<^bold>\<open>Base theories.\<close>
  \<^item> \<open>Prelude\<close>: Go computations on a state that end with a value, a panic or blocked; errors as values;
    the locale of frames (what a computation leaves alone) and the locale of invariants of step relations.
  \<^item> \<open>Go_Strings\<close>, \<open>Go_Path\<close>, \<open>Go_OS\<close>: what the program uses of the standard library. The machine is the
    record \<open>world\<close>: a file tree, descriptors, processes, environment, and a trace of the system calls that
    act outside them. \<open>w_fault\<close> lets any call fail. \<open>OS_Facts\<close> has the frames of these calls.
  \<^item> \<open>Oci_Spec\<close>, \<open>Cli\<close>: the specification's data and a parsed command line with \<open>checkArgs\<close> (\<open>utils.go\<close>).
  \<^item> \<open>Demo\<close>: a small machine on which the statements are applied.

  \<^bold>\<open>Components and their lemmas.\<close>
  \<^item> \<open>Spec_Cmd\<close>: \<open>spec.go\<close>, the template and the loading of a specification.
  \<^item> \<open>State_Dir\<close>: \<open>state.go\<close>, \<open>delete.go\<close>. Creating is exclusive, deleting removes one container, what was
    saved is printed. \<open>Container_Store\<close> states the contract as a locale and shows by an interpretation
    that runs of these operations refine a map from ids to statuses.
  \<^item> \<open>Mounts\<close>: \<open>mount.go\<close>, \<open>mount_linux.go\<close>, \<open>mount_unsupported.go\<close>. Exactly the bind volumes are
    mounted; which destinations stay inside the root file system and which do not.
  \<^item> \<open>Devices\<close>: \<open>devices.go\<close>, \<open>devices_linux.go\<close>, \<open>devices_darwin.go\<close>. Device nodes and their numbers,
    interface requests, and the opening of everything that is passed on.
  \<^item> \<open>Net\<close>: \<open>utils_linux.go\<close>, \<open>utils_darwin.go\<close>. The first IPv4 address is reported and taken away.
  \<^item> \<open>Lkl_Config\<close>: \<open>lklConfig\<close> and \<open>generateLklJsonFile\<close> of \<open>utils.go\<close>, with a decoder that undoes the
    encoder.
  \<^item> \<open>Env_Args\<close>, \<open>Launch\<close>, \<open>Launch_Order\<close>: \<open>parseEnvs\<close> and \<open>prepareUkontainer\<close> of \<open>utils.go\<close>, and the client
    side of \<open>9pfs.go\<close>. The unikernel finds under every announced number what was announced, and a
    successful run does not depend on the order in which Go enumerates its map of files.
  \<^item> \<open>Lifecycle\<close>: \<open>create.go\<close>, \<open>boot.go\<close>, \<open>start.go\<close>, \<open>run.go\<close>, \<open>kill.go\<close>, \<open>exec.go\<close>. What each command does to
    processes, files and the recorded state. \<open>Life_Store\<close> shows that sequences of commands refine a map
    from ids to statuses, which \<open>state\<close> prints,
    and that a container that is not there makes them panic. \<open>Start_Launched\<close> follows the pid from the launch through
    its file to \<open>start\<close>.
  \<^item> \<open>Handshake\<close>: \<open>create\<close> and \<open>boot\<close> as a step relation over all their interleavings. \<open>create\<close> returns
    only after the set-up and never waits for a process that has ended.
  \<^item> \<open>Shim_Reaper\<close>, \<open>Shim_Notify\<close>: \<open>reaper.go\<close>. What is reaped and announced; \<open>notify\<close> as a step relation
    whose steps are its critical sections, between which receivers, subscriptions and other goroutines
    run: exits are delivered once, nothing panics or blocks, rounds end.
  \<^item> \<open>Shim_Service\<close>, \<open>Shim_Calls\<close>, \<open>Shim_Guarantees\<close>, \<open>Shim_Start\<close>: \<open>service.go\<close>, \<open>platform.go\<close>. Every request, the exits
    and the forwarding of events; the invariant of a running service; events in order; what \<open>Create\<close>,
    \<open>Start\<close>, \<open>Delete\<close> and \<open>Shutdown\<close> do and which exits are missed; the start of a shim.
  \<^item> \<open>Shim_Threads\<close>, \<open>Shim_Overlap\<close>: the same requests and \<open>processExits\<close> as threads of single actions on the
    mutexes, the map of containers (a write is two actions, so that unlocked accesses meet it), the channel
    of events and the process package; a system of threads is a step relation. \<open>Shim_Discipline\<close>: every
    request follows a discipline of tokens. \<open>Shim_Interleavings\<close>: what holds in every interleaving, what can
    make the shim panic, that requests do not block one another, that events stay in order. \<open>Shim_Alone\<close>: a
    request that meets no other does what its sequential definition in \<open>Shim_Service\<close> does, so that the
    statements of \<open>Shim_Guarantees\<close> are statements about the threads. \<open>Shim_Hazards\<close>: what goes wrong when
    \<open>Create\<close> overlaps with a \<open>Shutdown\<close>, another request or an exit.
  \<^item> \<open>Shim_Reporting\<close>, \<open>Shim_Published\<close>: the shim as a whole, with \<open>Reap\<close>, the goroutines of \<open>notify\<close>, the
    service's channel, \<open>processExits\<close> and the requests as one step relation, whose parts move as in the
    theories above. Collected exits reach the service once and in order, and can be followed to the
    publisher.
  \<^item> \<open>Command_Line\<close>: the tables of flags and commands, and the line that \<open>create\<close> writes for \<open>boot\<close>.
  \<^item> \<open>Main_App\<close>: \<open>main.go\<close>, \<open>log.go\<close> and the server side of \<open>9pfs.go\<close>.

  \<^bold>\<open>Parameters.\<close> What the repository does not hold is an argument of the definitions that use it: the
  answers of netlink and of the interface tables (\<open>netenv\<close>), containerd's packages (\<open>pkg\<close>, \<open>shimpkg\<close>), the
  orders in which Go enumerates its maps (any permutation), the results of \<open>wait4\<close>, of \<open>cmd.Wait\<close>, of the
  syslog hook and of 9p connections. No definition has fuel: loops run over lists, and waiting is the
  outcome \<open>Hang\<close>. A loop over the answers of a system call takes them as a list, and the statements about
  it say with which answer it ends.

  \<^bold>\<open>Simplifications.\<close> The file tree has no symbolic links and no permissions other than the mode bits kept
  with a file; a document is its decoded contents; debug output and time stamps are left out. In
  \<open>Shim_Service\<close> the requests run one after the other, and a request that has to wait is \<open>Hang\<close> in the state
  it has reached; in \<open>Shim_Threads\<close> they overlap. The mutexes of the reaper are the atomicity of its steps.

  \<^bold>\<open>Not modelled.\<close> containerd's \<open>shim.Run\<close>, which \<open>main\<close> of the shim calls, is a parameter. \<open>SetupReaperSignals\<close>
  registers a signal with Go's runtime and starts the loop that is modelled. Of the third-party command
  line parser only the syntax of Go's package \<open>flag\<close> is modelled. Usage texts of flags and commands are
  left out. Tests, scripts and Kubernetes manifests are not program code.
\<close>

end
